(* ===== verification/Prelude.thy ===== *)
theory Prelude
  imports Complex_Main "HOL-Library.Word" "HOL-Library.AList" "HOL-Library.Multiset"
begin

section \<open>Shared vocabulary of the development\<close>

text \<open>
  Go values as HOL values: machine integers are words of their width (a signed
  integer is the same word read with \<^term>\<open>sint\<close>, so a Go conversion between
  \<open>int64\<close> and \<open>uint64\<close> is the identity on words), an \<open>error\<close> is a
  \<open>goerr\<close>, a call that returns a value, returns an error or panics is a \<open>res\<close>,
  and a Go map is an association list with distinct keys whose order stands for the
  iteration order of \<open>range\<close>, which Go leaves open.
\<close>

named_theorems handler_defs \<open>definitions of handlers and steps, for unfolding\<close>
named_theorems frame \<open>what an operation leaves unchanged\<close>

type_synonym u32 = "32 word"
type_synonym u64 = "64 word"
type_synonym i32 = "32 word"
type_synonym i64 = "64 word"

subsection \<open>Errors and outcomes\<close>

text \<open>
  The errors the source builds or tells apart. \<open>ErrNew\<close> is \<open>errors.New\<close>.
  \<open>fmt.Errorf\<close> keeps its format string and its arguments: \<open>Errorf\<close> wraps nothing,
  \<open>ErrorfW\<close> wraps the argument of \<open>%w\<close>, and \<open>ErrorfS\<close> prints an error with
  \<open>%s\<close>, so that it is no longer found by unwrapping. \<open>ErrJoin\<close> is what
  \<open>errors.Join\<close> builds from its non-nil arguments; \<open>ExtErr\<close> is any other error of a
  callee outside the repository.
\<close>

datatype goerr =
    ErrNew string
  | Errorf string "string list"
  | ErrorfW string "string list" goerr
  | ErrorfS string goerr
  | ErrJoin "goerr list"
  | ContainerNotFoundError string
  | UnrecoverableError string
  | DeadlineExceeded
  | ExtErr string

datatype 'a res = Ok 'a | Err goerr | Panic string

primrec wrap :: "string \<Rightarrow> string list \<Rightarrow> 'a res \<Rightarrow> 'a res" where
  "wrap fmt args (Ok a) = Ok a"
| "wrap fmt args (Err e) = Err (ErrorfW fmt args e)"
| "wrap fmt args (Panic p) = Panic p"

text \<open>A call through a nil interface value or pointer.\<close>

definition nil_dereference :: string where
  "nil_dereference = ''invalid memory address or nil pointer dereference''"

definition index_out_of_range :: string where
  "index_out_of_range = ''index out of range''"

text \<open>\<open>errors.Join\<close>: nil arguments are dropped, and the result is nil if all are.\<close>

fun non_nil :: "goerr option list \<Rightarrow> goerr list" where
  "non_nil [] = []"
| "non_nil (None # es) = non_nil es"
| "non_nil (Some e # es) = e # non_nil es"

definition errors_Join :: "goerr option list \<Rightarrow> goerr option" where
  "errors_Join es = (case non_nil es of [] \<Rightarrow> None | x # xs \<Rightarrow> Some (ErrJoin (x # xs)))"

lemma non_nil_Nil_iff: "non_nil es = [] \<longleftrightarrow> (\<forall>e \<in> set es. e = None)"
  by (induction es rule: non_nil.induct) auto

lemma errors_Join_None_iff: "errors_Join es = None \<longleftrightarrow> (\<forall>e \<in> set es. e = None)"
  unfolding non_nil_Nil_iff [symmetric] by (simp add: errors_Join_def split: list.split)

subsection \<open>Calls that thread a state\<close>

text \<open>
  A call takes the state of everything it may change and returns its outcome with the new
  state; \<open>andthen\<close> is the sequencing Go writes as \<open>if err != nil { return }\<close>.
\<close>

type_synonym ('s, 'a) act = "'s \<Rightarrow> 'a res \<times> 's"

definition andthen :: "('s, 'a) act \<Rightarrow> ('a \<Rightarrow> ('s, 'b) act) \<Rightarrow> ('s, 'b) act" where
  "andthen m f s =
     (case m s of
        (Ok a, s') \<Rightarrow> f a s'
      | (Err e, s') \<Rightarrow> (Err e, s')
      | (Panic p, s') \<Rightarrow> (Panic p, s'))"

definition return_ok :: "'a \<Rightarrow> ('s, 'a) act" where
  "return_ok a s = (Ok a, s)"

definition return_err :: "goerr \<Rightarrow> ('s, 'a) act" where
  "return_err e s = (Err e, s)"

definition wrapping :: "string \<Rightarrow> string list \<Rightarrow> ('s, 'a) act \<Rightarrow> ('s, 'a) act" where
  "wrapping fmt args m s = (case m s of (r, s') \<Rightarrow> (wrap fmt args r, s'))"

lemma andthen_Ok_iff:
  "andthen m f s = (Ok b, s'') \<longleftrightarrow>
     (\<exists>a s'. m s = (Ok a, s') \<and> f a s' = (Ok b, s''))"
  by (auto simp: andthen_def split: prod.splits res.splits)

lemma andthen_simps [simp]:
  "m s = (Ok a, s') \<Longrightarrow> andthen m f s = f a s'"
  "m s = (Err e, s') \<Longrightarrow> andthen m f s = (Err e, s')"
  "m s = (Panic p, s') \<Longrightarrow> andthen m f s = (Panic p, s')"
  by (simp_all add: andthen_def)

lemma wrapping_simps [simp]:
  "m s = (r, s') \<Longrightarrow> wrapping fmt args m s = (wrap fmt args r, s')"
  by (simp add: wrapping_def)

lemma wrap_eq_simps [simp]:
  "wrap fmt args r = Ok a \<longleftrightarrow> r = Ok a"
  "wrap fmt args r = Panic p \<longleftrightarrow> r = Panic p"
  "wrap fmt args r = Err e \<longleftrightarrow> (\<exists>e'. r = Err e' \<and> e = ErrorfW fmt args e')"
  by (cases r; auto)+

text \<open>
  Where the order of calls to a service matters, the state carries the list of calls made so
  far, oldest first, beside the world.
\<close>

type_synonym ('e, 'w) traced = "'e list \<times> 'w"

definition call :: "'e \<Rightarrow> ('w \<Rightarrow> 'r \<times> 'w) \<Rightarrow> ('e, 'w) traced \<Rightarrow> 'r \<times> ('e, 'w) traced" where
  "call ev f s = (case f (snd s) of (r, w') \<Rightarrow> (r, (fst s @ [ev], w')))"

lemma call_eq: "call ev f (tr, w) = (fst (f w), (tr @ [ev], snd (f w)))"
  by (simp add: call_def split: prod.split)

subsection \<open>Go strings\<close>

text \<open>\<open>strings.CutPrefix\<close>: the rest and whether the prefix was there.\<close>

definition CutPrefix :: "string \<Rightarrow> string \<Rightarrow> string \<times> bool" where
  "CutPrefix s p =
     (if take (length p) s = p then (drop (length p) s, True) else (s, False))"

text \<open>
  \<open>strings.ReplaceAll\<close> with one-character arguments and \<open>strings.TrimLeft\<close> with
  a one-character cutset, the only ways the source calls them.
\<close>

definition ReplaceAll :: "char \<Rightarrow> char \<Rightarrow> string \<Rightarrow> string" where
  "ReplaceAll a b s = map (\<lambda>c. if c = a then b else c) s"

definition TrimLeft :: "char \<Rightarrow> string \<Rightarrow> string" where
  "TrimLeft a s = dropWhile (\<lambda>c. c = a) s"

text \<open>The decimal digits of \<open>%d\<close>.\<close>

definition digit_char :: "nat \<Rightarrow> char" where
  "digit_char d = char_of (48 + d)"

fun dec :: "nat \<Rightarrow> string" where
  "dec n = (if n < 10 then [digit_char n] else dec (n div 10) @ [digit_char (n mod 10)])"

declare dec.simps [simp del]

definition dec_int :: "int \<Rightarrow> string" where
  "dec_int i = (if i < 0 then ''-'' @ dec (nat (- i)) else dec (nat i))"

lemma CutPrefix_append: "CutPrefix (p @ s) p = (s, True)"
  by (simp add: CutPrefix_def)

lemma CutPrefix_True: "CutPrefix s p = (r, True) \<longleftrightarrow> s = p @ r"
  by (metis CutPrefix_append CutPrefix_def append_take_drop_id prod.inject)

lemma ReplaceAll_notin: "a \<noteq> b \<Longrightarrow> a \<notin> set (ReplaceAll a b s)"
  by (auto simp: ReplaceAll_def)

lemma TrimLeft_hd: "TrimLeft a s \<noteq> [] \<Longrightarrow> hd (TrimLeft a s) \<noteq> a"
  unfolding TrimLeft_def by (rule hd_dropWhile)

lemma set_TrimLeft: "set (TrimLeft a s) \<subseteq> set s"
  unfolding TrimLeft_def by (auto dest: set_dropWhileD)

text \<open>Reading the digits back, so that different numbers print differently.\<close>

definition digit_val :: "char \<Rightarrow> nat" where
  "digit_val c = of_char c - 48"

definition undec :: "string \<Rightarrow> nat" where
  "undec s = foldl (\<lambda>n c. 10 * n + digit_val c) 0 s"

lemma digit_val_char [simp]: "d < 10 \<Longrightarrow> digit_val (digit_char d) = d"
  by (simp add: digit_val_def digit_char_def)

lemma undec_dec [simp]: "undec (dec n) = n"
proof (induction n rule: dec.induct)
  case (1 n)
  show ?case
  proof (cases "n < 10")
    case True
    then show ?thesis by (simp add: dec.simps [of n] undec_def)
  next
    case False
    with 1 have "undec (dec (n div 10)) = n div 10" by simp
    with False show ?thesis by (simp add: dec.simps [of n] undec_def)
  qed
qed

lemma dec_inject [simp]: "dec m = dec n \<longleftrightarrow> m = n"
  by (metis undec_dec)

subsection \<open>Go maps\<close>

type_synonym ('k, 'v) gomap = "('k \<times> 'v) list"

definition gm_put :: "'k \<Rightarrow> 'v \<Rightarrow> ('k, 'v) gomap \<Rightarrow> ('k, 'v) gomap" where
  "gm_put k v m = AList.update k v m"

definition gm_delete :: "'k \<Rightarrow> ('k, 'v) gomap \<Rightarrow> ('k, 'v) gomap" where
  "gm_delete k m = AList.delete k m"

definition gm_has :: "('k, 'v) gomap \<Rightarrow> 'k \<Rightarrow> bool" where
  "gm_has m k \<longleftrightarrow> map_of m k \<noteq> None"

definition gm_wf :: "('k, 'v) gomap \<Rightarrow> bool" where
  "gm_wf m \<longleftrightarrow> distinct (map fst m)"

lemma map_of_gm_put [simp]: "map_of (gm_put k v m) = (map_of m)(k \<mapsto> v)"
  by (simp add: gm_put_def update_conv')

lemma map_of_gm_delete [simp]: "map_of (gm_delete k m) = (map_of m)(k := None)"
  by (simp add: gm_delete_def delete_conv')

lemma dom_gm_put: "dom (map_of (gm_put k v m)) = insert k (dom (map_of m))"
  by (simp only: map_of_gm_put dom_fun_upd) simp

lemma gm_wf_Nil [simp]: "gm_wf []"
  by (simp add: gm_wf_def)

lemma gm_wf_put [intro, simp]: "gm_wf m \<Longrightarrow> gm_wf (gm_put k v m)"
  by (simp add: gm_wf_def gm_put_def distinct_update)

lemma gm_wf_delete [intro, simp]: "gm_wf m \<Longrightarrow> gm_wf (gm_delete k m)"
  by (simp add: gm_wf_def gm_delete_def distinct_delete)

lemma gm_has_put [simp]: "gm_has (gm_put k v m) k' \<longleftrightarrow> k' = k \<or> gm_has m k'"
  by (simp add: gm_has_def)

lemma gm_has_iff_keys: "gm_has m k \<longleftrightarrow> k \<in> fst ` set m"
  by (simp add: gm_has_def map_of_eq_None_iff)

lemma gm_entry_iff: "gm_wf m \<Longrightarrow> (k, v) \<in> set m \<longleftrightarrow> map_of m k = Some v"
  by (simp add: gm_wf_def)

lemma set_map_snd_gm: "gm_wf m \<Longrightarrow> snd ` set m = ran (map_of m)"
  by (simp add: gm_wf_def ran_distinct)

end
