(* ===== verification/PortManager.thy ===== *)
theory PortManager
  imports Prelude
begin

section \<open>The host-port allocator (pkg/k8sgarden/port_manager.go)\<close>

text \<open>
  \<open>portManager\<close> hands out host ports from a fixed window. Its mutex makes each call
  atomic, so a call is one function on the state. The \<open>for\<close> loop of \<open>Next\<close> is
  \<open>first_free\<close>, with the source's bounds and 32-bit arithmetic. The locale
  \<open>port_source\<close> is the interface \<open>PortManager\<close> as its client
  (\<open>client.Create\<close>) relies on it.
\<close>

definition startPort :: u32 where
  "startPort = 62000"

definition MaxUint16 :: u32 where
  "MaxUint16 = 65535"

record port_manager =
  allocated :: "u32 set"

definition newPortManager :: port_manager where
  "newPortManager = \<lparr>allocated = {}\<rparr>"

definition pm_Release :: "u32 \<Rightarrow> port_manager \<Rightarrow> port_manager" where
  "pm_Release port p = p\<lparr>allocated := allocated p - {port}\<rparr>"

function first_free :: "u32 \<Rightarrow> u32 set \<Rightarrow> u32 option" where
  "first_free port used =
     (if port < MaxUint16
      then if port \<notin> used then Some port else first_free (port + 1) used
      else None)"
  by pat_completeness auto
termination
proof (relation "measure (\<lambda>(port, used). unat MaxUint16 - unat port)")
  fix port :: u32 and used :: "u32 set"
  assume "port < MaxUint16"
  then show "((port + 1, used), (port, used)) \<in> measure (\<lambda>(port, used). unat MaxUint16 - unat port)"
    by (simp add: MaxUint16_def word_less_nat_alt unat_word_ariths)
qed simp

declare first_free.simps [simp del]

definition pm_Next :: "(port_manager, u32) act" where
  "pm_Next p =
     (case first_free startPort (allocated p) of
        Some port \<Rightarrow> (Ok port, p\<lparr>allocated := insert port (allocated p)\<rparr>)
      | None \<Rightarrow> (Err (Errorf ''no available ports'' []), p))"

text \<open>The window of ports \<open>Next\<close> can hand out.\<close>

definition port_window :: "u32 set" where
  "port_window = {startPort ..< MaxUint16}"

subsection \<open>The search loop\<close>

lemma word_Suc_le_iff:
  fixes p q :: u32
  assumes "p < MaxUint16"
  shows "p + 1 \<le> q \<longleftrightarrow> p < q"
proof -
  have "unat (p + 1) = Suc (unat p)"
    using assms by (simp add: MaxUint16_def word_less_nat_alt unat_word_ariths)
  then show ?thesis by (simp add: word_le_nat_alt word_less_nat_alt Suc_le_eq)
qed

lemma insert_upto_Suc:
  fixes a w :: u32
  assumes "a \<le> w" "w < MaxUint16"
  shows "insert w {a ..< w} = {a ..< w + 1}"
proof -
  have "x < w + 1 \<longleftrightarrow> x \<le> w" for x
    using word_Suc_le_iff [OF assms(2), of x] by (simp only: flip: linorder_not_less) blast
  then have "{a ..< w + 1} = {a .. w}" by (simp add: atLeastLessThan_def atLeastAtMost_def lessThan_def atMost_def)
  then show ?thesis using ivl_disj_un_singleton(6) [of a w] assms(1) by auto
qed

lemma first_free_unfold:
  "port < MaxUint16 \<Longrightarrow> port \<notin> used \<Longrightarrow> first_free port used = Some port"
  "port < MaxUint16 \<Longrightarrow> port \<in> used \<Longrightarrow> first_free port used = first_free (port + 1) used"
  "\<not> port < MaxUint16 \<Longrightarrow> first_free port used = None"
  by (simp_all add: first_free.simps [of port used])

lemma first_free_Some:
  "first_free port used = Some q \<Longrightarrow>
     port \<le> q \<and> q < MaxUint16 \<and> q \<notin> used \<and> (\<forall>r. port \<le> r \<and> r < q \<longrightarrow> r \<in> used)"
proof (induction port used rule: first_free.induct)
  case (1 port used)
  show ?case
  proof (cases "port < MaxUint16 \<and> port \<in> used")
    case True
    then have "first_free (port + 1) used = Some q"
      using "1.prems" by (simp add: first_free_unfold)
    with "1.IH" True have "port + 1 \<le> q \<and> q < MaxUint16 \<and> q \<notin> used \<and>
        (\<forall>r. port + 1 \<le> r \<and> r < q \<longrightarrow> r \<in> used)" by blast
    with True have "port < q \<and> q < MaxUint16 \<and> q \<notin> used \<and>
        (\<forall>r. port < r \<and> r < q \<longrightarrow> r \<in> used)" by (simp add: word_Suc_le_iff)
    with True show ?thesis
      by (auto simp: le_less)
  next
    case False
    with "1.prems" have "port < MaxUint16" "port \<notin> used"
      by (cases "port < MaxUint16"; auto simp: first_free_unfold)+
    with "1.prems" show ?thesis by (auto simp: first_free_unfold)
  qed
qed

lemma first_free_None: "first_free port used = None \<longleftrightarrow> {port ..< MaxUint16} \<subseteq> used"
proof (induction port used rule: first_free.induct)
  case (1 port used)
  consider "\<not> port < MaxUint16" | "port < MaxUint16" "port \<notin> used"
    | "port < MaxUint16" "port \<in> used" by blast
  then show ?case
  proof cases
    case 3
    then have "{port ..< MaxUint16} = insert port {port + 1 ..< MaxUint16}"
      by (auto simp: word_Suc_le_iff)
    with 3 "1.IH" show ?thesis by (simp add: first_free_unfold)
  qed (auto simp: first_free_unfold)
qed

lemma first_free_is_least:
  assumes "port \<le> q" "q < MaxUint16" "q \<notin> used" "\<forall>r. port \<le> r \<and> r < q \<longrightarrow> r \<in> used"
  shows "first_free port used = Some q"
proof (cases "first_free port used")
  case None
  with assms show ?thesis by (auto simp: first_free_None)
next
  case (Some q')
  from first_free_Some [OF this] assms have "q' = q"
    by (metis linorder_less_linear)
  with Some show ?thesis by simp
qed

subsection \<open>The interface its client relies on\<close>

text \<open>
  \<open>held\<close> is the abstract state: the ports handed out and not given back. The laws are
  what \<open>Create\<close> and \<open>Destroy\<close> need: a port handed out was free, a failure
  changes nothing, and \<open>Release\<close> frees exactly its argument.
\<close>

locale port_source =
  fixes next_port :: "'s \<Rightarrow> u32 res \<times> 's"
    and release :: "u32 \<Rightarrow> 's \<Rightarrow> 's"
    and held :: "'s \<Rightarrow> u32 set"
  assumes next_fresh: "next_port s = (Ok p, s') \<Longrightarrow> p \<notin> held s \<and> held s' = insert p (held s)"
    and next_fail: "next_port s = (Err e, s') \<Longrightarrow> held s' = held s"
    and next_no_panic: "next_port s \<noteq> (Panic m, s')"
    and held_release: "held (release p s) = held s - {p}"
begin

lemma held_release_fold: "held (fold release ps s) = held s - set ps"
  by (induction ps arbitrary: s) (auto simp: held_release)

lemma next_cases:
  obtains p s' where "next_port s = (Ok p, s')" "p \<notin> held s" "held s' = insert p (held s)"
  | e s' where "next_port s = (Err e, s')" "held s' = held s"
proof (cases "next_port s")
  case (Pair r s')
  then show thesis
    using that next_fresh [of s _ s'] next_fail [of s _ s'] next_no_panic [of s _ s']
    by (cases r) auto
qed

lemma next_held_mono: "held s \<subseteq> held (snd (next_port s))"
  by (rule next_cases [of s]) auto

end

text \<open>A source whose ports come from a fixed window, and fails only when it is used up.\<close>

locale windowed_port_source = port_source +
  fixes window :: "u32 set"
  assumes next_window: "next_port s = (Ok p, s') \<Longrightarrow> p \<in> window"
    and next_exhausted: "next_port s = (Err e, s') \<Longrightarrow> window \<subseteq> held s"
begin

lemma next_Ok_iff: "(\<exists>p s'. next_port s = (Ok p, s')) \<longleftrightarrow> \<not> window \<subseteq> held s"
proof (rule next_cases [of s])
  fix p s' assume *: "next_port s = (Ok p, s')" "p \<notin> held s"
  then have "p \<in> window" by (blast intro: next_window)
  with * show ?thesis by auto
next
  fix e s' assume *: "next_port s = (Err e, s')"
  then have "window \<subseteq> held s" by (rule next_exhausted)
  with * show ?thesis by simp
qed

end

interpretation pm: windowed_port_source pm_Next pm_Release allocated port_window
proof unfold_locales
  fix p s s'
  show "pm_Next s = (Ok p, s') \<Longrightarrow> p \<notin> allocated s \<and> allocated s' = insert p (allocated s)"
    by (auto simp: pm_Next_def dest: first_free_Some split: option.splits)
  show "pm_Next s = (Ok p, s') \<Longrightarrow> p \<in> port_window"
    by (auto simp: pm_Next_def port_window_def dest: first_free_Some split: option.splits)
  show "allocated (pm_Release p s) = allocated s - {p}"
    by (simp add: pm_Release_def)
next
  fix e s s'
  show "pm_Next s = (Err e, s') \<Longrightarrow> allocated s' = allocated s"
    by (auto simp: pm_Next_def split: option.splits)
  show "pm_Next s = (Err e, s') \<Longrightarrow> port_window \<subseteq> allocated s"
    by (auto simp: pm_Next_def port_window_def first_free_None split: option.splits)
next
  fix m s s'
  show "pm_Next s \<noteq> (Panic m, s')"
    by (auto simp: pm_Next_def split: option.splits)
qed

subsection \<open>The allocator as a whole\<close>

lemma pm_Next_eq:
  "pm_Next p = (Ok q, p') \<longleftrightarrow>
     q \<in> port_window \<and> q \<notin> allocated p \<and>
     (\<forall>r \<in> port_window. r < q \<longrightarrow> r \<in> allocated p) \<and>
     p' = p\<lparr>allocated := insert q (allocated p)\<rparr>"
proof
  assume *: "pm_Next p = (Ok q, p')"
  then have "first_free startPort (allocated p) = Some q"
    by (auto simp: pm_Next_def split: option.splits)
  from first_free_Some [OF this] * show
    "q \<in> port_window \<and> q \<notin> allocated p \<and> (\<forall>r \<in> port_window. r < q \<longrightarrow> r \<in> allocated p) \<and>
     p' = p\<lparr>allocated := insert q (allocated p)\<rparr>"
    by (auto simp: pm_Next_def port_window_def split: option.splits)
next
  assume *: "q \<in> port_window \<and> q \<notin> allocated p \<and> (\<forall>r \<in> port_window. r < q \<longrightarrow> r \<in> allocated p) \<and>
     p' = p\<lparr>allocated := insert q (allocated p)\<rparr>"
  then have "first_free startPort (allocated p) = Some q"
    by (intro first_free_is_least) (auto simp: port_window_def)
  with * show "pm_Next p = (Ok q, p')" by (simp add: pm_Next_def)
qed

lemma unat_image_window: "unat ` {a ..< b :: u32} = {unat a ..< unat b}"
proof
  show "unat ` {a ..< b} \<subseteq> {unat a ..< unat b}"
    by (auto simp: word_le_nat_alt word_less_nat_alt)
  show "{unat a ..< unat b} \<subseteq> unat ` {a ..< b}"
  proof
    fix n assume n: "n \<in> {unat a ..< unat b}"
    have "unat b < 2 ^ LENGTH(32)" by (rule unsigned_less)
    with n have "unat (of_nat n :: u32) = n" by (simp add: unat_of_nat)
    with n show "n \<in> unat ` {a ..< b}"
      by (intro image_eqI [of _ _ "of_nat n"]) (auto simp: word_le_nat_alt word_less_nat_alt)
  qed
qed

lemma card_port_window: "card port_window = 3535"
proof -
  have "card (unat ` port_window) = card port_window"
    by (rule card_image) (simp add: inj_on_def word_unat_eq_iff)
  then show ?thesis
    by (simp add: port_window_def unat_image_window startPort_def MaxUint16_def)
qed

lemma finite_port_window [simp]: "finite port_window"
  by (rule finite_subset [OF subset_UNIV]) simp

text \<open>\<open>n\<close> calls of \<open>Next\<close> in a row, with what they returned.\<close>

primrec next_many :: "nat \<Rightarrow> port_manager \<Rightarrow> u32 res list \<times> port_manager" where
  "next_many 0 p = ([], p)"
| "next_many (Suc n) p =
     (let (r, p') = pm_Next p; (rs, p'') = next_many n p' in (r # rs, p''))"

lemma unat_window_index: "k \<le> 3535 \<Longrightarrow> unat (startPort + of_nat k) = 62000 + k"
  by (simp add: startPort_def unat_word_ariths unat_of_nat)

lemma pm_Next_prefix:
  assumes "k < 3535" and "allocated p = {startPort ..< startPort + of_nat k}"
  shows "pm_Next p = (Ok (startPort + of_nat k),
           p\<lparr>allocated := {startPort ..< startPort + of_nat (Suc k)}\<rparr>)"
proof -
  have lt: "startPort + of_nat k < MaxUint16"
    using assms(1) by (simp add: word_less_nat_alt unat_window_index MaxUint16_def)
  have le: "startPort \<le> startPort + of_nat k"
    using assms(1) by (simp add: word_le_nat_alt unat_window_index) (simp add: startPort_def)
  have "insert (startPort + of_nat k) {startPort ..< startPort + of_nat k} =
      {startPort ..< startPort + of_nat (Suc k)}"
    using insert_upto_Suc [OF le lt] by (simp add: ac_simps)
  with lt le assms(2) show ?thesis
    by (auto simp: pm_Next_eq port_window_def)
qed

lemma next_many_prefix:
  "k + n \<le> 3535 \<Longrightarrow> allocated p = {startPort ..< startPort + of_nat k} \<Longrightarrow>
   next_many n p =
     (map (\<lambda>i. Ok (startPort + of_nat i)) [k ..< k + n],
      p\<lparr>allocated := {startPort ..< startPort + of_nat (k + n)}\<rparr>)"
proof (induction n arbitrary: k p)
  case 0
  then show ?case by simp
next
  case (Suc n)
  then have next_k: "pm_Next p = (Ok (startPort + of_nat k),
      p\<lparr>allocated := {startPort ..< startPort + of_nat (Suc k)}\<rparr>)"
    by (intro pm_Next_prefix) simp_all
  have "[k ..< k + Suc n] = k # [Suc k ..< Suc k + n]"
    by (simp add: upt_conv_Cons)
  with Suc.prems next_k Suc.IH [of "Suc k" "p\<lparr>allocated := {startPort ..< startPort + of_nat (Suc k)}\<rparr>"]
  show ?case by simp
qed

subsection \<open>Properties\<close>

text \<open>C34: \<open>Next\<close> hands out the lowest port of the window 62000 to 65534 that is not
  allocated and records it; when the whole window is allocated it fails and changes nothing.\<close>

theorem next_is_lowest_free:
  "pm_Next p =
     (if port_window \<subseteq> allocated p then (Err (Errorf ''no available ports'' []), p)
      else (Ok (Min (port_window - allocated p)),
            p\<lparr>allocated := insert (Min (port_window - allocated p)) (allocated p)\<rparr>))"
proof (cases "port_window \<subseteq> allocated p")
  case True
  then have "first_free startPort (allocated p) = None"
    by (simp add: first_free_None port_window_def)
  with True show ?thesis by (simp add: pm_Next_def)
next
  case False
  let ?free = "port_window - allocated p"
  have "finite ?free" "?free \<noteq> {}" using False by auto
  then have "Min ?free \<in> ?free" "\<forall>r \<in> port_window. r < Min ?free \<longrightarrow> r \<in> allocated p"
    by (rule Min_in, meson DiffI Min_le \<open>finite ?free\<close> linorder_not_less)
  then have "pm_Next p = (Ok (Min ?free), p\<lparr>allocated := insert (Min ?free) (allocated p)\<rparr>)"
    unfolding pm_Next_eq by blast
  with False show ?thesis by simp
qed

text \<open>From a new manager exactly 3535 calls of \<open>Next\<close> succeed, with the ports of the
  window in ascending order, and the next call fails.\<close>

theorem window_is_used_up:
  "next_many 3536 newPortManager =
     (map (\<lambda>i. Ok (startPort + of_nat i)) [0 ..< 3535] @ [Err (Errorf ''no available ports'' [])],
      \<lparr>allocated = port_window\<rparr>)"
proof -
  have split: "next_many (m + n) p =
      (fst (next_many m p) @ fst (next_many n (snd (next_many m p))), snd (next_many n (snd (next_many m p))))"
    for m n p
    by (induction m arbitrary: p) (auto simp: Let_def split: prod.split)
  have "startPort + of_nat 3535 = MaxUint16" by (simp add: startPort_def MaxUint16_def)
  then have "next_many 3535 newPortManager =
      (map (\<lambda>i. Ok (startPort + of_nat i)) [0 ..< 3535], \<lparr>allocated = port_window\<rparr>)"
    using next_many_prefix [of 0 3535 newPortManager]
    by (simp add: newPortManager_def port_window_def)
  moreover have "pm_Next \<lparr>allocated = port_window\<rparr> =
      (Err (Errorf ''no available ports'' []), \<lparr>allocated = port_window\<rparr>)"
    by (simp add: pm_Next_def first_free_None port_window_def split: option.split)
  ultimately show ?thesis using split [of 3535 1 newPortManager] by simp
qed

text \<open>A port given back by \<open>Release\<close> when the window is used up is the one the next
  call hands out, and the manager is then as before.\<close>

theorem released_port_is_reused:
  assumes "port_window \<subseteq> allocated s" and "p \<in> port_window"
  shows "pm_Next (pm_Release p s) = (Ok p, s)"
  using assms by (auto simp: pm_Next_eq pm_Release_def insert_absorb)

theorem released_port_is_reused_witness:
  "pm_Next (pm_Release 62007 \<lparr>allocated = port_window\<rparr>) = (Ok 62007, \<lparr>allocated = port_window\<rparr>)"
  by (rule released_port_is_reused) (simp_all add: port_window_def startPort_def MaxUint16_def)

end
