(* ===== verification/ContainerMap.thy ===== *)
theory ContainerMap
  imports Prelude
begin

section \<open>The registry of containers (pkg/k8sgarden/container_map.go)\<close>

text \<open>
  \<open>containerMap\<close> maps a handle to the container object. Its lock makes every method
  atomic. The Go map is a \<open>gomap\<close>; \<open>List\<close> walks it in the map's order. The map
  holds pointers, so a write through one (\<open>container.taskMap = ...\<close> in \<open>Create\<close>)
  is an update of the entry, \<open>cm_modify\<close>. The locale \<open>container_registry\<close> is the
  abstract registry the client relies on, a partial map from handles.
\<close>

record 'c container_map =
  containers :: "(string, 'c) gomap"

definition newContainerMap :: "'c container_map" where
  "newContainerMap = \<lparr>containers = []\<rparr>"

definition handle_in_use :: "string \<Rightarrow> goerr" where
  "handle_in_use handle = Errorf ''Handle '%s' already in use'' [handle]"

definition cm_Add :: "string \<Rightarrow> 'c \<Rightarrow> 'c container_map \<Rightarrow> goerr option \<times> 'c container_map" where
  "cm_Add handle cntr n =
     (if gm_has (containers n) handle then (Some (handle_in_use handle), n)
      else (None, n\<lparr>containers := gm_put handle cntr (containers n)\<rparr>))"

definition cm_Remove :: "string \<Rightarrow> 'c container_map \<Rightarrow> 'c container_map" where
  "cm_Remove handle n =
     (if \<not> gm_has (containers n) handle then n
      else n\<lparr>containers := gm_delete handle (containers n)\<rparr>)"

definition cm_Get :: "string \<Rightarrow> 'c container_map \<Rightarrow> 'c res" where
  "cm_Get handle n =
     (case map_of (containers n) handle of
        None \<Rightarrow> Err (ContainerNotFoundError handle)
      | Some cntr \<Rightarrow> Ok cntr)"

definition cm_List :: "'c container_map \<Rightarrow> 'c list" where
  "cm_List n = map snd (containers n)"

definition cm_Exists :: "string \<Rightarrow> 'c container_map \<Rightarrow> bool" where
  "cm_Exists handle n = gm_has (containers n) handle"

text \<open>A write through the pointer stored under a handle; no entry, no visible write.\<close>

definition cm_modify :: "string \<Rightarrow> ('c \<Rightarrow> 'c) \<Rightarrow> 'c container_map \<Rightarrow> 'c container_map" where
  "cm_modify handle f n =
     n\<lparr>containers := map (\<lambda>(h, c). (h, if h = handle then f c else c)) (containers n)\<rparr>"

definition cm_view :: "'c container_map \<Rightarrow> string \<rightharpoonup> 'c" where
  "cm_view n = map_of (containers n)"

definition cm_wf :: "'c container_map \<Rightarrow> bool" where
  "cm_wf n \<longleftrightarrow> gm_wf (containers n)"

subsection \<open>The abstract registry\<close>

locale container_registry =
  fixes empty :: "'m"
    and add :: "string \<Rightarrow> 'c \<Rightarrow> 'm \<Rightarrow> goerr option \<times> 'm"
    and remove :: "string \<Rightarrow> 'm \<Rightarrow> 'm"
    and get :: "string \<Rightarrow> 'm \<Rightarrow> 'c res"
    and list_all_of :: "'m \<Rightarrow> 'c list"
    and exists :: "string \<Rightarrow> 'm \<Rightarrow> bool"
    and modify :: "string \<Rightarrow> ('c \<Rightarrow> 'c) \<Rightarrow> 'm \<Rightarrow> 'm"
    and view :: "'m \<Rightarrow> string \<rightharpoonup> 'c"
    and wf :: "'m \<Rightarrow> bool"
  assumes view_empty: "view empty = Map.empty"
    and wf_empty: "wf empty"
    and add_fresh: "view m h = None \<Longrightarrow> add h c m = (None, snd (add h c m)) \<and>
      view (snd (add h c m)) = (view m)(h \<mapsto> c)"
    and add_taken: "view m h = Some c' \<Longrightarrow> add h c m = (Some (handle_in_use h), m)"
    and wf_add: "wf m \<Longrightarrow> wf (snd (add h c m))"
    and view_remove: "view (remove h m) = (view m)(h := None)"
    and wf_remove: "wf m \<Longrightarrow> wf (remove h m)"
    and get_eq: "get h m = (case view m h of None \<Rightarrow> Err (ContainerNotFoundError h) | Some c \<Rightarrow> Ok c)"
    and exists_eq: "exists h m \<longleftrightarrow> view m h \<noteq> None"
    and set_list: "wf m \<Longrightarrow> set (list_all_of m) = ran (view m)"
    and length_list: "wf m \<Longrightarrow> length (list_all_of m) = card (dom (view m))"
    and view_modify: "view (modify h f m) = (view m)(h := map_option f (view m h))"
    and wf_modify: "wf m \<Longrightarrow> wf (modify h f m)"
begin

lemma get_Ok_iff: "get h m = Ok c \<longleftrightarrow> view m h = Some c"
  by (simp add: get_eq split: option.split)

lemma get_Err_iff: "get h m = Err e \<longleftrightarrow> view m h = None \<and> e = ContainerNotFoundError h"
  by (auto simp: get_eq split: option.split)

lemma add_cases:
  obtains m' where "view m h = None" "add h c m = (None, m')" "view m' = (view m)(h \<mapsto> c)"
  | c' where "view m h = Some c'" "add h c m = (Some (handle_in_use h), m)"
  using add_fresh [of m h c] add_taken [of m h _ c]
  by (cases "view m h") (auto elim: that)

lemma add_remove_view: "view m h = None \<Longrightarrow> view (remove h (snd (add h c m))) = view m"
  using add_fresh [of m h c] by (auto simp: view_remove)

lemma add_then_get: "view m h = None \<Longrightarrow> get h (snd (add h c m)) = Ok c"
  using add_fresh [of m h c] by (simp add: get_Ok_iff)

end

lemma map_of_map_entry:
  "map_of (map (\<lambda>(h, c). (h, if h = k then f c else c)) m) = (map_of m)(k := map_option f (map_of m k))"
  by (induction m) (auto simp: fun_eq_iff)

interpretation cm: container_registry
  newContainerMap cm_Add cm_Remove cm_Get cm_List cm_Exists cm_modify cm_view cm_wf
proof unfold_locales
  fix m :: "'c container_map" and h f
  show "cm_wf m \<Longrightarrow> set (cm_List m) = ran (cm_view m)"
    by (simp add: cm_wf_def cm_List_def cm_view_def set_map_snd_gm)
  show "cm_wf m \<Longrightarrow> length (cm_List m) = card (dom (cm_view m))"
    using distinct_card [of "map fst (containers m)"]
    by (simp add: cm_wf_def cm_List_def cm_view_def gm_wf_def dom_map_of_conv_image_fst)
  have "map fst (map (\<lambda>(h', c). (h', if h' = h then f c else c)) (containers m)) =
      map fst (containers m)" by (induction "containers m") auto
  then show "cm_wf m \<Longrightarrow> cm_wf (cm_modify h f m)"
    by (simp add: cm_wf_def cm_modify_def gm_wf_def del: map_map)
qed (auto simp: newContainerMap_def cm_Add_def cm_Remove_def cm_Get_def cm_Exists_def
    cm_modify_def cm_view_def cm_wf_def gm_has_def map_of_map_entry fun_upd_idem split: option.split)

end
