(* ===== verification/Float64.thy ===== *)
theory Float64
  imports Prelude "HOL-Library.Log_Nat"
begin

section \<open>Go's float64\<close>

text \<open>
  IEEE 754 binary64 arithmetic as Go uses it in \<open>cpuQuantity\<close> and in the metrics: every
  operation is the exact rational result rounded to the nearest representable number, ties
  to even, with gradual underflow and overflow to infinity. The source never makes a negative
  zero, so there is one zero. A conversion to an integer type truncates; Go leaves the result
  open where the value does not fit, which is the parameter \<open>oor\<close>.
\<close>

datatype f64 = Fin rat | PInf | NInf | NaN

definition round_half_even :: "rat \<Rightarrow> int" where
  "round_half_even x =
     (let f = \<lfloor>x\<rfloor>; d = x - of_int f
      in if d < 1 / 2 then f else if 1 / 2 < d then f + 1 else if even f then f else f + 1)"

text \<open>The exponent of the binade of a positive number.\<close>

definition binade :: "rat \<Rightarrow> int" where
  "binade x =
     (let (p, q) = quotient_of x; k = bitlen p - bitlen q
      in if 2 powi k \<le> x then k else k - 1)"

definition f64_round :: "rat \<Rightarrow> f64" where
  "f64_round x =
     (if x = 0 then Fin 0
      else let e = max (binade \<bar>x\<bar>) (- 1022) - 52;
               y = of_int (round_half_even (x / 2 powi e)) * 2 powi e
           in if \<bar>y\<bar> < 2 ^ 1024 then Fin y else if 0 < x then PInf else NInf)"

definition f64_of_int :: "int \<Rightarrow> f64" where
  "f64_of_int n = f64_round (of_int n)"

fun f64_neg_inf :: "f64 \<Rightarrow> f64" where
  "f64_neg_inf PInf = NInf"
| "f64_neg_inf NInf = PInf"
| "f64_neg_inf x = x"

fun f64_mult :: "f64 \<Rightarrow> f64 \<Rightarrow> f64" where
  "f64_mult (Fin a) (Fin b) = f64_round (a * b)"
| "f64_mult NaN y = NaN"
| "f64_mult x NaN = NaN"
| "f64_mult (Fin a) y = (if a = 0 then NaN else if 0 < a then y else f64_neg_inf y)"
| "f64_mult x (Fin b) = (if b = 0 then NaN else if 0 < b then x else f64_neg_inf x)"
| "f64_mult x PInf = x"
| "f64_mult x NInf = f64_neg_inf x"

fun f64_div :: "f64 \<Rightarrow> f64 \<Rightarrow> f64" where
  "f64_div (Fin a) (Fin b) =
     (if b \<noteq> 0 then f64_round (a / b)
      else if a = 0 then NaN else if 0 < a then PInf else NInf)"
| "f64_div NaN y = NaN"
| "f64_div x NaN = NaN"
| "f64_div (Fin a) y = Fin 0"
| "f64_div x (Fin b) = (if b < 0 then f64_neg_inf x else x)"
| "f64_div x y = NaN"

fun f64_trunc :: "f64 \<Rightarrow> int option" where
  "f64_trunc (Fin r) = Some (if 0 \<le> r then \<lfloor>r\<rfloor> else \<lceil>r\<rceil>)"
| "f64_trunc _ = None"

text \<open>\<open>int(x)\<close> and \<open>uint64(x)\<close>.\<close>

definition f64_to_i64 :: "(f64 \<Rightarrow> i64) \<Rightarrow> f64 \<Rightarrow> i64" where
  "f64_to_i64 oor x =
     (case f64_trunc x of
        Some n \<Rightarrow> if - (2 ^ 63) \<le> n \<and> n < 2 ^ 63 then word_of_int n else oor x
      | None \<Rightarrow> oor x)"

definition f64_to_u64 :: "(f64 \<Rightarrow> u64) \<Rightarrow> f64 \<Rightarrow> u64" where
  "f64_to_u64 oor x =
     (case f64_trunc x of
        Some n \<Rightarrow> if 0 \<le> n \<and> n < 2 ^ 64 then word_of_int n else oor x
      | None \<Rightarrow> oor x)"

subsection \<open>Rounding\<close>

lemma round_half_even_error: "\<bar>of_int (round_half_even x) - x\<bar> \<le> 1 / 2"
proof -
  have "of_int \<lfloor>x\<rfloor> \<le> x" "x < of_int \<lfloor>x\<rfloor> + 1"
    by (rule of_int_floor_le, rule real_of_int_floor_add_one_gt | linarith)+
  then show ?thesis
    unfolding round_half_even_def Let_def by (auto simp: abs_le_iff)
qed

lemma round_half_even_int [simp]: "round_half_even (of_int n) = n"
  by (simp add: round_half_even_def)

lemma powi2_diff: "(2 :: rat) powi (int a - int b) = 2 ^ a / 2 ^ b"
  by (simp add: power_int_diff)

lemma powi2_pos [simp]: "0 < (2 :: rat) powi e"
  by (simp add: zero_less_power_int)

lemma powi2_le_iff: "(2 :: rat) powi a \<le> 2 powi b \<longleftrightarrow> a \<le> b"
proof
  show "a \<le> b" if "(2 :: rat) powi a \<le> 2 powi b"
    using that power_int_strict_increasing [of b a "2 :: rat"] by fastforce
qed (rule power_int_increasing, simp_all)

lemma powi2_less_iff: "(2 :: rat) powi a < 2 powi b \<longleftrightarrow> a < b"
  using powi2_le_iff [of b a] by linarith

lemma powi2_add: "(2 :: rat) powi (a + b) = 2 powi a * 2 powi b"
  by (simp add: power_int_add)

lemma powi2_minus: "(2 :: rat) powi (a - b) = 2 powi a / 2 powi b"
  by (simp add: power_int_diff)

lemma bitlen_rat_bounds:
  assumes "0 < p"
  obtains a where "bitlen p = int a + 1" "(2::rat) ^ a \<le> of_int p" "of_int p < (2::rat) ^ (a + 1)"
proof -
  have "bitlen p \<noteq> 0" "0 \<le> bitlen p"
    using assms by (auto simp: bitlen_eq_zero_iff bitlen_nonneg)
  then obtain a where a: "bitlen p = int a + 1"
    by (metis add.commute add_diff_cancel_left' int_nat_eq linorder_neqE_linordered_idom not_less zle_diff1_eq diff_add_cancel)
  have "2 ^ a \<le> p" "p < 2 ^ (a + 1)"
    using bitlen_bounds [OF assms] by (simp_all add: a nat_add_distrib)
  then have "(of_int (2 ^ a) :: rat) \<le> of_int p" "(of_int p :: rat) < of_int (2 ^ (a + 1))"
    by (simp_all only: of_int_le_iff of_int_less_iff)
  with a show thesis by (intro that [of a]) simp_all
qed

lemma binade_bounds:
  assumes "0 < x"
  shows "2 powi binade x \<le> x \<and> x < 2 powi (binade x + 1)"
proof -
  obtain p q where pq: "quotient_of x = (p, q)" by (cases "quotient_of x")
  have q: "0 < q" using quotient_of_denom_pos [OF pq] .
  have x: "x = of_int p / of_int q" using quotient_of_div [OF pq] .
  have p: "0 < p" using assms q by (simp add: x zero_less_divide_iff)
  obtain a where a: "bitlen p = int a + 1" "(2::rat) ^ a \<le> of_int p" "of_int p < (2::rat) ^ (a + 1)"
    using bitlen_rat_bounds [OF p] .
  obtain b where b: "bitlen q = int b + 1" "(2::rat) ^ b \<le> of_int q" "of_int q < (2::rat) ^ (b + 1)"
    using bitlen_rat_bounds [OF q] .
  have hi: "x < 2 powi (int a - int b + 1)"
  proof -
    have "x < 2 ^ (a + 1) / 2 ^ b"
      unfolding x using a b q p by (intro frac_less) auto
    then show ?thesis by (simp add: powi2_add powi2_diff mult.commute)
  qed
  have lo: "2 powi (int a - int b - 1) \<le> x"
  proof -
    have "2 ^ a / 2 ^ (b + 1) \<le> x"
      unfolding x using a b q p by (intro frac_le) auto
    then show ?thesis by (simp add: powi2_minus powi2_diff)
  qed
  have "binade x = (if 2 powi (int a - int b) \<le> x then int a - int b else int a - int b - 1)"
    by (simp add: binade_def pq Let_def a b)
  then show ?thesis using hi lo by (auto split: if_splits)
qed

lemma f64_round_step_error:
  fixes x :: rat
  shows "\<bar>of_int (round_half_even (x / 2 powi e)) * 2 powi e - x\<bar> \<le> 2 powi (e - 1)"
proof -
  have "of_int (round_half_even (x / 2 powi e)) * 2 powi e - x =
      (of_int (round_half_even (x / 2 powi e)) - x / 2 powi e) * 2 powi e"
    by (simp add: left_diff_distrib)
  then have "\<bar>of_int (round_half_even (x / 2 powi e)) * 2 powi e - x\<bar> =
      \<bar>of_int (round_half_even (x / 2 powi e)) - x / 2 powi e\<bar> * 2 powi e"
    by (simp add: abs_mult)
  also have "\<dots> \<le> 1 / 2 * 2 powi e"
    by (intro mult_right_mono round_half_even_error) simp
  finally show ?thesis by (simp add: powi2_minus)
qed

text \<open>One rounding in the normal range costs at most half a unit in the last place.\<close>

lemma f64_round_error:
  assumes "2 powi (- 1022) \<le> \<bar>x\<bar>" and "\<bar>x\<bar> < 2 ^ 1023"
  obtains y :: rat where "f64_round x = Fin y" and "\<bar>y - x\<bar> \<le> \<bar>x\<bar> * 2 powi (- 53)"
proof -
  have x0: "x \<noteq> 0" using assms(1) powi2_pos [of "-1022"] by auto
  have b: "2 powi binade \<bar>x\<bar> \<le> \<bar>x\<bar>" "\<bar>x\<bar> < 2 powi (binade \<bar>x\<bar> + 1)"
    using binade_bounds [of "\<bar>x\<bar>"] x0 by auto
  have "(2::rat) powi (- 1022) < 2 powi (binade \<bar>x\<bar> + 1)"
    using assms(1) b(2) by (rule le_less_trans)
  then have norm: "- 1022 \<le> binade \<bar>x\<bar>" unfolding powi2_less_iff by simp
  define e where "e = binade \<bar>x\<bar> - 52"
  define y :: rat where "y = of_int (round_half_even (x / 2 powi e)) * 2 powi e"
  have err: "\<bar>y - x\<bar> \<le> \<bar>x\<bar> * 2 powi (- 53)"
  proof -
    have "\<bar>y - x\<bar> \<le> 2 powi (binade \<bar>x\<bar> + (- 53))"
      using f64_round_step_error [of x e] by (simp add: y_def e_def)
    also have "\<dots> \<le> \<bar>x\<bar> * 2 powi (- 53)"
      unfolding powi2_add using b(1) by (intro mult_right_mono) simp_all
    finally show ?thesis .
  qed
  have "\<bar>x\<bar> * 2 powi (- 53) \<le> \<bar>x\<bar> * 1"
    by (intro mult_left_mono) (simp_all add: power_int_minus_one_minus power_int_minus)
  with err have "\<bar>y\<bar> \<le> 2 * \<bar>x\<bar>" by linarith
  also have "\<dots> < 2 ^ 1024" using assms(2) by simp
  finally have "f64_round x = Fin y"
    using x0 norm by (simp add: f64_round_def Let_def y_def e_def max_def)
  with err show thesis by (rule that [rotated])
qed

text \<open>What already is a float is left alone.\<close>

lemma f64_round_exact:
  assumes "\<bar>m\<bar> < 2 ^ 53" and "- 1074 \<le> k" and "k \<le> 900"
  shows "f64_round (of_int m * 2 powi k) = Fin (of_int m * 2 powi k)"
proof (cases "m = 0")
  case True
  then show ?thesis by (simp add: f64_round_def)
next
  case False
  define x :: rat where "x = of_int m * 2 powi k"
  define e where "e = max (binade \<bar>x\<bar>) (- 1022) - 52"
  have absx: "\<bar>x\<bar> = of_int \<bar>m\<bar> * 2 powi k" by (simp add: x_def abs_mult)
  have m_lt: "(of_int \<bar>m\<bar> :: rat) < 2 powi 53"
    using assms(1) of_int_less_iff [of "\<bar>m\<bar>" "2 ^ 53", where ?'a = rat]
    by (simp del: of_int_less_iff add: power_int_numeral)
  have x_lt: "\<bar>x\<bar> < 2 powi (53 + k)"
    unfolding absx powi2_add using m_lt by (intro mult_strict_right_mono) simp_all
  have "2 powi binade \<bar>x\<bar> \<le> \<bar>x\<bar>"
    using binade_bounds [of "\<bar>x\<bar>"] False by (simp add: x_def)
  then have "(2::rat) powi binade \<bar>x\<bar> < 2 powi (53 + k)" using x_lt by (rule le_less_trans)
  then have ek: "e \<le> k" unfolding powi2_less_iff using assms(2) by (simp add: e_def)
  have "x / 2 powi e = of_int m * 2 powi (k - e)"
    by (simp add: x_def powi2_minus)
  also have "\<dots> = of_int (m * 2 ^ nat (k - e))"
    using ek by (simp add: power_int_nonneg_exp)
  finally have "of_int (round_half_even (x / 2 powi e)) * 2 powi e = x"
    by (metis divide_eq_eq powi2_pos round_half_even_int order_less_irrefl)
  moreover have "\<bar>x\<bar> < 2 ^ 1024"
  proof -
    have "(2::rat) powi (53 + k) \<le> 2 powi 1024"
      unfolding powi2_le_iff using assms(3) by simp
    with x_lt show ?thesis by (simp add: power_int_numeral)
  qed
  moreover have "x \<noteq> 0" using False by (simp add: x_def)
  ultimately show ?thesis
    by (simp add: f64_round_def Let_def e_def x_def)
qed

lemma f64_of_int_exact: "\<bar>n\<bar> < 2 ^ 53 \<Longrightarrow> f64_of_int n = Fin (of_int n)"
  using f64_round_exact [of n 0] by (simp add: f64_of_int_def)

end
