(* ===== verification/Garden.thy ===== *)
theory Garden
  imports Prelude Float64
begin

section \<open>The data the components exchange, and the services they call\<close>

text \<open>
  The types of the garden API and of the Kubernetes API, with the fields the source reads or
  writes, and the operations of every service outside the repository as records of functions:
  the API server (\<open>k8s_api\<close>), the clock behind contexts and timers (\<open>go_clock\<close>), the
  property manager of guardian (\<open>property_ops\<close>). A call takes the state \<open>'w\<close> of the
  outside world and returns its result with the new one, so one model covers every behaviour of
  those services, ordered failures and changes over time included.
\<close>

subsection \<open>garden\<close>

record net_in =
  ni_HostPort :: u32
  ni_ContainerPort :: u32

datatype bind_mount_mode = BindMountModeRO | BindMountModeRW

record bind_mount =
  bm_SrcPath :: string
  bm_DstPath :: string
  bm_Mode :: bind_mount_mode

record image_ref =
  ref_URI :: string
  ref_Username :: string
  ref_Password :: string

type_synonym garden_properties = "(string, string) gomap"

record container_spec =
  spec_Handle :: string
  spec_Image :: image_ref
  spec_Properties :: garden_properties
  spec_Env :: "string list"
  spec_NetIn :: "net_in list"
  spec_BindMounts :: "bind_mount list"
  spec_MemLimitInBytes :: u64
  spec_DiskByteHard :: u64

subsection \<open>Kubernetes objects\<close>

record container_port =
  cp_ContainerPort :: i32
  cp_HostPort :: i32
  cp_Protocol :: string

record volume_mount =
  vm_Name :: string
  vm_MountPath :: string
  vm_ReadOnly :: bool

datatype volume_source = EmptyDir | HostPath string | ConfigMapRef string

record volume =
  vol_Name :: string
  vol_Source :: volume_source

datatype quantity = MilliCPU int | BinarySI int | DecimalSI int

record pod_container =
  pc_Name :: string
  pc_Image :: string
  pc_ImagePullPolicy :: string
  pc_Ports :: "container_port list"
  pc_Command :: "string list"
  pc_VolumeMounts :: "volume_mount list"
  pc_EphemeralStorageLimit :: "quantity option"

record container_status =
  cs_Name :: string
  cs_ContainerID :: string

record pod =
  pod_Name :: string
  pod_Namespace :: string
  pod_Labels :: "(string, string) gomap"
  pod_AutomountServiceAccountToken :: "bool option"
  pod_EnableServiceLinks :: "bool option"
  pod_NodeName :: string
  pod_TerminationGracePeriodSeconds :: "i64 option"
  pod_HostUsers :: "bool option"
  pod_RestartPolicy :: string
  pod_CPURequest :: "quantity option"
  pod_MemoryLimit :: "quantity option"
  pod_Volumes :: "volume list"
  pod_Containers :: "pod_container list"
  pod_Phase :: string
  pod_HostIP :: string
  pod_PodIP :: string
  pod_ContainerStatuses :: "container_status list"

definition empty_pod :: pod where
  "empty_pod = \<lparr>pod_Name = [], pod_Namespace = [], pod_Labels = [],
     pod_AutomountServiceAccountToken = None, pod_EnableServiceLinks = None, pod_NodeName = [],
     pod_TerminationGracePeriodSeconds = None, pod_HostUsers = None, pod_RestartPolicy = [],
     pod_CPURequest = None, pod_MemoryLimit = None, pod_Volumes = [], pod_Containers = [],
     pod_Phase = [], pod_HostIP = [], pod_PodIP = [], pod_ContainerStatuses = []\<rparr>"

text \<open>
  The resource figures of a node: what \<open>AsInt64\<close> returns for the capacities of CPU and
  memory (the value, and whether it was exact), and \<open>Value\<close> of the others.
\<close>

record node =
  node_Name :: string
  node_CapacityCPU_AsInt64 :: "i64 \<times> bool"
  node_CapacityMemory_AsInt64 :: "i64 \<times> bool"
  node_AllocatableMemory :: i64
  node_CapacityEphemeralStorage :: i64
  node_AllocatableEphemeralStorage :: i64
  node_CapacityPods :: i64

text \<open>The host ports a pod claims, over all its containers.\<close>

definition pod_ports :: "pod \<Rightarrow> container_port list" where
  "pod_ports p = concat (map pc_Ports (pod_Containers p))"

definition pod_host_ports :: "pod \<Rightarrow> u32 list" where
  "pod_host_ports p = map cp_HostPort (pod_ports p)"

subsection \<open>Contexts and time\<close>

text \<open>
  A context is the background or has a deadline in milliseconds. \<open>clk_select\<close> is
  \<open>select\<close> over \<open>ctx.Done()\<close> and \<open>time.After(d)\<close>, true when the first case is taken.
\<close>

datatype ctx = Background | Deadline nat

record 'w go_clock =
  clk_now :: "'w \<Rightarrow> nat"
  clk_select :: "nat \<Rightarrow> nat \<Rightarrow> 'w \<Rightarrow> bool \<times> 'w"

text \<open>
  What the select takes: \<open>Done\<close> at once when the deadline has passed, \<open>Done\<close> only
  after the deadline, \<open>After\<close> only after \<open>d\<close> has passed.
\<close>

definition clock_laws :: "'w go_clock \<Rightarrow> bool" where
  "clock_laws c \<longleftrightarrow>
     (\<forall>dl d w. dl \<le> clk_now c w \<longrightarrow> fst (clk_select c dl d w)) \<and>
     (\<forall>dl d w. \<not> fst (clk_select c dl d w) \<longrightarrow>
        clk_now c w + d \<le> clk_now c (snd (clk_select c dl d w))) \<and>
     (\<forall>dl d w. fst (clk_select c dl d w) \<longrightarrow> dl \<le> clk_now c (snd (clk_select c dl d w)))"

subsection \<open>The API server\<close>

text \<open>
  \<open>k8s_Get\<close> and \<open>k8s_Create\<close> write the server's answer into the object they are
  given, which the source passes by pointer: the new value of the object is part of the result.
  \<open>k8s_IsNotFound\<close> is the test behind \<open>ctrlclient.IgnoreNotFound\<close>.
\<close>

record 'w k8s_api =
  k8s_Create :: "pod \<Rightarrow> 'w \<Rightarrow> (goerr option \<times> pod) \<times> 'w"
  k8s_Get :: "ctx \<Rightarrow> string \<times> string \<Rightarrow> pod \<Rightarrow> 'w \<Rightarrow> (goerr option \<times> pod) \<times> 'w"
  k8s_Delete :: "ctx \<Rightarrow> nat option \<Rightarrow> pod \<Rightarrow> 'w \<Rightarrow> goerr option \<times> 'w"
  k8s_ListPods :: "string \<Rightarrow> ('w, pod list) act"
  k8s_GetNode :: "string \<Rightarrow> ('w, node) act"
  k8s_IsNotFound :: "goerr \<Rightarrow> bool"

definition ObjectKey :: "pod \<Rightarrow> string \<times> string" where
  "ObjectKey p = (pod_Namespace p, pod_Name p)"

definition IgnoreNotFound :: "'w k8s_api \<Rightarrow> goerr option \<Rightarrow> goerr option" where
  "IgnoreNotFound k e =
     (case e of None \<Rightarrow> None | Some x \<Rightarrow> if k8s_IsNotFound k x then None else Some x)"

subsection \<open>The property manager\<close>

record 'pm property_ops =
  pr_New :: 'pm
  pr_Set :: "'pm \<Rightarrow> string \<Rightarrow> string \<Rightarrow> string \<Rightarrow> 'pm"
  pr_Get :: "'pm \<Rightarrow> string \<Rightarrow> string \<Rightarrow> string option"
  pr_All :: "'pm \<Rightarrow> string \<Rightarrow> garden_properties res"
  pr_Remove :: "'pm \<Rightarrow> string \<Rightarrow> string \<Rightarrow> goerr option \<times> 'pm"
  pr_MatchesAll :: "'pm \<Rightarrow> string \<Rightarrow> garden_properties \<Rightarrow> bool"
  pr_DestroyKeySpace :: "'pm \<Rightarrow> string \<Rightarrow> goerr option \<times> 'pm"

text \<open>The manager as a store of values per handle and name.\<close>

definition property_laws :: "'pm property_ops \<Rightarrow> bool" where
  "property_laws o' \<longleftrightarrow>
     (\<forall>h k. pr_Get o' (pr_New o') h k = None) \<and>
     (\<forall>s h k v h' k'. pr_Get o' (pr_Set o' s h k v) h' k' =
        (if h' = h \<and> k' = k then Some v else pr_Get o' s h' k')) \<and>
     (\<forall>s h ps. pr_MatchesAll o' s h ps \<longleftrightarrow> (\<forall>(k, v) \<in> set ps. pr_Get o' s h k = Some v)) \<and>
     (\<forall>s h h' k. pr_Get o' (snd (pr_DestroyKeySpace o' s h)) h' k =
        (if h' = h then None else pr_Get o' s h' k))"

lemma property_lawsD:
  assumes "property_laws o'"
  shows "pr_Get o' (pr_New o') h k = None"
    and "pr_Get o' (pr_Set o' s h k v) h' k' =
      (if h' = h \<and> k' = k then Some v else pr_Get o' s h' k')"
    and "pr_MatchesAll o' s h ps \<longleftrightarrow> (\<forall>(k, v) \<in> set ps. pr_Get o' s h k = Some v)"
    and "pr_Get o' (snd (pr_DestroyKeySpace o' s h)) h' k =
      (if h' = h then None else pr_Get o' s h' k)"
  using assms unfolding property_laws_def by blast+

end
