(* ===== verification/PodSpec.thy ===== *)
theory PodSpec
  imports Garden PortManager
begin

section \<open>From a container spec to a pod (the pure part of client.Create)\<close>

text \<open>
  The statements of \<open>Create\<close> in pkg/k8sgarden/client.go that compute the pod: the CPU share,
  the host ports, the image, the pod object, the sidecar and the bind mounts, and the helpers
  \<open>cpuQuantity\<close>, \<open>podLabels\<close>, \<open>byteToQuantity\<close> and \<open>randSeq\<close>.
\<close>

subsection \<open>CPU share\<close>

definition cpuQuantity :: "f64 \<Rightarrow> i64 \<Rightarrow> i64 \<Rightarrow> f64" where
  "cpuQuantity memMb nodeCPU nodeMemoryInB =
     (let cpuPerShare = f64_div (f64_of_int (sint nodeCPU))
                          (f64_div (f64_of_int (sint nodeMemoryInB)) (Fin (1024 * 1024)))
      in f64_mult memMb cpuPerShare)"

definition memory_mb :: "u64 \<Rightarrow> f64" where
  "memory_mb limit = f64_div (f64_of_int (uint limit)) (Fin (1024 * 1024))"

text \<open>\<open>resource.MustParse(fmt.Sprintf("%dm", int(cpuAssignment*1000)))\<close>\<close>

definition cpu_request :: "(f64 \<Rightarrow> i64) \<Rightarrow> f64 \<Rightarrow> quantity" where
  "cpu_request oor cpu = MilliCPU (sint (f64_to_i64 oor (f64_mult cpu (Fin 1000))))"

subsection \<open>Host ports\<close>

text \<open>
  The loop over \<open>spec.NetIn\<close>: a rule without a host port gets the next one of the port
  manager and keeps it in the spec, and the first failure leaves the loop. The result holds
  the ports of the pod, the rules as changed and the manager's new state.
\<close>

definition container_port_of :: "net_in \<Rightarrow> u32 \<Rightarrow> container_port" where
  "container_port_of ni hostPort =
     \<lparr>cp_ContainerPort = ni_ContainerPort ni, cp_HostPort = hostPort, cp_Protocol = ''TCP''\<rparr>"

fun alloc_ports ::
  "('s \<Rightarrow> u32 res \<times> 's) \<Rightarrow> net_in list \<Rightarrow> 's \<Rightarrow> container_port list res \<times> net_in list \<times> 's" where
  "alloc_ports next_port [] s = (Ok [], [], s)"
| "alloc_ports next_port (ni # nis) s =
     (if ni_HostPort ni = 0
      then (case next_port s of
              (Ok hostPort, s') \<Rightarrow>
                (case alloc_ports next_port nis s' of
                   (r, nis', s'') \<Rightarrow>
                     (case r of
                        Ok ports \<Rightarrow> Ok (container_port_of ni hostPort # ports)
                      | Err e \<Rightarrow> Err e
                      | Panic p \<Rightarrow> Panic p,
                      ni\<lparr>ni_HostPort := hostPort\<rparr> # nis', s''))
            | (Err e, s') \<Rightarrow> (Err (ErrorfW ''failed to allocate host port: %w'' [] e), ni # nis, s')
            | (Panic p, s') \<Rightarrow> (Panic p, ni # nis, s'))
      else (case alloc_ports next_port nis s of
              (r, nis', s'') \<Rightarrow>
                (case r of
                   Ok ports \<Rightarrow> Ok (container_port_of ni (ni_HostPort ni) # ports)
                 | Err e \<Rightarrow> Err e
                 | Panic p \<Rightarrow> Panic p,
                 ni # nis', s'')))"

subsection \<open>Labels\<close>

definition AppGUIDLabelKey :: string where
  "AppGUIDLabelKey = ''cloudfoundry.org/app-guid''"

definition OrgGUIDLabelKey :: string where
  "OrgGUIDLabelKey = ''cloudfoundry.org/org-guid''"

definition SpaceGUIDLabel :: string where
  "SpaceGUIDLabel = ''cloudfoundry.org/space-guid''"

definition WorkloadTypeKey :: string where
  "WorkloadTypeKey = ''cloudfoundry.org/workload-type''"

definition OwnerNameLabelKey :: string where
  "OwnerNameLabelKey = ''cloudfoundry.org/owner-name''"

definition copy_label :: "garden_properties \<Rightarrow> string \<Rightarrow> string \<Rightarrow> (string, string) gomap \<Rightarrow> (string, string) gomap" where
  "copy_label ps k l labels = (case map_of ps k of Some v \<Rightarrow> gm_put l v labels | None \<Rightarrow> labels)"

text \<open>\<open>owner_key\<close> is \<open>executor.ContainerOwnerProperty\<close>.\<close>

definition podLabels :: "string \<Rightarrow> garden_properties \<Rightarrow> (string, string) gomap" where
  "podLabels owner_key ps =
     copy_label ps owner_key OwnerNameLabelKey
      (copy_label ps ''network.container_workload'' WorkloadTypeKey
        (copy_label ps ''network.space_id'' SpaceGUIDLabel
          (copy_label ps ''network.org_id'' OrgGUIDLabelKey
            (copy_label ps ''network.app_id'' AppGUIDLabelKey []))))"

subsection \<open>The image reference\<close>

definition docker_ref :: "string \<Rightarrow> string" where
  "docker_ref cutImg = TrimLeft (CHR ''/'') (ReplaceAll (CHR ''#'') (CHR '':'') cutImg)"

subsection \<open>Volume names\<close>

definition alphanum :: string where
  "alphanum = ''abcdefghijklmnopqrstuvwxyz1234567890''"

primrec randSeq :: "(nat \<Rightarrow> 'w \<Rightarrow> nat \<times> 'w) \<Rightarrow> nat \<Rightarrow> 'w \<Rightarrow> string \<times> 'w" where
  "randSeq intn 0 w = ([], w)"
| "randSeq intn (Suc n) w =
     (let (r, w') = intn (length alphanum) w; (s, w'') = randSeq intn n w'
      in ((alphanum ! r) # s, w''))"

subsection \<open>The pod object\<close>

record client_config =
  cfg_node :: node
  cfg_nodeCPU :: i64
  cfg_nodeMemoryInB :: i64
  cfg_sidecarRootfs :: string
  cfg_enableContainerProxy :: bool
  cfg_trustedCertsDir :: string
  cfg_workloadsNamespace :: string

definition appContainerName :: string where
  "appContainerName = ''app''"

definition sidecarContainerName :: string where
  "sidecarContainerName = ''sidecar''"

text \<open>
  A number of bytes as a quantity. The limits of a spec are \<open>uint64\<close> and are converted to \<open>int64\<close>
  for it: the word is the same and is read with its sign.
\<close>

definition byteToQuantity :: "i64 \<Rightarrow> (int \<Rightarrow> quantity) \<Rightarrow> quantity" where
  "byteToQuantity b f = f (sint b)"

definition garden_init_mount :: volume_mount where
  "garden_init_mount = \<lparr>vm_Name = ''init-bin'', vm_MountPath = ''/tmp/garden-init'', vm_ReadOnly = True\<rparr>"

definition app_container :: "container_spec \<Rightarrow> container_port list \<Rightarrow> string \<Rightarrow> u64 \<Rightarrow> pod_container" where
  "app_container spec ports baseImage rootfsSize =
     \<lparr>pc_Name = appContainerName, pc_Image = baseImage, pc_ImagePullPolicy = ''IfNotPresent'',
      pc_Ports = ports, pc_Command = [''/tmp/garden-init''],
      pc_VolumeMounts = [\<lparr>vm_Name = ''tmp'', vm_MountPath = ''/tmp'', vm_ReadOnly = False\<rparr>, garden_init_mount],
      pc_EphemeralStorageLimit = Some (byteToQuantity (spec_DiskByteHard spec - rootfsSize) DecimalSI)\<rparr>"

definition sidecar_container :: "client_config \<Rightarrow> pod_container" where
  "sidecar_container cfg =
     \<lparr>pc_Name = sidecarContainerName, pc_Image = cfg_sidecarRootfs cfg, pc_ImagePullPolicy = [],
      pc_Ports = [], pc_Command = [''/tmp/garden-init''],
      pc_VolumeMounts = [garden_init_mount], pc_EphemeralStorageLimit = None\<rparr>"

definition base_pod ::
  "client_config \<Rightarrow> string \<Rightarrow> (f64 \<Rightarrow> i64) \<Rightarrow> container_spec \<Rightarrow> f64 \<Rightarrow> container_port list \<Rightarrow> string \<Rightarrow> u64 \<Rightarrow> pod" where
  "base_pod cfg owner_key oor spec cpuAssignment ports baseImage rootfsSize =
     empty_pod\<lparr>pod_Name := spec_Handle spec,
       pod_Namespace := cfg_workloadsNamespace cfg,
       pod_Labels := podLabels owner_key (spec_Properties spec),
       pod_AutomountServiceAccountToken := Some False,
       pod_EnableServiceLinks := Some False,
       pod_NodeName := node_Name (cfg_node cfg),
       pod_TerminationGracePeriodSeconds := Some 5,
       pod_HostUsers := Some True,
       pod_RestartPolicy := ''Never'',
       pod_CPURequest := Some (cpu_request oor cpuAssignment),
       pod_MemoryLimit := Some (byteToQuantity (spec_MemLimitInBytes spec) BinarySI),
       pod_Volumes := [\<lparr>vol_Name = ''tmp'', vol_Source = EmptyDir\<rparr>,
                       \<lparr>vol_Name = ''init-bin'', vol_Source = HostPath ''/var/lib/rep/bin/init''\<rparr>],
       pod_Containers := [app_container spec ports baseImage rootfsSize]\<rparr>"

definition runs_app_workload :: "container_spec \<Rightarrow> bool" where
  "runs_app_workload spec \<longleftrightarrow>
     map_of (spec_Properties spec) ''network.container_workload'' = Some appContainerName"

text \<open>The sidecar, and the move of the ports to it when the proxy is on.\<close>

definition add_sidecar :: "client_config \<Rightarrow> container_spec \<Rightarrow> container_port list \<Rightarrow> pod \<Rightarrow> pod" where
  "add_sidecar cfg spec ports p =
     (if runs_app_workload spec
      then let cs = pod_Containers p @ [sidecar_container cfg];
               cs' = (if cfg_enableContainerProxy cfg
                      then cs[0 := (cs ! 0)\<lparr>pc_Ports := []\<rparr>, 1 := (cs ! 1)\<lparr>pc_Ports := ports\<rparr>]
                      else cs)
           in p\<lparr>pod_Containers := cs'\<rparr>
      else p)"

definition bind_volume_source :: "client_config \<Rightarrow> bind_mount \<Rightarrow> volume_source" where
  "bind_volume_source cfg m =
     (if bm_SrcPath m = cfg_trustedCertsDir cfg then ConfigMapRef ''trusted-system-certs''
      else HostPath (bm_SrcPath m))"

definition add_bind_mount :: "client_config \<Rightarrow> string \<Rightarrow> bind_mount \<Rightarrow> pod \<Rightarrow> pod" where
  "add_bind_mount cfg volName m p =
     p\<lparr>pod_Volumes := pod_Volumes p @ [\<lparr>vol_Name = volName, vol_Source = bind_volume_source cfg m\<rparr>],
       pod_Containers := map (\<lambda>c. c\<lparr>pc_VolumeMounts := pc_VolumeMounts c @
         [\<lparr>vm_Name = volName, vm_MountPath = bm_DstPath m, vm_ReadOnly = (bm_Mode m = BindMountModeRO)\<rparr>]\<rparr>)
         (pod_Containers p)\<rparr>"

fun add_bind_mounts ::
  "client_config \<Rightarrow> (nat \<Rightarrow> 'w \<Rightarrow> nat \<times> 'w) \<Rightarrow> bind_mount list \<Rightarrow> pod \<Rightarrow> 'w \<Rightarrow> pod \<times> 'w" where
  "add_bind_mounts cfg intn [] p w = (p, w)"
| "add_bind_mounts cfg intn (m # ms) p w =
     (let (rnd, w') = randSeq intn 10 w
      in add_bind_mounts cfg intn ms (add_bind_mount cfg (''vol-'' @ rnd) m p) w')"

definition build_pod ::
  "client_config \<Rightarrow> string \<Rightarrow> (f64 \<Rightarrow> i64) \<Rightarrow> (nat \<Rightarrow> 'w \<Rightarrow> nat \<times> 'w) \<Rightarrow> container_spec \<Rightarrow> f64 \<Rightarrow>
   container_port list \<Rightarrow> string \<Rightarrow> u64 \<Rightarrow> 'w \<Rightarrow> pod \<times> 'w" where
  "build_pod cfg owner_key oor intn spec cpuAssignment ports baseImage rootfsSize w =
     add_bind_mounts cfg intn (spec_BindMounts spec)
       (add_sidecar cfg spec ports (base_pod cfg owner_key oor spec cpuAssignment ports baseImage rootfsSize)) w"

subsection \<open>What the built pod says\<close>

lemma pod_ports_add_bind_mount [simp]: "pod_ports (add_bind_mount cfg v m p) = pod_ports p"
  by (simp add: pod_ports_def add_bind_mount_def comp_def)

lemma pod_ports_add_bind_mounts [simp]:
  "pod_ports (fst (add_bind_mounts cfg intn ms p w)) = pod_ports p"
  by (induction cfg intn ms p w rule: add_bind_mounts.induct) (auto simp: Let_def split: prod.split)

lemma pod_ports_base [simp]: "pod_ports (base_pod cfg ok oor spec cpu ports img sz) = ports"
  by (simp add: pod_ports_def base_pod_def app_container_def)

lemma pod_ports_add_sidecar:
  "pod_ports (add_sidecar cfg spec ports (base_pod cfg ok oor spec cpu ports img sz)) = ports"
  by (simp add: pod_ports_def add_sidecar_def base_pod_def app_container_def sidecar_container_def
      Let_def)

lemma pod_ports_build [simp]:
  "pod_ports (fst (build_pod cfg ok oor intn spec cpu ports img sz w)) = ports"
  by (simp add: build_pod_def pod_ports_add_sidecar)

lemma pod_Name_add_bind_mounts [simp]:
  "pod_Name (fst (add_bind_mounts cfg intn ms p w)) = pod_Name p"
  by (induction cfg intn ms p w rule: add_bind_mounts.induct)
    (auto simp: Let_def add_bind_mount_def split: prod.split)

lemma pod_Name_build [simp]:
  "pod_Name (fst (build_pod cfg ok oor intn spec cpu ports img sz w)) = spec_Handle spec"
  by (simp add: build_pod_def add_sidecar_def base_pod_def Let_def)

lemma pod_Namespace_add_bind_mounts [simp]:
  "pod_Namespace (fst (add_bind_mounts cfg intn ms p w)) = pod_Namespace p"
  by (induction cfg intn ms p w rule: add_bind_mounts.induct)
    (auto simp: Let_def add_bind_mount_def split: prod.split)

lemma pod_Namespace_build [simp]:
  "pod_Namespace (fst (build_pod cfg ok oor intn spec cpu ports img sz w)) = cfg_workloadsNamespace cfg"
  by (simp add: build_pod_def add_sidecar_def base_pod_def Let_def)

lemma pod_Labels_add_bind_mounts [simp]:
  "pod_Labels (fst (add_bind_mounts cfg intn ms p w)) = pod_Labels p"
  by (induction cfg intn ms p w rule: add_bind_mounts.induct)
    (auto simp: Let_def add_bind_mount_def split: prod.split)

lemma pod_Labels_build [simp]:
  "pod_Labels (fst (build_pod cfg ok oor intn spec cpu ports img sz w)) =
     podLabels ok (spec_Properties spec)"
  by (simp add: build_pod_def add_sidecar_def base_pod_def Let_def)

lemma pod_NodeName_add_bind_mounts [simp]:
  "pod_NodeName (fst (add_bind_mounts cfg intn ms p w)) = pod_NodeName p"
  by (induction cfg intn ms p w rule: add_bind_mounts.induct)
    (auto simp: Let_def add_bind_mount_def split: prod.split)

lemma pod_NodeName_build [simp]:
  "pod_NodeName (fst (build_pod cfg ok oor intn spec cpu ports img sz w)) = node_Name (cfg_node cfg)"
  by (simp add: build_pod_def add_sidecar_def base_pod_def Let_def)

subsection \<open>Port allocation over any port source\<close>

text \<open>The host ports of the rules that asked for one to be chosen, as the loop left them.\<close>

definition chosen_ports :: "net_in list \<Rightarrow> net_in list \<Rightarrow> u32 list" where
  "chosen_ports nis nis' = [ni_HostPort ni'. (ni, ni') \<leftarrow> zip nis nis', ni_HostPort ni = 0]"

lemma chosen_ports_Nil [simp]: "chosen_ports [] nis' = []"
  by (simp add: chosen_ports_def)

lemma chosen_ports_Cons [simp]:
  "chosen_ports (ni # nis) (ni' # nis') =
     (if ni_HostPort ni = 0 then [ni_HostPort ni'] else []) @ chosen_ports nis nis'"
  by (simp add: chosen_ports_def)

lemma chosen_ports_auto:
  "length nis = length nis' \<Longrightarrow> list_all (\<lambda>ni. ni_HostPort ni = 0) nis \<Longrightarrow>
   chosen_ports nis nis' = map ni_HostPort nis'"
  by (induction nis nis' rule: list_induct2) auto

lemma alloc_ports_result:
  "alloc_ports next_port nis s = (Ok ports, nis', s') \<Longrightarrow>
     length nis' = length nis \<and>
     ports = map (\<lambda>ni. container_port_of ni (ni_HostPort ni)) nis' \<and>
     map ni_ContainerPort nis' = map ni_ContainerPort nis \<and>
     (\<forall>(ni, ni') \<in> set (zip nis nis'). ni_HostPort ni \<noteq> 0 \<longrightarrow> ni' = ni)"
proof (induction nis arbitrary: s ports nis' s')
  case Nil
  then show ?case by simp
next
  case (Cons ni nis)
  show ?case
  proof (cases "ni_HostPort ni = 0")
    case True
    with Cons.prems obtain p t ps rest where
      *: "alloc_ports next_port nis t = (Ok ps, rest, s')"
        "ports = container_port_of ni p # ps" "nis' = ni\<lparr>ni_HostPort := p\<rparr> # rest"
      by (auto split: prod.splits res.splits)
    from Cons.IH [OF *(1)] *(2,3) True show ?thesis
      by (simp add: container_port_of_def)
  next
    case False
    with Cons.prems obtain ps rest where
      *: "alloc_ports next_port nis s = (Ok ps, rest, s')"
        "ports = container_port_of ni (ni_HostPort ni) # ps" "nis' = ni # rest"
      by (auto split: prod.splits res.splits)
    from Cons.IH [OF *(1)] *(2,3) show ?thesis by simp
  qed
qed

context port_source
begin

lemma alloc_ports_held:
  "alloc_ports next_port nis s = (Ok ports, nis', s') \<Longrightarrow>
     distinct (chosen_ports nis nis') \<and> set (chosen_ports nis nis') \<inter> held s = {} \<and>
     held s' = held s \<union> set (chosen_ports nis nis')"
proof (induction nis arbitrary: s ports nis' s')
  case Nil
  then show ?case by simp
next
  case (Cons ni nis)
  show ?case
  proof (cases "ni_HostPort ni = 0")
    case True
    with Cons.prems obtain p t ps rest where
      *: "next_port s = (Ok p, t)" "alloc_ports next_port nis t = (Ok ps, rest, s')"
        "nis' = ni\<lparr>ni_HostPort := p\<rparr> # rest"
      by (auto split: prod.splits res.splits)
    from next_fresh [OF *(1)] Cons.IH [OF *(2)] *(3) True show ?thesis by auto
  next
    case False
    with Cons.prems obtain ps rest where
      *: "alloc_ports next_port nis s = (Ok ps, rest, s')" "nis' = ni # rest"
      by (auto split: prod.splits res.splits)
    from Cons.IH [OF *(1)] *(2) False show ?thesis by simp
  qed
qed

lemma alloc_ports_mono:
  "alloc_ports next_port nis s = (r, nis', s') \<Longrightarrow> held s \<subseteq> held s'"
proof (induction nis arbitrary: s r nis' s')
  case Nil
  then show ?case by simp
next
  case (Cons ni nis)
  show ?case
  proof (rule next_cases [of s])
    fix p t assume t: "next_port s = (Ok p, t)" "held t = insert p (held s)"
    show ?thesis using Cons.prems t Cons.IH
      by (fastforce split: prod.splits if_splits)
  next
    fix e t assume t: "next_port s = (Err e, t)" "held t = held s"
    show ?thesis using Cons.prems t Cons.IH
      by (fastforce split: prod.splits if_splits)
  qed
qed

lemma alloc_ports_no_panic: "alloc_ports next_port nis s \<noteq> (Panic m, nis', s')"
proof (induction nis arbitrary: s nis' s')
  case (Cons ni nis)
  show ?case
    using Cons.IH next_no_panic [of s m] by (auto split: prod.splits res.splits if_splits)
qed simp

end

context windowed_port_source
begin

lemma alloc_ports_window:
  "alloc_ports next_port nis s = (r, nis', s') \<Longrightarrow> held s' \<subseteq> held s \<union> window"
proof (induction nis arbitrary: s r nis' s')
  case Nil
  then show ?case by simp
next
  case (Cons ni nis)
  show ?case
  proof (rule next_cases [of s])
    fix p t assume t: "next_port s = (Ok p, t)" "held t = insert p (held s)"
    then have "p \<in> window" by (blast intro: next_window)
    with Cons.prems t Cons.IH show ?thesis by (fastforce split: prod.splits if_splits)
  next
    fix e t assume t: "next_port s = (Err e, t)" "held t = held s"
    with Cons.prems Cons.IH show ?thesis by (fastforce split: prod.splits if_splits)
  qed
qed

end

end
