(* ===== verification/Process.thy ===== *)
theory Process
  imports Prelude
begin

section \<open>A process in a task (pkg/k8sgarden/process.go)\<close>

text \<open>
  \<open>Wait\<close> runs the process: it creates it in the task, starts it, waits for its exit and for
  its streams, and deletes it. The calls to containerd go through the record \<open>task_api\<close>; the
  state carries the list of calls made (\<open>proc_call\<close>), so the order of the calls and what is
  left undone on an early return are part of the model. \<open>Signal\<close> uses the process that
  \<open>Wait\<close> has stored, a nil interface before that.
\<close>

datatype proc_call =
    CallExec | CallStart | CallWait | CallReceive | CallIO | CallIOWait | CallIOClose
  | CallDelete | CallKill nat

record oci_process =
  oci_Args :: "string list"
  oci_Env :: "string list"
  oci_Cwd :: string
  oci_UID :: u32
  oci_GID :: u32
  oci_Username :: string
  oci_Bounding :: "string list"
  oci_Inheritable :: "string list"
  oci_NoNewPrivileges :: bool

text \<open>
  \<open>tk_Receive\<close> is the receive from the channel \<open>Wait\<close> returns: the exit code and the
  error of the exit status. \<open>tk_IO\<close> may return a nil stream set.
\<close>

record ('w, 'task, 'proc, 'ch, 'pio) task_api =
  tk_Exec :: "'task \<Rightarrow> string \<Rightarrow> oci_process \<Rightarrow> 'w \<Rightarrow> ('proc option \<times> goerr option) \<times> 'w"
  tk_Start :: "'proc \<Rightarrow> 'w \<Rightarrow> goerr option \<times> 'w"
  tk_Wait :: "'proc \<Rightarrow> 'w \<Rightarrow> ('ch \<times> goerr option) \<times> 'w"
  tk_Receive :: "'ch \<Rightarrow> 'w \<Rightarrow> (u32 \<times> goerr option) \<times> 'w"
  tk_IO :: "'proc \<Rightarrow> 'w \<Rightarrow> 'pio option \<times> 'w"
  tk_IOWait :: "'pio \<Rightarrow> 'w \<Rightarrow> unit \<times> 'w"
  tk_IOClose :: "'pio \<Rightarrow> 'w \<Rightarrow> goerr option \<times> 'w"
  tk_Delete :: "'proc \<Rightarrow> 'w \<Rightarrow> goerr option \<times> 'w"
  tk_Kill :: "'proc \<Rightarrow> nat \<Rightarrow> 'w \<Rightarrow> goerr option \<times> 'w"

record ('task, 'proc) process =
  p_id :: string
  p_spec :: oci_process
  p_task :: 'task
  p_process :: "'proc option"

definition NewProcess :: "string \<Rightarrow> oci_process \<Rightarrow> 'task \<Rightarrow> ('task, 'proc) process" where
  "NewProcess id' spec task = \<lparr>p_id = id', p_spec = spec, p_task = task, p_process = None\<rparr>"

definition process_ID :: "('task, 'proc) process \<Rightarrow> string" where
  "process_ID p = p_id p"

definition process_Spec :: "('task, 'proc) process \<Rightarrow> oci_process" where
  "process_Spec p = p_spec p"

definition process_Task :: "('task, 'proc) process \<Rightarrow> 'task" where
  "process_Task p = p_task p"

definition process_SetTTY :: "('task, 'proc) process \<Rightarrow> unit res" where
  "process_SetTTY p = Panic ''unimplemented''"

subsection \<open>Signals\<close>

datatype garden_signal = SignalTerminate | SignalKill

definition SIGTERM :: nat where
  "SIGTERM = 15"

definition SIGKILL :: nat where
  "SIGKILL = 9"

definition process_Signal ::
  "('w, 'task, 'proc, 'ch, 'pio) task_api \<Rightarrow> ('task, 'proc) process \<Rightarrow> garden_signal \<Rightarrow>
   (proc_call, 'w) traced \<Rightarrow> goerr option res \<times> (proc_call, 'w) traced" where
  "process_Signal api p signal st =
     (let s = (if signal = SignalKill then SIGKILL else SIGTERM)
      in case p_process p of
           None \<Rightarrow> (Panic nil_dereference, st)
         | Some q \<Rightarrow> (case call (CallKill s) (tk_Kill api q s) st of (e, st') \<Rightarrow> (Ok e, st')))"

subsection \<open>Wait\<close>

text \<open>The streams: waited for and closed when there are any.\<close>

definition drain_io ::
  "('w, 'task, 'proc, 'ch, 'pio) task_api \<Rightarrow> 'proc \<Rightarrow> (proc_call, 'w) traced \<Rightarrow>
   goerr option \<times> (proc_call, 'w) traced" where
  "drain_io api q st =
     (case call CallIO (tk_IO api q) st of
        (None, st1) \<Rightarrow> (None, st1)
      | (Some io, st1) \<Rightarrow>
          (case call CallIOWait (tk_IOWait api io) st1 of
             (_, st2) \<Rightarrow> call CallIOClose (tk_IOClose api io) st2))"

definition process_Wait ::
  "('w, 'task, 'proc, 'ch, 'pio) task_api \<Rightarrow> ('task, 'proc) process \<Rightarrow> (proc_call, 'w) traced \<Rightarrow>
   ((int \<times> goerr option) res \<times> ('task, 'proc) process) \<times> (proc_call, 'w) traced" where
  "process_Wait api p st =
     (case call CallExec (tk_Exec api (p_task p) (p_id p) (p_spec p)) st of
        ((proc, err), st1) \<Rightarrow>
          (let p' = p\<lparr>p_process := proc\<rparr>
           in case err of
                Some e \<Rightarrow> ((Ok (- 1, Some e), p'), st1)
              | None \<Rightarrow>
                  (case proc of
                     None \<Rightarrow> ((Panic nil_dereference, p'), st1)
                   | Some q \<Rightarrow>
                       (case call CallStart (tk_Start api q) st1 of
                          (Some e, st2) \<Rightarrow> ((Ok (- 1, Some e), p'), st2)
                        | (None, st2) \<Rightarrow>
                            (case call CallWait (tk_Wait api q) st2 of
                               ((ch, Some e), st3) \<Rightarrow> ((Ok (- 1, Some e), p'), st3)
                             | ((ch, None), st3) \<Rightarrow>
                                 (case call CallReceive (tk_Receive api ch) st3 of
                                    ((code, exitErr), st4) \<Rightarrow>
                                      (case drain_io api q st4 of
                                         (closeErr, st5) \<Rightarrow>
                                           (case call CallDelete (tk_Delete api q) st5 of
                                              (err', st6) \<Rightarrow>
                                                ((Ok (uint code, errors_Join [exitErr, err', closeErr]), p'), st6)))))))))"

subsection \<open>Which calls were made\<close>

text \<open>The calls of a complete run, with and without streams.\<close>

definition full_run :: "bool \<Rightarrow> proc_call list" where
  "full_run has_io =
     [CallExec, CallStart, CallWait, CallReceive, CallIO] @
     (if has_io then [CallIOWait, CallIOClose] else []) @ [CallDelete]"

lemma full_run_inject [simp]: "full_run a = full_run b \<longleftrightarrow> a = b"
  by (simp add: full_run_def)

lemma drain_io_trace:
  assumes "drain_io api q (tr, w) = (e, (tr', w'))"
  shows "\<exists>has_io. tr' = tr @ [CallIO] @ (if has_io then [CallIOWait, CallIOClose] else [])"
proof (cases "fst (tk_IO api q w)")
  case None
  with assms show ?thesis
    by (intro exI [of _ False]) (simp add: drain_io_def call_eq)
next
  case (Some io)
  with assms show ?thesis
    by (intro exI [of _ True]) (auto simp: drain_io_def call_eq)
qed

text \<open>Every way \<open>Wait\<close> can end, with the calls that were made on that way.\<close>

lemma process_Wait_cases:
  assumes "process_Wait api p (tr, w) = ((r, p'), (tr', w'))"
  obtains (exec_failed) e where "r = Ok (- 1, Some e)" "tr' = tr @ [CallExec]"
  | (exec_nil) "r = Panic nil_dereference" "tr' = tr @ [CallExec]" "p_process p' = None"
  | (start_failed) e where "r = Ok (- 1, Some e)" "tr' = tr @ [CallExec, CallStart]"
  | (wait_failed) e where "r = Ok (- 1, Some e)" "tr' = tr @ [CallExec, CallStart, CallWait]"
  | (complete) code e has_io where "r = Ok (uint (code :: u32), e)" "tr' = tr @ full_run has_io"
      "p_process p' \<noteq> None"
proof -
  obtain proc err w1 where exec: "tk_Exec api (p_task p) (p_id p) (p_spec p) w = ((proc, err), w1)"
    by (metis prod.exhaust)
  consider (failed) e where "err = Some e" | (nil) "err = None" "proc = None"
    | (made) q where "err = None" "proc = Some q" by (meson not_None_eq)
  then show thesis
  proof cases
    case (failed e)
    with assms exec show thesis
      by (intro exec_failed [of e]) (simp_all add: process_Wait_def call_eq)
  next
    case nil
    with assms exec show thesis
      by (intro exec_nil) (auto simp: process_Wait_def call_eq)
  next
    case (made q)
    obtain se w2 where start: "tk_Start api q w1 = (se, w2)" by (metis prod.exhaust)
    obtain ch err3 w3 where wait: "tk_Wait api q w2 = ((ch, err3), w3)" by (metis prod.exhaust)
    obtain code exitErr w4 where recv: "tk_Receive api ch w3 = ((code, exitErr), w4)" by (metis prod.exhaust)
    let ?tr4 = "tr @ [CallExec, CallStart, CallWait, CallReceive]"
    obtain ce tr5 w5 where io: "drain_io api q (?tr4, w4) = (ce, (tr5, w5))" by (metis prod.exhaust)
    from drain_io_trace [OF io] obtain has_io where
      tr5: "tr5 = ?tr4 @ [CallIO] @ (if has_io then [CallIOWait, CallIOClose] else [])" by blast
    note steps = made assms exec start wait recv io
    show thesis
    proof (cases "se = None \<and> err3 = None")
      case True
      with steps tr5 show thesis
        by (intro complete [of code _ has_io]) (auto simp: process_Wait_def call_eq full_run_def)
    next
      case False
      then consider e where "se = Some e" | e where "se = None" "err3 = Some e" by (cases se; cases err3) auto
      then show thesis
        by cases (use steps in \<open>auto simp: process_Wait_def call_eq intro: start_failed wait_failed\<close>)
    qed
  qed
qed

subsection \<open>A task for the examples\<close>

text \<open>Processes are their identifiers; the world is a list of numbers that is not used.\<close>

definition sample_api :: "(nat, string, string, string, string) task_api" where
  "sample_api = \<lparr>tk_Exec = (\<lambda>t i s w. ((Some i, None), w)),
     tk_Start = (\<lambda>q w. (if w = 0 then Some DeadlineExceeded else None, w)),
     tk_Wait = (\<lambda>q w. ((q, None), w)), tk_Receive = (\<lambda>ch w. ((7, None), w)),
     tk_IO = (\<lambda>q w. (Some q, w)), tk_IOWait = (\<lambda>i w. ((), w)), tk_IOClose = (\<lambda>i w. (None, w)),
     tk_Delete = (\<lambda>q w. (None, w)), tk_Kill = (\<lambda>q n w. (None, w))\<rparr>"

definition sample_process :: "(string, string) process" where
  "sample_process = NewProcess ''p1''
     \<lparr>oci_Args = [''/bin/true''], oci_Env = [], oci_Cwd = ''/'', oci_UID = 0, oci_GID = 0,
      oci_Username = ''root'', oci_Bounding = [], oci_Inheritable = [], oci_NoNewPrivileges = False\<rparr> ''task''"

lemma sample_wait:
  "process_Wait sample_api sample_process ([], Suc 0) =
     ((Ok (7, None), sample_process\<lparr>p_process := Some ''p1''\<rparr>), (full_run True, Suc 0))"
  by (simp add: process_Wait_def call_eq sample_api_def sample_process_def NewProcess_def drain_io_def
      full_run_def errors_Join_def)

subsection \<open>Properties\<close>

text \<open>What a complete call of \<open>Wait\<close> has done, from the creation of the process to its deletion:
  \<open>code\<close> and \<open>exitErr\<close> are the exit status received from the channel.\<close>

definition waited ::
  "('w, 'task, 'proc, 'ch, 'pio) task_api \<Rightarrow> ('task, 'proc) process \<Rightarrow> 'w \<Rightarrow> 'proc \<Rightarrow> u32 \<Rightarrow>
   goerr option \<Rightarrow> goerr option \<Rightarrow> goerr option \<Rightarrow> bool \<Rightarrow> 'w \<Rightarrow> bool" where
  "waited api p w q code exitErr deleteErr closeErr has_io w' \<longleftrightarrow>
     (\<exists>w1 w2 ch w3 w4 streams tr5 w5.
        tk_Exec api (p_task p) (p_id p) (p_spec p) w = ((Some q, None), w1) \<and>
        tk_Start api q w1 = (None, w2) \<and> tk_Wait api q w2 = ((ch, None), w3) \<and>
        tk_Receive api ch w3 = ((code, exitErr), w4) \<and>
        fst (tk_IO api q w4) = streams \<and> has_io = (streams \<noteq> None) \<and>
        drain_io api q ([], w4) = (closeErr, tr5, w5) \<and> tk_Delete api q w5 = (deleteErr, w'))"

lemma drain_io_calls:
  assumes "drain_io api q ([], w) = (e, tr5, w5)"
  shows "drain_io api q (tr, w) = (e, tr @ tr5, w5) \<and>
     tr5 = [CallIO] @ (if fst (tk_IO api q w) \<noteq> None then [CallIOWait, CallIOClose] else [])"
  using assms by (cases "fst (tk_IO api q w)") (auto simp: drain_io_def call_eq)

text \<open>C26: Every call of \<open>Wait\<close> makes its calls to containerd in one order. Either it completes it:
  it has waited for and closed the streams exactly when there are some, ends with the deletion of
  the process, and returns the exit code that came through the channel, with the errors of the
  status, of the deletion and of closing the streams joined. Or it stops within the first three
  calls, deletes nothing, and returns the code -1 with an error, or panics.\<close>

theorem wait_call_order:
  assumes "process_Wait api p ([], w) = ((r, p'), (tr, w'))"
  shows "(\<exists>q code exitErr deleteErr closeErr has_io.
       waited api p w q code exitErr deleteErr closeErr has_io w' \<and> tr = full_run has_io \<and>
       r = Ok (uint code, errors_Join [exitErr, deleteErr, closeErr]) \<and> p_process p' = Some q) \<or>
     (length tr \<le> 3 \<and> tr = take (length tr) (full_run False) \<and>
      (r = Panic nil_dereference \<or> (\<exists>e. r = Ok (- 1, Some e))))"
proof -
  obtain proc err w1 where exec: "tk_Exec api (p_task p) (p_id p) (p_spec p) w = ((proc, err), w1)"
    by (metis prod.exhaust)
  show ?thesis
  proof (cases "err = None \<and> proc \<noteq> None")
    case True
    then obtain q where q: "err = None" "proc = Some q" by blast
    obtain se w2 where start: "tk_Start api q w1 = (se, w2)" by (metis prod.exhaust)
    obtain ch we w3 where wait: "tk_Wait api q w2 = ((ch, we), w3)" by (metis prod.exhaust)
    obtain code exitErr w4 where recv: "tk_Receive api ch w3 = ((code, exitErr), w4)" by (metis prod.exhaust)
    obtain ce tr5 w5 where io: "drain_io api q ([], w4) = (ce, tr5, w5)" by (metis prod.exhaust)
    obtain de w6 where del: "tk_Delete api q w5 = (de, w6)" by (metis prod.exhaust)
    note steps = assms exec q start wait recv
    show ?thesis
    proof (cases "se = None \<and> we = None")
      case True
      let ?io = "fst (tk_IO api q w4) \<noteq> None"
      have "waited api p w q code exitErr de ce ?io w6"
        unfolding waited_def using exec q start wait recv io del True by auto
      moreover have "tr = full_run ?io \<and> r = Ok (uint code, errors_Join [exitErr, de, ce]) \<and>
          p_process p' = Some q \<and> w' = w6"
        using steps True drain_io_calls [OF io, of "[CallExec, CallStart, CallWait, CallReceive]"] del
        by (auto simp: process_Wait_def call_eq full_run_def)
      ultimately show ?thesis by blast
    next
      case False
      then show ?thesis
        using steps by (cases se; cases we) (auto simp: process_Wait_def call_eq full_run_def)
    qed
  next
    case False
    with assms exec show ?thesis
      by (cases err; cases proc) (auto simp: process_Wait_def call_eq full_run_def)
  qed
qed

theorem wait_call_order_witness:
  "\<exists>r p' tr w'. process_Wait sample_api sample_process ([], Suc 0) = ((r, p'), (tr, w')) \<and>
     r = Ok (7, None) \<and> tr = full_run True \<and>
     (\<exists>q code exitErr deleteErr closeErr. waited sample_api sample_process (Suc 0) q code exitErr deleteErr closeErr True w' \<and>
        uint code = 7)"
proof -
  have "length (full_run True) > 3" by (simp add: full_run_def)
  with wait_call_order [OF sample_wait] obtain q code exitErr deleteErr closeErr where
    "waited sample_api sample_process (Suc 0) q code exitErr deleteErr closeErr True (Suc 0)"
    "uint (code :: u32) = 7" by auto
  with sample_wait show ?thesis by blast
qed

text \<open>C27: When the start of the process fails, \<open>Wait\<close> returns that error and leaves the
  process that \<open>Exec\<close> has created in containerd: no deletion is attempted.\<close>

theorem failed_start_keeps_process:
  assumes "tk_Exec api (p_task p) (p_id p) (p_spec p) w = ((Some q, None), w1)"
    and "tk_Start api q w1 = (Some e, w2)"
  shows "process_Wait api p (tr, w) =
     ((Ok (- 1, Some e), p\<lparr>p_process := Some q\<rparr>), (tr @ [CallExec, CallStart], w2))"
  using assms by (simp add: process_Wait_def call_eq)

theorem failed_start_keeps_process_witness:
  "process_Wait sample_api sample_process ([], 0) =
     ((Ok (- 1, Some DeadlineExceeded), sample_process\<lparr>p_process := Some ''p1''\<rparr>),
      ([] @ [CallExec, CallStart], 0))"
  by (rule failed_start_keeps_process) (simp_all add: sample_api_def sample_process_def NewProcess_def)

text \<open>C28: \<open>Signal\<close> panics on a process whose \<open>Wait\<close> has not begun, and after a complete
  \<open>Wait\<close> it sends the signal: SIGKILL for a kill, SIGTERM for anything else.\<close>

theorem signal_needs_wait:
  assumes "process_Wait api (NewProcess i spec t) ([], w) = ((Ok (code, e), p'), (tr, w'))" and "0 \<le> code"
  shows "process_Signal api (NewProcess i spec t) s st = (Panic nil_dereference, st) \<and>
     (\<exists>err w2. process_Signal api p' s (tr, w') =
        (Ok err, (tr @ [CallKill (if s = SignalKill then 9 else 15)], w2)))"
proof -
  have "p_process p' \<noteq> None"
    using assms by (cases rule: process_Wait_cases) auto
  then obtain q where "p_process p' = Some q" by blast
  then show ?thesis
    by (simp add: process_Signal_def NewProcess_def call_eq SIGKILL_def SIGTERM_def)
qed

theorem signal_needs_wait_witness:
  "process_Signal sample_api (NewProcess ''p1'' (p_spec sample_process) ''task'') SignalKill ([], 1) =
     (Panic nil_dereference, ([], 1)) \<and>
   (\<exists>err w2. process_Signal sample_api (sample_process\<lparr>p_process := Some ''p1''\<rparr>) SignalKill (full_run True, Suc 0) =
      (Ok err, (full_run True @ [CallKill (if SignalKill = SignalKill then 9 else 15)], w2)))"
  by (rule signal_needs_wait [where code = 7 and e = None])
    (use sample_wait in \<open>simp_all add: sample_process_def NewProcess_def\<close>)

end
