(* ===== verification/Container.thy ===== *)
theory Container
  imports Garden Process
begin

section \<open>A container (pkg/k8sgarden/container.go)\<close>

text \<open>
  A container is a pod with the tasks of its containers. The fields that hold interfaces may
  be nil (containers restored at start-up have no logger, no nstar runner and no user lookup),
  and a call through a nil one panics. Properties are kept in the property manager the
  container shares with the client, so a method that changes them takes and returns its state.
\<close>

definition Caps :: "string list" where
  "Caps = [''CAP_CHOWN'', ''CAP_DAC_OVERRIDE'', ''CAP_FOWNER'', ''CAP_FSETID'', ''CAP_KILL'',
     ''CAP_SETGID'', ''CAP_SETUID'', ''CAP_SETPCAP'', ''CAP_NET_BIND_SERVICE'', ''CAP_NET_RAW'',
     ''CAP_SYS_CHROOT'', ''CAP_MKNOD'', ''CAP_AUDIT_WRITE'', ''CAP_SETFCAP'']"

datatype iface = NilIface | Impl

record 'task container =
  ct_log :: iface
  ct_pod :: pod
  ct_env :: "string list"
  ct_cpuAssignment :: f64
  ct_rootfsSize :: u64
  ct_nstar :: iface
  ct_userLookupper :: iface
  ct_taskMap :: "(string, 'task) gomap"

definition NewContainer ::
  "iface \<Rightarrow> pod \<Rightarrow> string list \<Rightarrow> f64 \<Rightarrow> iface \<Rightarrow> iface \<Rightarrow> u64 \<Rightarrow> (string, 'task) gomap \<Rightarrow> 'task container" where
  "NewContainer lg p env cpuAssignment nstar userLookupper rootfsSize taskMap =
     \<lparr>ct_log = lg, ct_pod = p, ct_env = env, ct_cpuAssignment = cpuAssignment,
      ct_rootfsSize = rootfsSize, ct_nstar = nstar, ct_userLookupper = userLookupper,
      ct_taskMap = taskMap\<rparr>"

definition container_Handle :: "'task container \<Rightarrow> string" where
  "container_Handle c = pod_Name (ct_pod c)"

subsection \<open>Info\<close>

record port_mapping =
  pm_HostPort :: u32
  pm_ContainerPort :: u32

record container_info =
  info_State :: string
  info_Events :: "string list"
  info_HostIP :: string
  info_ContainerIP :: string
  info_ContainerIPv6 :: string
  info_ExternalIP :: string
  info_MappedPorts :: "port_mapping list"

text \<open>The two nested loops, over the pod's containers and over the ports of each.\<close>

definition append_port :: "port_mapping list \<Rightarrow> container_port \<Rightarrow> port_mapping list" where
  "append_port ms cp =
     ms @ [\<lparr>pm_HostPort = cp_HostPort cp, pm_ContainerPort = cp_ContainerPort cp\<rparr>]"

fun port_mappings :: "port_mapping list \<Rightarrow> pod_container list \<Rightarrow> port_mapping list" where
  "port_mappings ms [] = ms"
| "port_mappings ms (c # cs) =
     (if pc_Ports c = [] then port_mappings ms cs
      else port_mappings (foldl append_port ms (pc_Ports c)) cs)"

definition container_Info :: "'task container \<Rightarrow> container_info" where
  "container_Info c =
     \<lparr>info_State = ''active'', info_Events = [],
      info_HostIP = pod_HostIP (ct_pod c),
      info_ContainerIP = pod_PodIP (ct_pod c),
      info_ContainerIPv6 = [],
      info_ExternalIP = pod_HostIP (ct_pod c),
      info_MappedPorts = port_mappings [] (pod_Containers (ct_pod c))\<rparr>"

lemma foldl_append_port:
  "foldl append_port ms cps =
     ms @ map (\<lambda>cp. \<lparr>pm_HostPort = cp_HostPort cp, pm_ContainerPort = cp_ContainerPort cp\<rparr>) cps"
  by (induction cps arbitrary: ms) (auto simp: append_port_def)

lemma port_mappings_eq:
  "port_mappings ms cs =
     ms @ map (\<lambda>cp. \<lparr>pm_HostPort = cp_HostPort cp, pm_ContainerPort = cp_ContainerPort cp\<rparr>)
       (concat (map pc_Ports cs))"
  by (induction ms cs rule: port_mappings.induct) (auto simp: foldl_append_port)

subsection \<open>Run\<close>

record process_spec =
  ps_ID :: string
  ps_Path :: string
  ps_Args :: "string list"
  ps_Dir :: string
  ps_User :: string
  ps_Env :: "string list"
  ps_ImageURI :: string

record exec_user =
  eu_Uid :: int
  eu_Gid :: int
  eu_Home :: string

text \<open>
  What the container calls: the pid of a task, guardian's user lookup, \<open>UnixEnvFor\<close> and
  nstar runner, and \<open>uuid.NewString\<close>.
\<close>

record ('w, 'task, 'tar, 'stream) container_ops =
  co_Pid :: "'task \<Rightarrow> u32"
  co_Lookup :: "string \<Rightarrow> string \<Rightarrow> ('w, exec_user) act"
  co_UnixEnvFor :: "oci_process \<Rightarrow> process_spec \<Rightarrow> int \<Rightarrow> string list"
  co_NewUUID :: "'w \<Rightarrow> string \<times> 'w"
  co_StreamIn :: "int \<Rightarrow> string \<Rightarrow> string \<Rightarrow> 'tar \<Rightarrow> 'w \<Rightarrow> goerr option \<times> 'w"
  co_StreamOut :: "int \<Rightarrow> string \<Rightarrow> string \<Rightarrow> ('w, 'stream) act"

definition target_container :: "process_spec \<Rightarrow> string" where
  "target_container spec = (if ps_ImageURI spec \<noteq> [] then ''sidecar'' else ''app'')"

definition base_process :: "'task container \<Rightarrow> process_spec \<Rightarrow> exec_user \<Rightarrow> oci_process" where
  "base_process c spec u =
     \<lparr>oci_Args = ps_Path spec # ps_Args spec, oci_Env = ct_env c, oci_Cwd = ps_Dir spec,
      oci_UID = word_of_int (eu_Uid u), oci_GID = word_of_int (eu_Gid u),
      oci_Username = ps_User spec, oci_Bounding = Caps, oci_Inheritable = Caps,
      oci_NoNewPrivileges = False\<rparr>"

definition run_process ::
  "('w, 'task, 'tar, 'stream) container_ops \<Rightarrow> 'task container \<Rightarrow> process_spec \<Rightarrow> exec_user \<Rightarrow> oci_process" where
  "run_process ops c spec u =
     (let p0 = base_process c spec u;
          p1 = p0\<lparr>oci_Env := co_UnixEnvFor ops p0 spec (eu_Uid u)\<rparr>;
          p2 = p1\<lparr>oci_Env := oci_Env p1 @ ps_Env spec\<rparr>
      in if ps_Dir spec = [] then p2\<lparr>oci_Cwd := eu_Home u\<rparr> else p2)"

definition proc_root :: "u32 \<Rightarrow> string" where
  "proc_root pid = ''/proc/'' @ dec (unat pid) @ ''/root''"

definition container_Run ::
  "('w, 'task, 'tar, 'stream) container_ops \<Rightarrow> 'task container \<Rightarrow> process_spec \<Rightarrow>
   ('w, ('task, 'proc) process) act" where
  "container_Run ops c spec w =
     (if ct_log c = NilIface then (Panic nil_dereference, w)
      else case map_of (ct_taskMap c) (target_container spec) of
        None \<Rightarrow> (Panic nil_dereference, w)
      | Some task \<Rightarrow>
          if ct_userLookupper c = NilIface then (Panic nil_dereference, w)
          else case wrapping ''get user %q: %w'' [ps_User spec]
                      (co_Lookup ops (proc_root (co_Pid ops task)) (ps_User spec)) w of
            (Err e, w') \<Rightarrow> (Err e, w')
          | (Panic p, w') \<Rightarrow> (Panic p, w')
          | (Ok u, w') \<Rightarrow>
              (case (if ps_ID spec = [] then co_NewUUID ops w' else (ps_ID spec, w')) of
                 (pid, w'') \<Rightarrow> (Ok (NewProcess pid (run_process ops c spec u) task), w'')))"

subsection \<open>Streams\<close>

definition container_StreamIn ::
  "('w, 'task, 'tar, 'stream) container_ops \<Rightarrow> 'task container \<Rightarrow> string \<Rightarrow> string \<Rightarrow> 'tar \<Rightarrow> ('w, unit) act" where
  "container_StreamIn ops c path user tar w =
     (if ct_log c = NilIface then (Panic nil_dereference, w)
      else case map_of (ct_taskMap c) ''app'' of
        None \<Rightarrow> (Panic nil_dereference, w)
      | Some task \<Rightarrow>
          if ct_nstar c = NilIface then (Panic nil_dereference, w)
          else case co_StreamIn ops (uint (co_Pid ops task)) path user tar w of
            (Some e, w') \<Rightarrow> (Err (ErrorfS ''stream-in: nstar: %s'' e), w')
          | (None, w') \<Rightarrow> (Ok (), w'))"

definition container_StreamOut ::
  "('w, 'task, 'tar, 'stream) container_ops \<Rightarrow> 'task container \<Rightarrow> string \<Rightarrow> string \<Rightarrow> ('w, 'stream) act" where
  "container_StreamOut ops c path user w =
     (if ct_log c = NilIface then (Panic nil_dereference, w)
      else case map_of (ct_taskMap c) ''app'' of
        None \<Rightarrow> (Panic nil_dereference, w)
      | Some task \<Rightarrow>
          if ct_nstar c = NilIface then (Panic nil_dereference, w)
          else case co_StreamOut ops (uint (co_Pid ops task)) path user w of
            (Err e, w') \<Rightarrow> (Err (ErrorfS ''stream-out: nstar: %s'' e), w')
          | (Ok stream, w') \<Rightarrow> (Ok stream, w')
          | (Panic p, w') \<Rightarrow> (Panic p, w'))"

subsection \<open>Properties\<close>

definition container_Properties :: "'pm property_ops \<Rightarrow> 'task container \<Rightarrow> 'pm \<Rightarrow> garden_properties res" where
  "container_Properties o' c s = pr_All o' s (container_Handle c)"

definition container_Property :: "'pm property_ops \<Rightarrow> 'task container \<Rightarrow> string \<Rightarrow> 'pm \<Rightarrow> string res" where
  "container_Property o' c name s =
     (case pr_Get o' s (container_Handle c) name of
        Some prop \<Rightarrow> Ok prop
      | None \<Rightarrow> Err (Errorf ''property does not exist: %s'' [name]))"

definition container_SetProperty ::
  "'pm property_ops \<Rightarrow> 'task container \<Rightarrow> string \<Rightarrow> string \<Rightarrow> 'pm \<Rightarrow> goerr option \<times> 'pm" where
  "container_SetProperty o' c name value s = (None, pr_Set o' s (container_Handle c) name value)"

definition container_RemoveProperty ::
  "'pm property_ops \<Rightarrow> 'task container \<Rightarrow> string \<Rightarrow> 'pm \<Rightarrow> goerr option \<times> 'pm" where
  "container_RemoveProperty o' c name s =
     (None, snd (pr_Remove o' s (container_Handle c) name))"

text \<open>\<open>grace_key\<close> is \<open>gardener.GraceTimeKey\<close>, \<open>t\<close> a duration in nanoseconds.\<close>

definition container_SetGraceTime ::
  "'pm property_ops \<Rightarrow> string \<Rightarrow> 'task container \<Rightarrow> i64 \<Rightarrow> 'pm \<Rightarrow> goerr option \<times> 'pm" where
  "container_SetGraceTime o' grace_key c t s =
     (None, pr_Set o' s (container_Handle c) grace_key (dec_int (sint t)))"

subsection \<open>Methods the source does not implement\<close>

datatype unimplemented_method =
    Attach | BulkNetOut | CurrentBandwidthLimits | CurrentCPULimits | CurrentDiskLimits
  | CurrentMemoryLimits | Metrics | NetIn | NetOut | Stop

definition container_unimplemented :: "unimplemented_method \<Rightarrow> unit res" where
  "container_unimplemented m = Panic ''unimplemented''"

end
