(* ===== verification/Kubelet.thy ===== *)
theory Kubelet
  imports Prelude
begin

section \<open>Metrics from the kubelet (pkg/k8sgarden/kubelet/client.go)\<close>

text \<open>
  \<open>GetMetrics\<close> reads the kubelet's stats summary and keeps, for each requested pod that has an
  \<open>app\<close> container, the figures of that container. The HTTP request, the decoder, the clock and
  the closing of the response body are parameters; a pointer field of the summary is an
  option. The locale \<open>metrics_source\<close> is the interface \<open>kubelet.Client\<close> as
  \<open>client.BulkMetrics\<close> relies on it.
\<close>

record cpu_stats =
  st_UsageCoreNanoSeconds :: "u64 option"

record memory_stats =
  st_WorkingSetBytes :: "u64 option"

record container_stats =
  st_Name :: string
  st_CPU :: "cpu_stats option"
  st_Memory :: "memory_stats option"

record fs_stats =
  st_UsedBytes :: "u64 option"

record network_stats =
  st_RxBytes :: "u64 option"
  st_TxBytes :: "u64 option"

record pod_stats =
  st_PodName :: string
  st_StartTime :: int
  st_Containers :: "container_stats list"
  st_EphemeralStorage :: "fs_stats option"
  st_Network :: "network_stats option"

record container_metrics =
  MemoryUsageInBytes :: u64
  DiskUsageInBytes :: u64
  TimeSpentInCPU :: i64
  ContainerAgeInNanoseconds :: u64
  RxInBytes :: "u64 option"
  TxInBytes :: "u64 option"

record 'body http_response =
  resp_StatusCode :: nat
  resp_Status :: string
  resp_Body :: 'body

record ('w, 'body) kubelet_deps =
  kd_Get :: "string \<Rightarrow> ('w, 'body http_response) act"
  kd_Close :: "'body \<Rightarrow> 'w \<Rightarrow> goerr option \<times> 'w"
  kd_Decode :: "'body \<Rightarrow> pod_stats list res"
  kd_Now :: "'w \<Rightarrow> int \<times> 'w"

definition summaryPath :: string where
  "summaryPath = ''/stats/summary''"

record kubelet_client =
  kc_host :: string
  kc_path :: string

text \<open>\<open>net.JoinHostPort\<close>: an address with a colon is an IPv6 literal.\<close>

definition JoinHostPort :: "string \<Rightarrow> string \<Rightarrow> string" where
  "JoinHostPort host port =
     (if CHR '':'' \<in> set host then ''['' @ host @ '']:'' @ port
      else host @ '':'' @ port)"

definition kubelet_NewClient :: "string \<Rightarrow> string \<Rightarrow> kubelet_client" where
  "kubelet_NewClient address port = \<lparr>kc_host = JoinHostPort address port, kc_path = summaryPath\<rparr>"

definition kubelet_url :: "kubelet_client \<Rightarrow> string" where
  "kubelet_url kc = ''https://'' @ kc_host kc @ kc_path kc"

fun getAppContainerStats :: "container_stats list \<Rightarrow> container_stats option" where
  "getAppContainerStats [] = None"
| "getAppContainerStats (c # cs) = (if st_Name c = ''app'' then Some c else getAppContainerStats cs)"

text \<open>
  \<open>time.Since\<close> in nanoseconds, saturating as \<open>time.Duration\<close> does, and its conversion to
  \<open>uint64\<close>.
\<close>

definition since_ns :: "int \<Rightarrow> int \<Rightarrow> int" where
  "since_ns now start = max (- (2 ^ 63)) (min (2 ^ 63 - 1) (now - start))"

definition zero_metrics :: container_metrics where
  "zero_metrics = \<lparr>MemoryUsageInBytes = 0, DiskUsageInBytes = 0, TimeSpentInCPU = 0,
     ContainerAgeInNanoseconds = 0, RxInBytes = None, TxInBytes = None\<rparr>"

text \<open>One pod: the statements of the loop body after the two \<open>continue\<close>s.\<close>

definition metrics_point :: "pod_stats \<Rightarrow> container_stats \<Rightarrow> int \<Rightarrow> container_metrics" where
  "metrics_point ps cs now =
     (let m0 = zero_metrics\<lparr>ContainerAgeInNanoseconds := word_of_int (since_ns now (st_StartTime ps))\<rparr>;
          m1 = (case st_CPU cs of
                  Some c \<Rightarrow> (case st_UsageCoreNanoSeconds c of
                               Some n \<Rightarrow> m0\<lparr>TimeSpentInCPU := n\<rparr> | None \<Rightarrow> m0)
                | None \<Rightarrow> m0);
          m2 = (case st_Memory cs of
                  Some m \<Rightarrow> (case st_WorkingSetBytes m of
                               Some n \<Rightarrow> m1\<lparr>MemoryUsageInBytes := n\<rparr> | None \<Rightarrow> m1)
                | None \<Rightarrow> m1);
          m3 = (case st_EphemeralStorage ps of
                  Some f \<Rightarrow> (case st_UsedBytes f of
                               Some n \<Rightarrow> m2\<lparr>DiskUsageInBytes := n\<rparr> | None \<Rightarrow> m2)
                | None \<Rightarrow> m2)
      in case st_Network ps of
           None \<Rightarrow> m3
         | Some nw \<Rightarrow>
             let m4 = (case st_RxBytes nw of Some n \<Rightarrow> m3\<lparr>RxInBytes := Some n\<rparr> | None \<Rightarrow> m3)
             in (case st_TxBytes nw of Some n \<Rightarrow> m4\<lparr>TxInBytes := Some n\<rparr> | None \<Rightarrow> m4))"

fun toContainerMetrics ::
  "('w \<Rightarrow> int \<times> 'w) \<Rightarrow> string list \<Rightarrow> pod_stats list \<Rightarrow> (string, container_metrics) gomap \<Rightarrow> 'w \<Rightarrow>
   (string, container_metrics) gomap \<times> 'w" where
  "toContainerMetrics now_op guids [] m w = (m, w)"
| "toContainerMetrics now_op guids (ps # pss) m w =
     (if st_PodName ps \<notin> set guids then toContainerMetrics now_op guids pss m w
      else case getAppContainerStats (st_Containers ps) of
        None \<Rightarrow> toContainerMetrics now_op guids pss m w
      | Some cs \<Rightarrow>
          (case now_op w of
             (now, w') \<Rightarrow>
               toContainerMetrics now_op guids pss (gm_put (st_PodName ps) (metrics_point ps cs now) m) w'))"

text \<open>
  The deferred function: it closes the body on every way out, also when the function panics, and
  does not change the outcome; what \<open>Close\<close> returns is only logged.
\<close>

definition close_after ::
  "('w, 'body) kubelet_deps \<Rightarrow> 'body \<Rightarrow> 'a res \<times> 'w \<Rightarrow> 'a res \<times> 'w" where
  "close_after d body rw = (fst rw, snd (kd_Close d body (snd rw)))"

definition GetMetrics ::
  "('w, 'body) kubelet_deps \<Rightarrow> kubelet_client \<Rightarrow> string list \<Rightarrow> ('w, (string, container_metrics) gomap) act" where
  "GetMetrics d kc guids =
     andthen (kd_Get d (kubelet_url kc)) (\<lambda>response w.
       close_after d (resp_Body response)
         (if resp_StatusCode response \<noteq> 200
          then (Err (Errorf ''request failed, status: %q'' [resp_Status response]), w)
          else case kd_Decode d (resp_Body response) of
            Err e \<Rightarrow> (Err e, w)
          | Panic p \<Rightarrow> (Panic p, w)
          | Ok pods \<Rightarrow> (case toContainerMetrics (kd_Now d) guids pods [] w of (m, w') \<Rightarrow> (Ok m, w'))))"

subsection \<open>What the summary is turned into\<close>

lemma getAppContainerStats_Some:
  "getAppContainerStats cs = Some c \<Longrightarrow> c \<in> set cs \<and> st_Name c = ''app''"
  by (induction cs) (auto split: if_splits)

lemma getAppContainerStats_None:
  "getAppContainerStats cs = None \<longleftrightarrow> (\<forall>c \<in> set cs. st_Name c \<noteq> ''app'')"
  by (induction cs) auto

lemma toContainerMetrics_wf:
  "gm_wf m \<Longrightarrow> gm_wf (fst (toContainerMetrics now_op guids pss m w))"
  by (induction now_op guids pss m w rule: toContainerMetrics.induct) (auto split: option.split prod.split)

text \<open>The pods the loop keeps.\<close>

definition selected :: "string list \<Rightarrow> pod_stats \<Rightarrow> bool" where
  "selected guids ps \<longleftrightarrow>
     st_PodName ps \<in> set guids \<and> (\<exists>c \<in> set (st_Containers ps). st_Name c = ''app'')"

lemma dom_toContainerMetrics:
  "dom (map_of (fst (toContainerMetrics now_op guids pss m w))) =
     dom (map_of m) \<union> {st_PodName ps | ps. ps \<in> set pss \<and> selected guids ps}"
proof (induction now_op guids pss m w rule: toContainerMetrics.induct)
  case (1 now_op guids m w)
  then show ?case by simp
next
  case (2 now_op guids ps pss m w)
  show ?case
  proof (cases "selected guids ps")
    case True
    then obtain cs where "getAppContainerStats (st_Containers ps) = Some cs" "st_PodName ps \<in> set guids"
      using getAppContainerStats_None [of "st_Containers ps"]
      by (cases "getAppContainerStats (st_Containers ps)") (auto simp: selected_def)
    moreover obtain now w' where now: "now_op w = (now, w')" by (cases "now_op w")
    ultimately have step: "toContainerMetrics now_op guids (ps # pss) m w =
         toContainerMetrics now_op guids pss (gm_put (st_PodName ps) (metrics_point ps cs now) m) w'"
      and in_guids: "\<not> st_PodName ps \<notin> set guids"
      and app: "getAppContainerStats (st_Containers ps) = Some cs" by simp_all
    have "{st_PodName q | q. q \<in> set (ps # pss) \<and> selected guids q} =
        insert (st_PodName ps) {st_PodName q | q. q \<in> set pss \<and> selected guids q}"
      using True by auto
    with "2.IH"(3) [OF in_guids app now [symmetric]] step show ?thesis
      by (simp only: dom_gm_put) simp
  next
    case False
    then have *: "st_PodName ps \<in> set guids \<Longrightarrow> getAppContainerStats (st_Containers ps) = None"
      by (auto simp: getAppContainerStats_None selected_def)
    have "fst (toContainerMetrics now_op guids (ps # pss) m w) = fst (toContainerMetrics now_op guids pss m w)"
      using * by auto
    moreover have "{st_PodName q | q. q \<in> set (ps # pss) \<and> selected guids q} =
        {st_PodName q | q. q \<in> set pss \<and> selected guids q}"
      using False by auto
    ultimately show ?thesis using 2 * by (cases "st_PodName ps \<in> set guids") auto
  qed
qed

subsection \<open>The interface BulkMetrics relies on\<close>

locale metrics_source =
  fixes get_metrics :: "string list \<Rightarrow> 'w \<Rightarrow> (string, container_metrics) gomap res \<times> 'w"
  assumes only_requested: "get_metrics hs w = (Ok m, w') \<Longrightarrow> dom (map_of m) \<subseteq> set hs"
    and metrics_wf: "get_metrics hs w = (Ok m, w') \<Longrightarrow> gm_wf m"
begin

lemma entry_requested: "get_metrics hs w = (Ok m, w') \<Longrightarrow> (h, x) \<in> set m \<Longrightarrow> h \<in> set hs"
  using only_requested [of hs w m w'] metrics_wf [of hs w m w'] by (auto simp: gm_entry_iff)

lemma nothing_requested: "get_metrics [] w = (Ok m, w') \<Longrightarrow> m = []"
  using entry_requested [of "[]" w m w'] by (cases m) auto

end

lemma GetMetrics_Ok:
  assumes "GetMetrics d kc guids w = (Ok m, w')"
  obtains pods w1 where "m = fst (toContainerMetrics (kd_Now d) guids pods [] w1)"
  using assms unfolding GetMetrics_def andthen_Ok_iff close_after_def
  by (auto split: if_splits res.splits prod.splits elim: that) (metis fst_conv that)

interpretation kubelet: metrics_source "GetMetrics d kc" for d :: "('w, 'body) kubelet_deps" and kc
proof unfold_locales
  fix hs w m w'
  assume "GetMetrics d kc hs w = (Ok m, w')"
  then obtain pods w1 where m: "m = fst (toContainerMetrics (kd_Now d) hs pods [] w1)"
    by (rule GetMetrics_Ok)
  show "dom (map_of m) \<subseteq> set hs"
    by (auto simp: m dom_toContainerMetrics selected_def)
  show "gm_wf m" unfolding m by (rule toContainerMetrics_wf) simp
qed

subsection \<open>Properties\<close>

text \<open>Where each entry of the result comes from.\<close>

lemma toContainerMetrics_entry:
  "map_of (fst (toContainerMetrics now_op guids pss m w)) h = Some x \<Longrightarrow> map_of m h = Some x \<or>
     (\<exists>ps \<in> set pss. \<exists>cs n. st_PodName ps = h \<and> h \<in> set guids \<and>
        getAppContainerStats (st_Containers ps) = Some cs \<and>
        x = metrics_point ps cs (fst (now_op (((snd \<circ> now_op) ^^ n) w))))"
proof (induction now_op guids pss m w rule: toContainerMetrics.induct)
  case (2 now_op guids ps pss m w)
  show ?case
  proof (cases "st_PodName ps \<in> set guids")
    case False
    with "2.IH"(1) "2.prems" show ?thesis by auto
  next
    case in_guids: True
    show ?thesis
    proof (cases "getAppContainerStats (st_Containers ps)")
      case None
      with in_guids "2.IH"(2) "2.prems" show ?thesis by auto
    next
      case (Some cs)
      obtain now w' where now: "now_op w = (now, w')" by (cases "now_op w")
      from "2.prems" in_guids Some now have
        "map_of (fst (toContainerMetrics now_op guids pss (gm_put (st_PodName ps) (metrics_point ps cs now) m) w')) h = Some x"
        by simp
      then consider (old) "map_of (gm_put (st_PodName ps) (metrics_point ps cs now) m) h = Some x"
        | (new) ps' cs' n where "ps' \<in> set pss" "st_PodName ps' = h" "h \<in> set guids"
          "getAppContainerStats (st_Containers ps') = Some cs'"
          "x = metrics_point ps' cs' (fst (now_op (((snd \<circ> now_op) ^^ n) w')))"
        using "2.IH"(3) [OF _ Some now [symmetric]] in_guids by blast
      then show ?thesis
      proof cases
        case old
        show ?thesis
        proof (cases "h = st_PodName ps")
          case True
          with old now have "x = metrics_point ps cs (fst (now_op (((snd \<circ> now_op) ^^ 0) w)))" by simp
          with True in_guids Some show ?thesis by (metis list.set_intros(1))
        next
          case False
          with old show ?thesis by simp
        qed
      next
        case new
        from new(5) now have "x = metrics_point ps' cs' (fst (now_op (((snd \<circ> now_op) ^^ Suc n) w)))"
          by (simp add: funpow_swap1)
        with new show ?thesis by (metis list.set_intros(2))
      qed
    qed
  qed
qed simp

lemma getAppContainerStats_first:
  "getAppContainerStats cs = Some c \<Longrightarrow>
   \<exists>others rest. cs = others @ c # rest \<and> st_Name c = ''app'' \<and> (\<forall>c' \<in> set others. st_Name c' \<noteq> ''app'')"
proof (induction cs)
  case (Cons x cs)
  show ?case
  proof (cases "st_Name x = ''app''")
    case True
    with Cons.prems show ?thesis by (intro exI [of _ "[]"] exI [of _ cs]) simp
  next
    case False
    with Cons obtain others rest where
      "cs = others @ c # rest" "st_Name c = ''app''" "\<forall>c' \<in> set others. st_Name c' \<noteq> ''app''" by auto
    with False show ?thesis by (intro exI [of _ "x # others"] exI [of _ rest]) simp
  qed
qed simp

text \<open>The figures of a pod whose app container is \<open>cs\<close>, at the time \<open>now\<close>: a value that is not
  reported is 0, or absent for the network.\<close>

definition reported :: "'a option \<Rightarrow> ('a \<Rightarrow> 'b::zero option) \<Rightarrow> 'b" where
  "reported x f = (case Option.bind x f of None \<Rightarrow> 0 | Some n \<Rightarrow> n)"

definition figures_of :: "pod_stats \<Rightarrow> container_stats \<Rightarrow> int \<Rightarrow> container_metrics \<Rightarrow> bool" where
  "figures_of ps cs now x \<longleftrightarrow>
     TimeSpentInCPU x = reported (st_CPU cs) st_UsageCoreNanoSeconds \<and>
     MemoryUsageInBytes x = reported (st_Memory cs) st_WorkingSetBytes \<and>
     DiskUsageInBytes x = reported (st_EphemeralStorage ps) st_UsedBytes \<and>
     RxInBytes x = Option.bind (st_Network ps) st_RxBytes \<and>
     TxInBytes x = Option.bind (st_Network ps) st_TxBytes \<and>
     ContainerAgeInNanoseconds x = word_of_int (max (- (2 ^ 63)) (min (2 ^ 63 - 1) (now - st_StartTime ps)))"

lemma nested_bind:
  "(case x of Some c \<Rightarrow> (case g c of Some n \<Rightarrow> u n | None \<Rightarrow> m) | None \<Rightarrow> m) =
   (case Option.bind x g of Some n \<Rightarrow> u n | None \<Rightarrow> m)"
  by (cases x) simp_all

lemma metrics_point_figures: "figures_of ps cs now (metrics_point ps cs now)"
  unfolding figures_of_def metrics_point_def nested_bind reported_def zero_metrics_def since_ns_def
  by (cases "Option.bind (st_CPU cs) st_UsageCoreNanoSeconds"; cases "Option.bind (st_Memory cs) st_WorkingSetBytes";
      cases "Option.bind (st_EphemeralStorage ps) st_UsedBytes"; cases "st_Network ps")
    (simp_all add: Let_def split: option.split)

text \<open>C30: A successful \<open>GetMetrics\<close> has an entry for exactly the requested pods of the summary
  that have a container \<open>app\<close>. Each entry has the figures of one of the summary's entries for that
  pod: CPU and memory of its first container \<open>app\<close>, storage and network of the pod, 0 or nothing
  where the kubelet reports none, and the age of the pod on the clock, as one of
  \<open>GetMetrics\<close>'s readings of it gives. The last thing
  \<open>GetMetrics\<close> does is to close the body of the response.\<close>

theorem GetMetrics_entries:
  assumes "kd_Get d (kubelet_url kc) w = (Ok response, w1)" and "resp_StatusCode response = 200"
    and "kd_Decode d (resp_Body response) = Ok pods"
  shows "\<exists>m w'. GetMetrics d kc guids w = (Ok m, w') \<and> gm_wf m \<and>
     dom (map_of m) = {st_PodName ps | ps. ps \<in> set pods \<and> selected guids ps} \<and>
     (\<forall>(h, x) \<in> set m. \<exists>ps \<in> set pods. \<exists>others cs rest n. st_PodName ps = h \<and>
        st_Containers ps = others @ cs # rest \<and> st_Name cs = ''app'' \<and>
        (\<forall>c' \<in> set others. st_Name c' \<noteq> ''app'') \<and> figures_of ps cs (fst (kd_Now d (((snd \<circ> kd_Now d) ^^ n) w1))) x) \<and>
     w' = snd (kd_Close d (resp_Body response) (snd (toContainerMetrics (kd_Now d) guids pods [] w1)))"
proof -
  obtain m w2 where conv: "toContainerMetrics (kd_Now d) guids pods [] w1 = (m, w2)"
    by (metis prod.exhaust)
  let ?w' = "snd (kd_Close d (resp_Body response) w2)"
  have "GetMetrics d kc guids w = (Ok m, ?w')"
    using assms conv by (simp add: GetMetrics_def close_after_def)
  moreover have wf: "gm_wf m" using toContainerMetrics_wf [of "[]" "kd_Now d" guids pods w1] conv by simp
  moreover have "dom (map_of m) = {st_PodName ps | ps. ps \<in> set pods \<and> selected guids ps}"
    using dom_toContainerMetrics [of "kd_Now d" guids pods "[]" w1] conv by simp
  moreover have "\<exists>ps \<in> set pods. \<exists>others cs rest n. st_PodName ps = h \<and>
        st_Containers ps = others @ cs # rest \<and> st_Name cs = ''app'' \<and>
        (\<forall>c' \<in> set others. st_Name c' \<noteq> ''app'') \<and> figures_of ps cs (fst (kd_Now d (((snd \<circ> kd_Now d) ^^ n) w1))) x"
    if "(h, x) \<in> set m" for h x
  proof -
    from that wf have "map_of (fst (toContainerMetrics (kd_Now d) guids pods [] w1)) h = Some x"
      by (simp add: conv gm_entry_iff)
    from toContainerMetrics_entry [OF this] obtain ps cs n where
      "ps \<in> set pods" "st_PodName ps = h" "getAppContainerStats (st_Containers ps) = Some cs"
      "x = metrics_point ps cs (fst (kd_Now d (((snd \<circ> kd_Now d) ^^ n) w1)))" by auto
    with getAppContainerStats_first metrics_point_figures show ?thesis by blast
  qed
  ultimately show ?thesis unfolding conv by auto
qed

definition sample_kubelet :: "(nat, pod_stats list) kubelet_deps" where
  "sample_kubelet = \<lparr>kd_Get = (\<lambda>url w. (Ok \<lparr>resp_StatusCode = 200, resp_Status = ''200 OK'',
        resp_Body = [\<lparr>st_PodName = ''h1'', st_StartTime = 5,
           st_Containers = [\<lparr>st_Name = ''app'', st_CPU = Some \<lparr>st_UsageCoreNanoSeconds = Some 9\<rparr>,
             st_Memory = Some \<lparr>st_WorkingSetBytes = Some 7\<rparr>\<rparr>],
           st_EphemeralStorage = Some \<lparr>st_UsedBytes = Some 4\<rparr>,
           st_Network = Some \<lparr>st_RxBytes = Some 2, st_TxBytes = None\<rparr>\<rparr>]\<rparr>, w)),
     kd_Close = (\<lambda>body w. (None, w)), kd_Decode = Ok, kd_Now = (\<lambda>w. (int w, w))\<rparr>"

theorem GetMetrics_entries_witness:
  "\<exists>m w' x. GetMetrics sample_kubelet (kubelet_NewClient ''10.0.0.1'' ''10250'') [''h1''] 8 = (Ok m, w') \<and>
     dom (map_of m) = {''h1''} \<and> (''h1'', x) \<in> set m \<and> TimeSpentInCPU x = 9 \<and> MemoryUsageInBytes x = 7 \<and>
     DiskUsageInBytes x = 4 \<and> RxInBytes x = Some 2 \<and> TxInBytes x = None \<and>
     ContainerAgeInNanoseconds x = 3"
proof -
  let ?kc = "kubelet_NewClient ''10.0.0.1'' ''10250''"
  let ?resp = "case fst (kd_Get sample_kubelet [] 8) of Ok r \<Rightarrow> r" and ?pods = "resp_Body (case fst (kd_Get sample_kubelet [] 8) of Ok r \<Rightarrow> r)"
  have get: "kd_Get sample_kubelet (kubelet_url ?kc) 8 = (Ok ?resp, 8)" "resp_StatusCode ?resp = 200"
    "kd_Decode sample_kubelet (resp_Body ?resp) = Ok ?pods" by (simp_all add: sample_kubelet_def)
  have sel: "{st_PodName ps | ps. ps \<in> set ?pods \<and> selected [''h1''] ps} = {''h1''}"
    by (auto simp: sample_kubelet_def selected_def)
  obtain m w' where
    m: "GetMetrics sample_kubelet ?kc [''h1''] 8 = (Ok m, w')" "dom (map_of m) = {''h1''}" and
    entries: "\<forall>(h, x) \<in> set m. \<exists>ps \<in> set ?pods. \<exists>others cs rest n. st_PodName ps = h \<and>
        st_Containers ps = others @ cs # rest \<and> st_Name cs = ''app'' \<and>
        (\<forall>c' \<in> set others. st_Name c' \<noteq> ''app'') \<and> figures_of ps cs (fst (kd_Now sample_kubelet (((snd \<circ> kd_Now sample_kubelet) ^^ n) 8))) x"
    using GetMetrics_entries [OF get, of "[''h1'']"] unfolding sel by (elim exE conjE) (rule that)
  from m(2) have "''h1'' \<in> dom (map_of m)" by simp
  then obtain x where x: "(''h1'', x) \<in> set m" by (auto dest: map_of_SomeD)
  with entries obtain ps others cs rest n where ps: "ps \<in> set ?pods" "st_Containers ps = others @ cs # rest"
    and f: "figures_of ps cs (fst (kd_Now sample_kubelet (((snd \<circ> kd_Now sample_kubelet) ^^ n) 8))) x" by blast
  have clock: "((snd \<circ> kd_Now sample_kubelet) ^^ n) 8 = 8" by (induction n) (simp_all add: sample_kubelet_def)
  from ps have "others = []" by (auto simp: sample_kubelet_def Cons_eq_append_conv)
  with ps f have "TimeSpentInCPU x = 9 \<and> MemoryUsageInBytes x = 7 \<and>
     DiskUsageInBytes x = 4 \<and> RxInBytes x = Some 2 \<and> TxInBytes x = None \<and> ContainerAgeInNanoseconds x = 3"
    unfolding clock by (auto simp: sample_kubelet_def figures_of_def reported_def)
  with m x show ?thesis by blast
qed

end
