(* ===== verification/Containerd.thy ===== *)
theory Containerd
  imports Garden
begin

section \<open>The containerd client (pkg/k8sgarden/containerd/client.go)\<close>

text \<open>
  \<open>clientWrapper\<close> loads the tasks of a pod's containers and pulls images, measuring their
  size through a temporary snapshot view. The containerd library is the record
  \<open>containerd_lib\<close>. The calls of \<open>Pull\<close> are traced (\<open>ctrd_call\<close>), so that the
  deferred removal of the view is visible. \<open>containerd_client\<close> is the Go interface
  \<open>Client\<close> and \<open>NewClientWrapper\<close> its implementation; the locale \<open>task_loader\<close> is
  what \<open>client.Create\<close> relies on.
\<close>

datatype ctrd_call =
    CallPull | CallRootFS | CallNow | CallView string | CallMount | CallRemove string

record ('w, 'cntr, 'task, 'img, 'target, 'mounts) containerd_lib =
  cw_IsServing :: "('w, bool) act"
  cw_LoadContainer :: "string \<Rightarrow> ('w, 'cntr) act"
  cw_Task :: "'cntr \<Rightarrow> ('w, 'task) act"
  cw_ParseNormalizedNamed :: "string \<Rightarrow> string res"
  cw_Pull :: "string \<Rightarrow> (string \<times> string) option \<Rightarrow> ('w, 'img) act"
  cw_RootFS :: "'img \<Rightarrow> ('w, string list) act"
  cw_ChainID :: "string list \<Rightarrow> string"
  cw_NowUnixNano :: "'w \<Rightarrow> int \<times> 'w"
  cw_View :: "string \<Rightarrow> string \<Rightarrow> ('w, 'mounts) act"
  cw_RemoveSnapshot :: "string \<Rightarrow> 'w \<Rightarrow> unit \<times> 'w"
  cw_WithTempMount :: "'mounts \<Rightarrow> (string \<Rightarrow> i64 \<times> 'w \<Rightarrow> goerr option \<times> i64 \<times> 'w) \<Rightarrow>
                       i64 \<times> 'w \<Rightarrow> goerr option \<times> i64 \<times> 'w"
  cw_DiskUsage :: "string \<Rightarrow> 'w \<Rightarrow> (goerr + i64) \<times> 'w"
  cw_ImageName :: "'img \<Rightarrow> string"
  cw_ImageTarget :: "'img \<Rightarrow> 'target"
  cw_ImageDelete :: "string \<Rightarrow> 'target \<Rightarrow> 'w \<Rightarrow> goerr option \<times> 'w"

text \<open>The Go interface \<open>Client\<close>.\<close>

record ('w, 'task, 'img) containerd_client =
  ctrd_IsServing :: "('w, bool) act"
  ctrd_LoadTasks :: "container_status list \<Rightarrow> ('w, (string, 'task) gomap) act"
  ctrd_Pull :: "string \<Rightarrow> string \<Rightarrow> string \<Rightarrow> ('w, 'img \<times> i64) act"
  ctrd_Delete :: "'img \<Rightarrow> 'w \<Rightarrow> goerr option \<times> 'w"

subsection \<open>LoadTasks\<close>

definition containerd_id :: "container_status \<Rightarrow> string" where
  "containerd_id st = fst (CutPrefix (cs_ContainerID st) ''containerd://'')"

fun load_tasks_loop ::
  "('w, 'cntr, 'task, 'img, 'target, 'mounts) containerd_lib \<Rightarrow> container_status list \<Rightarrow>
   (string, 'task) gomap \<Rightarrow> ('w, (string, 'task) gomap) act" where
  "load_tasks_loop api [] m w = (Ok m, w)"
| "load_tasks_loop api (st # sts) m w =
     andthen (cw_LoadContainer api (containerd_id st)) (\<lambda>cntr.
       andthen (cw_Task api cntr) (\<lambda>task.
         load_tasks_loop api sts (gm_put (cs_Name st) task m))) w"

definition LoadTasks ::
  "('w, 'cntr, 'task, 'img, 'target, 'mounts) containerd_lib \<Rightarrow> container_status list \<Rightarrow>
   ('w, (string, 'task) gomap) act" where
  "LoadTasks api statuses = load_tasks_loop api statuses []"

subsection \<open>Pull\<close>

definition pull_credentials :: "string \<Rightarrow> string \<Rightarrow> (string \<times> string) option" where
  "pull_credentials username password =
     (if username \<noteq> [] \<and> password \<noteq> [] then Some (username, password) else None)"

text \<open>The callback given to \<open>WithTempMount\<close>, which assigns the captured \<open>totalSize\<close>.\<close>

definition disk_usage_callback ::
  "('w, 'cntr, 'task, 'img, 'target, 'mounts) containerd_lib \<Rightarrow> string \<Rightarrow> i64 \<times> 'w \<Rightarrow> goerr option \<times> i64 \<times> 'w" where
  "disk_usage_callback api dir s =
     (case s of (totalSize, w) \<Rightarrow>
        (case cw_DiskUsage api dir w of
           (Inr usage, w') \<Rightarrow> (None, usage, w')
         | (Inl e, w') \<Rightarrow> (Some e, totalSize, w')))"

definition measure_mounts ::
  "('w, 'cntr, 'task, 'img, 'target, 'mounts) containerd_lib \<Rightarrow> 'mounts \<Rightarrow> ('w, i64) act" where
  "measure_mounts api mounts w =
     (case cw_WithTempMount api mounts (disk_usage_callback api) (0, w) of
        (Some e, totalSize, w') \<Rightarrow> (Err (ErrorfW ''failed to calculate mounted size: %w'' [] e), w')
      | (None, totalSize, w') \<Rightarrow> (Ok totalSize, w'))"

text \<open>\<open>defer snapshotter.Remove\<close>: run on every way out of the rest of the function.\<close>

definition defer_remove ::
  "('w, 'cntr, 'task, 'img, 'target, 'mounts) containerd_lib \<Rightarrow> string \<Rightarrow>
   ((ctrd_call, 'w) traced, 'a) act \<Rightarrow> ((ctrd_call, 'w) traced, 'a) act" where
  "defer_remove api viewKey body st =
     (case body st of (r, st') \<Rightarrow>
        (r, snd (call (CallRemove viewKey) (cw_RemoveSnapshot api viewKey) st')))"

definition view_key :: "int \<Rightarrow> string" where
  "view_key now = ''temp-view-'' @ dec_int now"

definition measure_image ::
  "('w, 'cntr, 'task, 'img, 'target, 'mounts) containerd_lib \<Rightarrow> 'img \<Rightarrow> string list \<Rightarrow>
   ((ctrd_call, 'w) traced, 'img \<times> i64) act" where
  "measure_image api img diffIDs st =
     (case call CallNow (cw_NowUnixNano api) st of (now, st1) \<Rightarrow>
        andthen (wrapping ''failed to create view snapshot: %w'' []
                  (call (CallView (view_key now)) (cw_View api (view_key now) (cw_ChainID api diffIDs))))
          (\<lambda>mounts. defer_remove api (view_key now)
             (andthen (call CallMount (measure_mounts api mounts)) (\<lambda>totalSize. return_ok (img, totalSize)))) st1)"

definition Pull ::
  "('w, 'cntr, 'task, 'img, 'target, 'mounts) containerd_lib \<Rightarrow> string \<Rightarrow> string \<Rightarrow> string \<Rightarrow>
   ((ctrd_call, 'w) traced, 'img \<times> i64) act" where
  "Pull api ref username password st =
     (case cw_ParseNormalizedNamed api ref of
        Err e \<Rightarrow> (Err e, st)
      | Panic p \<Rightarrow> (Panic p, st)
      | Ok normalizedRef \<Rightarrow>
          andthen (call CallPull (cw_Pull api normalizedRef (pull_credentials username password))) (\<lambda>img.
            andthen (wrapping ''failed to get rootfs: %w'' [] (call CallRootFS (cw_RootFS api img)))
              (\<lambda>diffIDs. measure_image api img diffIDs)) st)"

subsection \<open>IsServing, Delete and the interface value\<close>

definition untraced :: "('w \<Rightarrow> 'r \<times> 'w) \<Rightarrow> ('e, 'w) traced \<Rightarrow> 'r \<times> ('e, 'w) traced" where
  "untraced f st = (case f (snd st) of (r, w') \<Rightarrow> (r, (fst st, w')))"

definition IsServing ::
  "('w, 'cntr, 'task, 'img, 'target, 'mounts) containerd_lib \<Rightarrow> ('w, bool) act" where
  "IsServing api = cw_IsServing api"

definition Delete ::
  "('w, 'cntr, 'task, 'img, 'target, 'mounts) containerd_lib \<Rightarrow> 'img \<Rightarrow> 'w \<Rightarrow> goerr option \<times> 'w" where
  "Delete api img = cw_ImageDelete api (cw_ImageName api img) (cw_ImageTarget api img)"

definition NewClientWrapper ::
  "('w, 'cntr, 'task, 'img, 'target, 'mounts) containerd_lib \<Rightarrow>
   ((ctrd_call, 'w) traced, 'task, 'img) containerd_client" where
  "NewClientWrapper api =
     \<lparr>ctrd_IsServing = untraced (IsServing api),
      ctrd_LoadTasks = (\<lambda>statuses. untraced (LoadTasks api statuses)),
      ctrd_Pull = Pull api,
      ctrd_Delete = (\<lambda>img. untraced (Delete api img))\<rparr>"

subsection \<open>The tasks that are loaded\<close>

lemma load_tasks_loop_Ok:
  "load_tasks_loop api sts m w = (Ok m', w') \<Longrightarrow>
     (gm_wf m \<longrightarrow> gm_wf m') \<and> dom (map_of m') = dom (map_of m) \<union> cs_Name ` set sts"
proof (induction api sts m w arbitrary: m' w' rule: load_tasks_loop.induct)
  case (2 api st sts m w)
  then obtain cntr w1 task w2 where
    "load_tasks_loop api sts (gm_put (cs_Name st) task m) w2 = (Ok m', w')"
    by (auto simp: andthen_Ok_iff)
  from "2.IH" [OF this] show ?case by (auto simp: dom_gm_put simp del: map_of_gm_put)
qed simp

locale task_loader =
  fixes load_tasks :: "container_status list \<Rightarrow> 'w \<Rightarrow> (string, 'task) gomap res \<times> 'w"
  assumes loaded_names: "load_tasks sts w = (Ok m, w') \<Longrightarrow> dom (map_of m) = cs_Name ` set sts"
    and loaded_wf: "load_tasks sts w = (Ok m, w') \<Longrightarrow> gm_wf m"
begin

lemma task_of_status:
  "load_tasks sts w = (Ok m, w') \<Longrightarrow> st \<in> set sts \<Longrightarrow> \<exists>task. map_of m (cs_Name st) = Some task"
  using loaded_names [of sts w m w'] by (metis domD imageI)

end

interpretation ctrd: task_loader "ctrd_LoadTasks (NewClientWrapper api)"
  for api :: "('w, 'cntr, 'task, 'img, 'target, 'mounts) containerd_lib"
proof unfold_locales
  fix sts m and st st' :: "(ctrd_call, 'w) traced"
  assume "ctrd_LoadTasks (NewClientWrapper api) sts st = (Ok m, st')"
  then have "load_tasks_loop api sts [] (snd st) = (Ok m, snd st')"
    by (auto simp: NewClientWrapper_def untraced_def LoadTasks_def split: prod.splits)
  from load_tasks_loop_Ok [OF this]
  show "dom (map_of m) = cs_Name ` set sts" "gm_wf m" by simp_all
qed

subsection \<open>The temporary view\<close>

text \<open>The calls of a pull that got past the creation of the view, whatever its result.\<close>

definition viewed_run :: "string \<Rightarrow> ctrd_call list" where
  "viewed_run k = [CallPull, CallRootFS, CallNow, CallView k, CallMount, CallRemove k]"

subsection \<open>A library for the examples\<close>

definition sample_lib :: "(nat, string, string, string, string, string) containerd_lib" where
  "sample_lib = \<lparr>cw_IsServing = return_ok True, cw_LoadContainer = (\<lambda>i. return_ok i),
     cw_Task = (\<lambda>c. return_ok c), cw_ParseNormalizedNamed = (\<lambda>r. Ok r),
     cw_Pull = (\<lambda>r cred. return_ok r), cw_RootFS = (\<lambda>i. return_ok []), cw_ChainID = (\<lambda>d. ''chain''),
     cw_NowUnixNano = (\<lambda>w. (int w, w)), cw_View = (\<lambda>k c. return_ok k),
     cw_RemoveSnapshot = (\<lambda>k w. ((), w)), cw_WithTempMount = (\<lambda>m f s. f m s),
     cw_DiskUsage = (\<lambda>d w. (Inr 4096, w)), cw_ImageName = (\<lambda>i. i), cw_ImageTarget = (\<lambda>i. i),
     cw_ImageDelete = (\<lambda>n t w. (None, w))\<rparr>"

lemma sample_pull:
  "Pull sample_lib ''img'' [] [] ([], 5) = (Ok (''img'', 4096), (viewed_run (view_key 5), 5))"
  by (simp add: Pull_def sample_lib_def call_eq andthen_def wrapping_def return_ok_def measure_image_def
      defer_remove_def measure_mounts_def disk_usage_callback_def viewed_run_def)

subsection \<open>Properties\<close>

text \<open>The view \<open>k\<close> is created: everything up to its creation, and the creation, has succeeded.\<close>

definition view_created ::
  "('w, 'cntr, 'task, 'img, 'target, 'mounts) containerd_lib \<Rightarrow> string \<Rightarrow> string \<Rightarrow> string \<Rightarrow> 'w \<Rightarrow> string \<Rightarrow> bool" where
  "view_created api ref username password w k \<longleftrightarrow>
     (\<exists>nref img w1 ids w2 now w3 mounts w4. cw_ParseNormalizedNamed api ref = Ok nref \<and>
        cw_Pull api nref (pull_credentials username password) w = (Ok img, w1) \<and>
        cw_RootFS api img w1 = (Ok ids, w2) \<and> cw_NowUnixNano api w2 = (now, w3) \<and> k = view_key now \<and>
        cw_View api k (cw_ChainID api ids) w3 = (Ok mounts, w4))"

lemma measure_image_view:
  assumes "measure_image api img ids (tr, w) = (r, (tr', w'))" and "cw_NowUnixNano api w = (now, w1)"
    and "cw_View api (view_key now) (cw_ChainID api ids) w1 = (v, w2)"
  shows "(\<forall>m. v = Ok m \<longrightarrow> tr' = tr @ [CallNow, CallView (view_key now), CallMount, CallRemove (view_key now)]) \<and>
     ((\<forall>m. v \<noteq> Ok m) \<longrightarrow> tr' = tr @ [CallNow, CallView (view_key now)] \<and> (\<forall>a. r \<noteq> Ok a))"
  using assms
  by (cases v) (auto simp: measure_image_def call_eq andthen_def wrapping_def defer_remove_def return_ok_def
      split: prod.splits res.splits)

text \<open>C29: A pull that has created its temporary view removes it, the one it has created, as its
  last call, on success and on failure. A pull that has not created one fails, mounts nothing and
  removes nothing.\<close>

theorem pull_removes_view:
  assumes "Pull api ref username password ([], w) = (r, (tr, w'))"
  shows "(\<forall>k. view_created api ref username password w k \<longrightarrow> tr = viewed_run k) \<and>
     ((\<forall>k. \<not> view_created api ref username password w k) \<longrightarrow>
        (\<forall>a. r \<noteq> Ok a) \<and> CallMount \<notin> set tr \<and> (\<forall>k. CallRemove k \<notin> set tr))"
proof (cases "cw_ParseNormalizedNamed api ref")
  case (Ok nref)
  obtain ri w1 where pull: "cw_Pull api nref (pull_credentials username password) w = (ri, w1)"
    by (metis prod.exhaust)
  show ?thesis
  proof (cases ri)
    case ri: (Ok img)
    obtain rd w2 where root: "cw_RootFS api img w1 = (rd, w2)" by (metis prod.exhaust)
    show ?thesis
    proof (cases rd)
      case rd: (Ok ids)
      obtain now w3 where now: "cw_NowUnixNano api w2 = (now, w3)" by (metis prod.exhaust)
      obtain v w4 where view: "cw_View api (view_key now) (cw_ChainID api ids) w3 = (v, w4)"
        by (metis prod.exhaust)
      from assms Ok pull ri root rd have
        "measure_image api img ids ([CallPull, CallRootFS], w2) = (r, (tr, w'))"
        by (simp add: Pull_def andthen_def wrapping_def call_eq)
      note m = measure_image_view [OF this now view]
      have "view_created api ref username password w k \<longleftrightarrow> k = view_key now \<and> (\<exists>m. v = Ok m)" for k
        unfolding view_created_def using Ok pull ri root rd now view by auto
      with m show ?thesis by (auto simp: viewed_run_def)
    qed (use assms Ok pull ri root in \<open>auto simp: Pull_def andthen_def wrapping_def call_eq view_created_def\<close>)
  qed (use assms Ok pull in \<open>auto simp: Pull_def andthen_def call_eq view_created_def\<close>)
qed (use assms in \<open>auto simp: Pull_def view_created_def\<close>)

theorem pull_removes_view_witness:
  "\<exists>r tr w'. Pull sample_lib ''img'' [] [] ([], 5) = (r, (tr, w')) \<and>
     view_created sample_lib ''img'' [] [] 5 (view_key 5) \<and> last tr = CallRemove (view_key 5)"
proof -
  have v: "view_created sample_lib ''img'' [] [] 5 (view_key 5)"
    by (simp add: view_created_def sample_lib_def return_ok_def)
  from pull_removes_view [OF sample_pull, THEN conjunct1, rule_format, OF v] sample_pull v show ?thesis
    by (intro exI conjI) (assumption, assumption, simp add: viewed_run_def)
qed

lemma load_tasks_entry:
  "load_tasks_loop api sts m w = (Ok m', w') \<Longrightarrow> distinct (map cs_Name sts) \<Longrightarrow> st \<in> set sts \<Longrightarrow>
   \<exists>cntr task w1 w2 w3. cw_LoadContainer api (containerd_id st) w1 = (Ok cntr, w2) \<and>
      cw_Task api cntr w2 = (Ok task, w3) \<and> map_of m' (cs_Name st) = Some task"
proof (induction sts arbitrary: m w)
  case (Cons s sts)
  then obtain cntr w1 task w2 where *: "cw_LoadContainer api (containerd_id s) w = (Ok cntr, w1)"
    "cw_Task api cntr w1 = (Ok task, w2)" "load_tasks_loop api sts (gm_put (cs_Name s) task m) w2 = (Ok m', w')"
    by (auto simp: andthen_Ok_iff)
  have keep: "map_of m' n = map_of m n"
    if "load_tasks_loop api sts m w = (Ok m', w')" "n \<notin> cs_Name ` set sts" for m w n
    using that by (induction sts arbitrary: m w) (fastforce simp: andthen_Ok_iff)+
  show ?case
  proof (cases "st = s")
    case True
    with keep [OF *(3), of "cs_Name s"] *(1,2) Cons.prems(2) show ?thesis by auto
  next
    case False
    with Cons.IH [OF *(3)] Cons.prems show ?thesis by auto
  qed
qed simp

text \<open>The tasks \<open>LoadTasks\<close> returns are one for each name of the statuses, and when
  the names are distinct the task of a name is the one containerd gives for the identifier in
  its status, without the prefix \<open>containerd://\<close>.\<close>

theorem load_tasks_by_name:
  assumes "LoadTasks api sts w = (Ok m, w')"
  shows "dom (map_of m) = cs_Name ` set sts \<and>
     (distinct (map cs_Name sts) \<longrightarrow> (\<forall>st \<in> set sts. \<exists>cntr task w1 w2 w3.
        cw_LoadContainer api (containerd_id st) w1 = (Ok cntr, w2) \<and>
        cw_Task api cntr w2 = (Ok task, w3) \<and> map_of m (cs_Name st) = Some task))"
proof -
  have "ctrd_LoadTasks (NewClientWrapper api) sts ([], w) = (Ok m, ([], w'))"
    using assms by (simp add: NewClientWrapper_def untraced_def)
  from ctrd.loaded_names [OF this] assms load_tasks_entry [of api sts "[]" w m w'] show ?thesis
    by (auto simp: LoadTasks_def)
qed

theorem load_tasks_by_name_witness:
  "\<exists>cntr task w1 w2 w3. cw_LoadContainer sample_lib ''c1'' w1 = (Ok cntr, w2) \<and>
     cw_Task sample_lib cntr w2 = (Ok task, w3) \<and> map_of [(''app'', ''c1'')] ''app'' = Some task"
proof -
  let ?st = "\<lparr>cs_Name = ''app'', cs_ContainerID = ''containerd://c1''\<rparr>"
  have "LoadTasks sample_lib [?st] 0 = (Ok [(''app'', ''c1'')], 0)"
    by (simp add: LoadTasks_def andthen_def sample_lib_def return_ok_def containerd_id_def CutPrefix_def gm_put_def)
  from load_tasks_by_name [OF this] show ?thesis by (simp add: containerd_id_def CutPrefix_def)
qed

end
