(* ===== verification/Client.thy ===== *)
theory Client
  imports ContainerMap PodSpec Container Kubelet Containerd
begin

section \<open>The garden client (pkg/k8sgarden/client.go)\<close>

text \<open>
  The client keeps the registry of containers, the port allocator and the property manager;
  \<open>deps\<close> are the services it calls. Every operation takes the client and the world and
  returns its result with both. \<open>Create\<close> and \<open>deletePod\<close> poll the API server until a
  deadline: they are partial functions whose \<open>None\<close> is not returning, and that they return
  under the laws of time is proved. The pod object is shared by pointer between the API calls
  and the registry, so its changes are written to the registry's entry.
\<close>

record ('w, 'img, 'task, 'pm) deps =
  d_k8s :: "'w k8s_api"
  d_clock :: "'w go_clock"
  d_ctrd :: "('w, 'task, 'img) containerd_client"
  d_ImageName :: "'img \<Rightarrow> string"
  d_ImageEnv :: "'img \<Rightarrow> ('w, string list) act"
  d_props :: "'pm property_ops"
  d_IntN :: "nat \<Rightarrow> 'w \<Rightarrow> nat \<times> 'w"
  d_GetMetrics :: "string list \<Rightarrow> ('w, (string, container_metrics) gomap) act"
  d_OwnerKey :: string
  d_IntOutOfRange :: "f64 \<Rightarrow> i64"
  d_UintOutOfRange :: "f64 \<Rightarrow> u64"

record ('task, 'pm) client =
  cl_config :: client_config
  cl_containers :: "'task container container_map"
  cl_ports :: port_manager
  cl_props :: 'pm

subsection \<open>NewClient and the restored containers\<close>

definition restored_container :: "pod \<Rightarrow> 'task container" where
  "restored_container p = NewContainer NilIface p [] (Fin 0) NilIface NilIface 0 []"

definition label_or_empty :: "pod \<Rightarrow> string" where
  "label_or_empty p = (case map_of (pod_Labels p) OwnerNameLabelKey of Some v \<Rightarrow> v | None \<Rightarrow> [])"

fun restore_loop ::
  "'pm property_ops \<Rightarrow> string \<Rightarrow> pod list \<Rightarrow> 'task container container_map \<Rightarrow> 'pm \<Rightarrow>
   ('task container container_map \<times> 'pm) res" where
  "restore_loop o' owner_key [] cm pm = Ok (cm, pm)"
| "restore_loop o' owner_key (p # ps) cm pm =
     (let pm' = pr_Set o' pm (pod_Name p) owner_key (label_or_empty p)
      in case cm_Add (pod_Name p) (restored_container p) cm of
           (Some e, cm') \<Rightarrow> Err (ErrorfW ''failed to add container to map: %w'' [] e)
         | (None, cm') \<Rightarrow> restore_loop o' owner_key ps cm' pm')"

definition containerRestoreInfo ::
  "('w, 'img, 'task, 'pm) deps \<Rightarrow> string \<Rightarrow> ('w, 'task container container_map \<times> 'pm) act" where
  "containerRestoreInfo d workloadsNamespace =
     andthen (wrapping ''failed to list existing pods: %w'' [] (k8s_ListPods (d_k8s d) workloadsNamespace))
       (\<lambda>pods w. (restore_loop (d_props d) (d_OwnerKey d) pods newContainerMap (pr_New (d_props d)), w))"

text \<open>
  \<open>node_name\<close> is the environment variable \<open>NODE_NAME\<close>; the certificate directory and the
  proxy switch come from the rep configuration.
\<close>

definition NewClient ::
  "('w, 'img, 'task, 'pm) deps \<Rightarrow> string \<Rightarrow> string \<Rightarrow> bool \<Rightarrow> string \<Rightarrow> string \<Rightarrow> ('w, ('task, 'pm) client) act" where
  "NewClient d node_name certsDir proxy sidecarRootfs workloadsNamespace =
     andthen (wrapping ''failed to get node %s: %w'' [node_name] (k8s_GetNode (d_k8s d) node_name)) (\<lambda>node.
       andthen (containerRestoreInfo d workloadsNamespace) (\<lambda>(cm, pm).
         return_ok \<lparr>cl_config = \<lparr>cfg_node = node,
                        cfg_nodeCPU = fst (node_CapacityCPU_AsInt64 node),
                        cfg_nodeMemoryInB = fst (node_CapacityMemory_AsInt64 node),
                        cfg_sidecarRootfs = sidecarRootfs,
                        cfg_enableContainerProxy = proxy,
                        cfg_trustedCertsDir = certsDir,
                        cfg_workloadsNamespace = workloadsNamespace\<rparr>,
                     cl_containers = cm,
                     cl_ports = newPortManager,
                     cl_props = pm\<rparr>))"

subsection \<open>BulkMetrics and Capacity\<close>

record metrics_entry =
  me_MemoryTotalUsageTowardLimit :: u64
  me_CPUUsage :: u64
  me_DiskTotalBytesUsed :: u64
  me_Age :: i64
  me_CPUEntitlement :: u64
  me_NetworkStat :: "(u64 \<times> u64) option"

definition metrics_entry_of ::
  "('w, 'img, 'task, 'pm) deps \<Rightarrow> 'task container \<Rightarrow> container_metrics \<Rightarrow> metrics_entry" where
  "metrics_entry_of d ctr m =
     \<lparr>me_MemoryTotalUsageTowardLimit = MemoryUsageInBytes m,
      me_CPUUsage = TimeSpentInCPU m,
      me_DiskTotalBytesUsed = DiskUsageInBytes m + ct_rootfsSize ctr,
      me_Age = ContainerAgeInNanoseconds m,
      me_CPUEntitlement = f64_to_u64 (d_UintOutOfRange d)
        (f64_mult (ct_cpuAssignment ctr) (f64_of_int (uint (ContainerAgeInNanoseconds m)))),
      me_NetworkStat = (case (RxInBytes m, TxInBytes m) of
          (Some rx, Some tx) \<Rightarrow> Some (rx, tx) | _ \<Rightarrow> None)\<rparr>"

text \<open>The loop over the kubelet's map, in the order of its range.\<close>

fun bulk_metrics_loop ::
  "('w, 'img, 'task, 'pm) deps \<Rightarrow> 'task container container_map \<Rightarrow> (string, container_metrics) gomap \<Rightarrow>
   (string, metrics_entry) gomap \<Rightarrow> (string, metrics_entry) gomap res" where
  "bulk_metrics_loop d cm [] acc = Ok acc"
| "bulk_metrics_loop d cm ((handle, metric) # ms) acc =
     (case wrap ''failed to get container %s for metrics: %w'' [handle] (cm_Get handle cm) of
        Ok ctr \<Rightarrow> bulk_metrics_loop d cm ms (gm_put handle (metrics_entry_of d ctr metric) acc)
      | Err e \<Rightarrow> Err e
      | Panic p \<Rightarrow> Panic p)"

definition BulkMetrics ::
  "('w, 'img, 'task, 'pm) deps \<Rightarrow> ('task, 'pm) client \<Rightarrow> string list \<Rightarrow> ('w, (string, metrics_entry) gomap) act" where
  "BulkMetrics d c handles =
     andthen (wrapping ''failed to get metrics from kubelet: %w'' [] (d_GetMetrics d handles))
       (\<lambda>metrics w. (bulk_metrics_loop d (cl_containers c) metrics [], w))"

record garden_capacity =
  cap_MemoryInBytes :: u64
  cap_DiskInBytes :: u64
  cap_SchedulableDiskInBytes :: u64
  cap_MaxContainers :: u64

definition Capacity :: "('task, 'pm) client \<Rightarrow> garden_capacity" where
  "Capacity c =
     (let n = cfg_node (cl_config c)
      in \<lparr>cap_MemoryInBytes = node_AllocatableMemory n,
          cap_DiskInBytes = node_CapacityEphemeralStorage n,
          cap_SchedulableDiskInBytes = node_AllocatableEphemeralStorage n,
          cap_MaxContainers = node_CapacityPods n\<rparr>)"

subsection \<open>Containers, Lookup, Ping\<close>

text \<open>
  The caller's filter is a map passed by reference (nil is \<open>None\<close>): \<open>effective_filter\<close>
  is its content after the call's changes, which the caller sees.
\<close>

definition effective_filter :: "garden_properties option \<Rightarrow> garden_properties" where
  "effective_filter properties =
     (let ps = (case properties of None \<Rightarrow> [] | Some ps \<Rightarrow> ps)
      in if map_of ps ''garden.state'' = None then gm_put ''garden.state'' ''created'' ps
         else if map_of ps ''garden.state'' = Some ''all'' then gm_delete ''garden.state'' ps
         else ps)"

definition Containers ::
  "('w, 'img, 'task, 'pm) deps \<Rightarrow> ('task, 'pm) client \<Rightarrow> garden_properties option \<Rightarrow>
   'task container list \<times> garden_properties option" where
  "Containers d c properties =
     (let ps = effective_filter properties
      in (filter (\<lambda>cntr. pr_MatchesAll (d_props d) (cl_props c) (container_Handle cntr) ps)
            (cm_List (cl_containers c)),
          map_option (\<lambda>_. ps) properties))"

definition Lookup :: "('task, 'pm) client \<Rightarrow> string \<Rightarrow> 'task container res" where
  "Lookup c handle = cm_Get handle (cl_containers c)"

definition Ping :: "('w, 'img, 'task, 'pm) deps \<Rightarrow> ('w, unit) act" where
  "Ping d =
     andthen (wrapping ''failed to ping containerd: %w'' [] (ctrd_IsServing (d_ctrd d))) (\<lambda>containerdOk w.
       if \<not> containerdOk then (Err (ErrNew ''containerd is not serving''), w) else (Ok (), w))"

definition BulkInfo :: "string list \<Rightarrow> unit res" where
  "BulkInfo handles = Panic ''unimplemented''"

end
