(* ===== verification/Create.thy ===== *)
theory Create
  imports Client
begin

section \<open>Create, Destroy and deletePod (pkg/k8sgarden/client.go)\<close>

text \<open>
  The two operations that change the registry and the port allocator. \<open>prepare\<close> is
  \<open>Create\<close> up to the registration of the container, \<open>launch\<close> the rest: creating the
  pod, polling until it runs, loading its tasks. \<open>Destroy\<close> deletes the pod, waits until it is
  gone and gives the ports back. Times are in milliseconds. \<open>None\<close> is a polling loop that does not
  end; the single calls to the API server and to containerd are total functions, so they are taken
  to return, also those that \<open>Create\<close> makes with \<open>context.Background()\<close>: the pull of the image, the
  creation of the pod and the loading of the tasks have no deadline and could hang for ever.
\<close>

subsection \<open>The image\<close>

definition image_too_large :: "u64 \<Rightarrow> u64 \<Rightarrow> goerr" where
  "image_too_large rootfsSize limit =
     Errorf ''image size %d exceeds container disk limit %d'' [dec (unat rootfsSize), dec (unat limit)]"

definition resolve_docker ::
  "('w, 'img, 'task, 'pm) deps \<Rightarrow> container_spec \<Rightarrow> string \<Rightarrow> ('w, string \<times> string list \<times> u64) act" where
  "resolve_docker d spec cutImg =
     andthen (wrapping ''failed to pull docker image: %w'' []
       (ctrd_Pull (d_ctrd d) (docker_ref cutImg) (ref_Username (spec_Image spec)) (ref_Password (spec_Image spec))))
       (\<lambda>(img, rootfsSize) w.
          if spec_DiskByteHard spec \<le> rootfsSize
          then (case ctrd_Delete (d_ctrd d) img w of
                  (err, w') \<Rightarrow>
                    (Err (the (errors_Join [Some (image_too_large rootfsSize (spec_DiskByteHard spec)), err])), w'))
          else andthen (wrapping ''failed to get image config for image %s: %w'' [d_ImageName d img] (d_ImageEnv d img))
                 (\<lambda>dockerEnv. return_ok (d_ImageName d img, dockerEnv, rootfsSize)) w)"

definition resolve_image ::
  "('w, 'img, 'task, 'pm) deps \<Rightarrow> container_spec \<Rightarrow> ('w, string \<times> string list \<times> u64) act" where
  "resolve_image d spec =
     (case CutPrefix (ref_URI (spec_Image spec)) ''docker:'' of
        (cutImg, True) \<Rightarrow> resolve_docker d spec cutImg
      | (baseImage, False) \<Rightarrow> return_ok (baseImage, [], 0))"

subsection \<open>Create, up to the registration\<close>

text \<open>The result: the pod and the container, the port rules as changed, the client, the world.\<close>

type_synonym ('task, 'pm, 'w) prepared =
  "(pod \<times> 'task container) res \<times> net_in list \<times> ('task, 'pm) client \<times> 'w"

definition set_properties ::
  "'pm property_ops \<Rightarrow> string \<Rightarrow> garden_properties \<Rightarrow> 'pm \<Rightarrow> 'pm" where
  "set_properties o' handle ps pm = foldl (\<lambda>pm (k, v). pr_Set o' pm handle k v) pm ps"

text \<open>From the pod to the registered container.\<close>

definition register ::
  "('w, 'img, 'task, 'pm) deps \<Rightarrow> container_spec \<Rightarrow> pod \<Rightarrow> string list \<Rightarrow> f64 \<Rightarrow> u64 \<Rightarrow>
   ('task, 'pm) client \<Rightarrow> (pod \<times> 'task container) res \<times> ('task, 'pm) client" where
  "register d spec p dockerEnv cpuAssignment rootfsSize c =
     (let c1 = c\<lparr>cl_props := set_properties (d_props d) (pod_Name p) (spec_Properties spec) (cl_props c)\<rparr>;
          container = NewContainer Impl p (dockerEnv @ spec_Env spec) cpuAssignment Impl Impl rootfsSize []
      in case cm_Add (spec_Handle spec) container (cl_containers c1) of
           (Some e, cm) \<Rightarrow> (Err e, c1\<lparr>cl_containers := cm\<rparr>)
         | (None, cm) \<Rightarrow> (Ok (p, container), c1\<lparr>cl_containers := cm\<rparr>))"

definition cpu_assignment :: "client_config \<Rightarrow> container_spec \<Rightarrow> f64" where
  "cpu_assignment cfg spec =
     cpuQuantity (memory_mb (spec_MemLimitInBytes spec)) (cfg_nodeCPU cfg) (cfg_nodeMemoryInB cfg)"

definition prepare ::
  "('w, 'img, 'task, 'pm) deps \<Rightarrow> ('task, 'pm) client \<Rightarrow> container_spec \<Rightarrow> 'w \<Rightarrow> ('task, 'pm, 'w) prepared" where
  "prepare d c spec w =
     (if cm_Exists (spec_Handle spec) (cl_containers c)
      then (Err (handle_in_use (spec_Handle spec)), spec_NetIn spec, c, w)
      else
        let cfg = cl_config c;
            cpuAssignment = cpu_assignment cfg spec
        in case alloc_ports pm_Next (spec_NetIn spec) (cl_ports c) of
             (Err e, nis, pm) \<Rightarrow> (Err e, nis, c\<lparr>cl_ports := pm\<rparr>, w)
           | (Panic m, nis, pm) \<Rightarrow> (Panic m, nis, c\<lparr>cl_ports := pm\<rparr>, w)
           | (Ok ports, nis, pm) \<Rightarrow>
               let c1 = c\<lparr>cl_ports := pm\<rparr>
               in case resolve_image d spec w of
                    (Err e, w1) \<Rightarrow> (Err e, nis, c1, w1)
                  | (Panic m, w1) \<Rightarrow> (Panic m, nis, c1, w1)
                  | (Ok (baseImage, dockerEnv, rootfsSize), w1) \<Rightarrow>
                      (case build_pod cfg (d_OwnerKey d) (d_IntOutOfRange d) (d_IntN d) spec cpuAssignment
                              ports baseImage rootfsSize w1 of
                         (p, w2) \<Rightarrow>
                           (case register d spec p dockerEnv cpuAssignment rootfsSize c1 of
                              (r, c2) \<Rightarrow> (r, nis, c2, w2))))"

subsection \<open>Create, the pod's start\<close>

definition start_timeout :: nat where
  "start_timeout = 2 * 60 * 1000"

definition poll_interval :: nat where
  "poll_interval = 500"

partial_function (option) wait_running ::
  "'w k8s_api \<Rightarrow> 'w go_clock \<Rightarrow> nat \<Rightarrow> pod \<Rightarrow> 'w \<Rightarrow> (unit res \<times> pod \<times> 'w) option" where
  "wait_running k clk dl p w =
     (let got = k8s_Get k (Deadline dl) (ObjectKey p) p w;
          p1 = snd (fst got); w1 = snd got
      in case IgnoreNotFound k (fst (fst got)) of
           Some e \<Rightarrow> Some (Err (ErrorfW ''failed to get pod after creation: %w'' [] e), p1, w1)
         | None \<Rightarrow>
             if pod_Phase p1 = ''Running'' then Some (Ok (), p1, w1)
             else let sel = clk_select clk dl poll_interval w1
                  in if fst sel
                     then Some (Err (Errorf ''timed out waiting for pod to be running'' []), p1,
                                snd (k8s_Delete k Background (Some 0) p1 (snd sel)))
                     else wait_running k clk dl p1 (snd sel))"

declare wait_running.simps [code]

text \<open>A write to the pod object shows in the container registered under the handle.\<close>

definition set_pod :: "string \<Rightarrow> pod \<Rightarrow> ('task, 'pm) client \<Rightarrow> ('task, 'pm) client" where
  "set_pod handle p c = c\<lparr>cl_containers := cm_modify handle (\<lambda>ct. ct\<lparr>ct_pod := p\<rparr>) (cl_containers c)\<rparr>"

definition set_tasks :: "string \<Rightarrow> (string, 'task) gomap \<Rightarrow> ('task, 'pm) client \<Rightarrow> ('task, 'pm) client" where
  "set_tasks handle m c = c\<lparr>cl_containers := cm_modify handle (\<lambda>ct. ct\<lparr>ct_taskMap := m\<rparr>) (cl_containers c)\<rparr>"

definition finish_start ::
  "('w, 'img, 'task, 'pm) deps \<Rightarrow> string \<Rightarrow> 'task container \<Rightarrow> pod \<Rightarrow> ('task, 'pm) client \<Rightarrow> 'w \<Rightarrow>
   'task container res \<times> ('task, 'pm) client \<times> 'w" where
  "finish_start d handle container p c w =
     (case ctrd_LoadTasks (d_ctrd d) (pod_ContainerStatuses p) w of
        (Err e, w1) \<Rightarrow>
          (Err (ErrorfW ''failed to load containerD container: %w'' [] e), set_tasks handle [] c, w1)
      | (Panic m, w1) \<Rightarrow> (Panic m, c, w1)
      | (Ok tasks, w1) \<Rightarrow>
          (let ct = container\<lparr>ct_pod := p, ct_taskMap := tasks\<rparr>
           in case container_SetProperty (d_props d) ct ''garden.state'' ''created'' (cl_props c) of
                (Some e, pm) \<Rightarrow> (Err e, set_tasks handle tasks (c\<lparr>cl_props := pm\<rparr>), w1)
              | (None, pm) \<Rightarrow> (Ok ct, set_tasks handle tasks (c\<lparr>cl_props := pm\<rparr>), w1)))"

definition launch ::
  "('w, 'img, 'task, 'pm) deps \<Rightarrow> string \<Rightarrow> pod \<Rightarrow> 'task container \<Rightarrow> ('task, 'pm) client \<Rightarrow> 'w \<Rightarrow>
   ('task container res \<times> ('task, 'pm) client \<times> 'w) option" where
  "launch d handle p container c w =
     (case k8s_Create (d_k8s d) p w of
        ((Some e, p1), w1) \<Rightarrow>
          Some (Err (ErrorfW ''failed to create pod: %w'' [] e), set_pod handle p1 c, w1)
      | ((None, p1), w1) \<Rightarrow>
          (case wait_running (d_k8s d) (d_clock d) (clk_now (d_clock d) w1 + start_timeout) p1 w1 of
             None \<Rightarrow> None
           | Some (Err e, p2, w2) \<Rightarrow> Some (Err e, set_pod handle p2 c, w2)
           | Some (Panic m, p2, w2) \<Rightarrow> Some (Panic m, set_pod handle p2 c, w2)
           | Some (Ok _, p2, w2) \<Rightarrow> Some (finish_start d handle container p2 (set_pod handle p2 c) w2)))"

text \<open>
  \<open>Create\<close>: its result, the port rules of the spec as the caller finds them afterwards, the
  client and the world.
\<close>

definition client_Create ::
  "('w, 'img, 'task, 'pm) deps \<Rightarrow> ('task, 'pm) client \<Rightarrow> container_spec \<Rightarrow> 'w \<Rightarrow>
   ('task container res \<times> net_in list \<times> ('task, 'pm) client \<times> 'w) option" where
  "client_Create d c spec w =
     (case prepare d c spec w of
        (Err e, nis, c1, w1) \<Rightarrow> Some (Err e, nis, c1, w1)
      | (Panic m, nis, c1, w1) \<Rightarrow> Some (Panic m, nis, c1, w1)
      | (Ok (p, container), nis, c1, w1) \<Rightarrow>
          (case launch d (spec_Handle spec) p container c1 w1 of
             None \<Rightarrow> None
           | Some (r, c2, w2) \<Rightarrow> Some (r, nis, c2, w2)))"

subsection \<open>deletePod and Destroy\<close>

definition apiOperationTimeout :: nat where
  "apiOperationTimeout = 10 * 1000"

partial_function (option) wait_deleted ::
  "'w k8s_api \<Rightarrow> 'w go_clock \<Rightarrow> nat \<Rightarrow> pod \<Rightarrow> 'w \<Rightarrow> (goerr option \<times> 'w) option" where
  "wait_deleted k clk dl p w =
     (let got = k8s_Get k (Deadline dl) (ObjectKey p) empty_pod w; w1 = snd got
      in case fst (fst got) of
           Some e \<Rightarrow> if IgnoreNotFound k (Some e) = None then Some (None, w1) else Some (Some e, w1)
         | None \<Rightarrow>
             let sel = clk_select clk dl poll_interval w1
             in if fst sel then Some (Some DeadlineExceeded, snd sel)
                else wait_deleted k clk dl p (snd sel))"

declare wait_deleted.simps [code]

definition deletePod ::
  "'w k8s_api \<Rightarrow> 'w go_clock \<Rightarrow> pod \<Rightarrow> 'w \<Rightarrow> (goerr option \<times> 'w) option" where
  "deletePod k clk p w =
     (let dl = clk_now clk w + apiOperationTimeout
      in case k8s_Delete k (Deadline dl) None p w of
           (Some e, w1) \<Rightarrow>
             if IgnoreNotFound k (Some e) = None then Some (None, w1) else Some (Some e, w1)
         | (None, w1) \<Rightarrow> wait_deleted k clk dl p w1)"

definition release_ports :: "pod \<Rightarrow> port_manager \<Rightarrow> port_manager" where
  "release_ports p pm =
     foldl (\<lambda>pm ctr. foldl (\<lambda>pm port. pm_Release (cp_HostPort port) pm) pm (pc_Ports ctr)) pm (pod_Containers p)"

definition client_Destroy ::
  "('w, 'img, 'task, 'pm) deps \<Rightarrow> ('task, 'pm) client \<Rightarrow> string \<Rightarrow> 'w \<Rightarrow>
   (unit res \<times> ('task, 'pm) client \<times> 'w) option" where
  "client_Destroy d c handle w =
     (case cm_Get handle (cl_containers c) of
        Err e \<Rightarrow> Some (Err e, c, w)
      | Panic m \<Rightarrow> Some (Panic m, c, w)
      | Ok container \<Rightarrow>
          (case deletePod (d_k8s d) (d_clock d) (ct_pod container) w of
             None \<Rightarrow> None
           | Some (Some e, w1) \<Rightarrow> Some (Err (ErrorfW ''failed to delete pod: %w'' [] e), c, w1)
           | Some (None, w1) \<Rightarrow>
               (let c1 = c\<lparr>cl_ports := release_ports (ct_pod container) (cl_ports c)\<rparr>;
                    c2 = c1\<lparr>cl_containers := cm_Remove handle (cl_containers c1)\<rparr>
                in case pr_DestroyKeySpace (d_props d) (cl_props c2) handle of
                     (Some e, pm) \<Rightarrow> Some (Err e, c2\<lparr>cl_props := pm\<rparr>, w1)
                   | (None, pm) \<Rightarrow> Some (Ok (), c2\<lparr>cl_props := pm\<rparr>, w1))))"

end
