(* ===== verification/CreateFacts.thy ===== *)
theory CreateFacts
  imports Create
begin

section \<open>What Create and Destroy do to the client\<close>

text \<open>
  The behaviour of the stages of \<open>Create\<close> and of \<open>Destroy\<close>, stated over the abstract view of
  the client (\<open>cl_view\<close>: handle to container, and the set of allocated ports), with the facts
  of the registry and of the port allocator taken from the interpretations \<open>cm\<close> and \<open>pm\<close>.
\<close>

abbreviation cl_view :: "('task, 'pm) client \<Rightarrow> string \<rightharpoonup> 'task container" where
  "cl_view c \<equiv> cm_view (cl_containers c)"

abbreviation cl_held :: "('task, 'pm) client \<Rightarrow> u32 set" where
  "cl_held c \<equiv> allocated (cl_ports c)"

definition all_auto :: "container_spec \<Rightarrow> bool" where
  "all_auto spec \<longleftrightarrow> list_all (\<lambda>ni. ni_HostPort ni = 0) (spec_NetIn spec)"

subsection \<open>prepare\<close>

lemma register_fresh:
  fixes c :: "('task, 'pm) client"
  assumes "cl_view c (spec_Handle spec) = None"
  shows "\<exists>ct c'. register d spec p env cpu sz c = (Ok (p, ct), c') \<and>
     ct = NewContainer Impl p (env @ spec_Env spec) cpu Impl Impl sz [] \<and>
     cl_view c' = (cl_view c)(spec_Handle spec \<mapsto> ct) \<and>
     (cm_wf (cl_containers c) \<longrightarrow> cm_wf (cl_containers c')) \<and>
     cl_ports c' = cl_ports c \<and> cl_config c' = cl_config c \<and>
     cl_props c' = set_properties (d_props d) (pod_Name p) (spec_Properties spec) (cl_props c)"
proof -
  define ct where "ct = NewContainer Impl p (env @ spec_Env spec) cpu Impl Impl sz ([] :: (string, 'task) gomap)"
  obtain cm' where cm': "cm_Add (spec_Handle spec) ct (cl_containers c) = (None, cm')"
    using cm.add_fresh [OF assms] by (metis prod.collapse)
  with cm.add_fresh [OF assms, of ct] cm.wf_add [of "cl_containers c" "spec_Handle spec" ct]
  show ?thesis
    by (auto simp: register_def Let_def ct_def)
qed

lemma prepare_reaches:
  assumes "cl_view c (spec_Handle spec) = None"
    and alloc: "alloc_ports pm_Next (spec_NetIn spec) (cl_ports c) = (Ok ports, nis, pm)"
    and res: "resolve_image d spec w = (Ok (img, env, sz), w0)"
    and bp: "build_pod (cl_config c) (d_OwnerKey d) (d_IntOutOfRange d) (d_IntN d) spec
       (cpu_assignment (cl_config c) spec) ports img sz w0 = (p, w1)"
  shows "\<exists>ct c1. prepare d c spec w = (Ok (p, ct), nis, c1, w1) \<and>
     cl_view c1 = (cl_view c)(spec_Handle spec \<mapsto> ct)"
proof -
  let ?c1 = "c\<lparr>cl_ports := pm\<rparr>"
  have "cl_view ?c1 (spec_Handle spec) = None" using assms(1) by simp
  from register_fresh [OF this, of d p env "cpu_assignment (cl_config c) spec" sz] obtain ct c1 where
    reg: "register d spec p env (cpu_assignment (cl_config c) spec) sz ?c1 = (Ok (p, ct), c1)"
      "cl_view c1 = (cl_view c)(spec_Handle spec \<mapsto> ct)" by auto
  have "\<not> cm_Exists (spec_Handle spec) (cl_containers c)" using assms(1) by (simp add: cm.exists_eq)
  then have "prepare d c spec w = (Ok (p, ct), nis, c1, w1)"
    unfolding prepare_def Let_def alloc by (simp only: res bp reg(1) if_False prod.case res.case)
  with reg(2) show ?thesis by blast
qed

lemma prepare_Ok:
  assumes "prepare d c spec w = (Ok (p, ct), nis, c1, w1)"
  obtains ports pm img env sz w0 where
    "cl_view c (spec_Handle spec) = None"
    "alloc_ports pm_Next (spec_NetIn spec) (cl_ports c) = (Ok ports, nis, pm)"
    "resolve_image d spec w = (Ok (img, env, sz), w0)"
    "build_pod (cl_config c) (d_OwnerKey d) (d_IntOutOfRange d) (d_IntN d) spec
       (cpu_assignment (cl_config c) spec) ports img sz w0 = (p, w1)"
    "ct = NewContainer Impl p (env @ spec_Env spec) (cpu_assignment (cl_config c) spec) Impl Impl sz []"
    "cl_view c1 = (cl_view c)(spec_Handle spec \<mapsto> ct)"
    "cm_wf (cl_containers c) \<longrightarrow> cm_wf (cl_containers c1)"
    "cl_ports c1 = pm" "cl_config c1 = cl_config c"
    "cl_props c1 = set_properties (d_props d) (spec_Handle spec) (spec_Properties spec) (cl_props c)"
proof -
  have free: "cl_view c (spec_Handle spec) = None"
    using assms by (auto simp: prepare_def cm.exists_eq split: if_splits)
  then have ex: "\<not> cm_Exists (spec_Handle spec) (cl_containers c)" by (simp add: cm.exists_eq)
  obtain r nis0 pm where alloc:
    "alloc_ports pm_Next (spec_NetIn spec) (cl_ports c) = (r, nis0, pm)" by (metis prod.exhaust)
  with assms ex obtain ports where r: "r = Ok ports"
    by (cases r) (auto simp: prepare_def Let_def)
  obtain ri w0 where res: "resolve_image d spec w = (ri, w0)" by (cases "resolve_image d spec w")
  with assms ex alloc r obtain img env sz where ri: "ri = Ok (img, env, sz)"
    by (cases ri) (auto simp: prepare_def Let_def)
  let ?cpu = "cpu_assignment (cl_config c) spec"
  obtain p0 w2 where bp: "build_pod (cl_config c) (d_OwnerKey d) (d_IntOutOfRange d) (d_IntN d) spec
      ?cpu ports img sz w0 = (p0, w2)" by (metis prod.exhaust)
  then have name: "pod_Name p0 = spec_Handle spec" by (metis fst_conv pod_Name_build)
  let ?c1 = "c\<lparr>cl_ports := pm\<rparr>"
  from free have "cl_view ?c1 (spec_Handle spec) = None" by simp
  from register_fresh [OF this, of d p0 env ?cpu sz] obtain ct0 c' where
    reg: "register d spec p0 env ?cpu sz ?c1 = (Ok (p0, ct0), c')"
      "ct0 = NewContainer Impl p0 (env @ spec_Env spec) ?cpu Impl Impl sz []"
      "cl_view c' = (cl_view c)(spec_Handle spec \<mapsto> ct0)"
      "cm_wf (cl_containers c) \<longrightarrow> cm_wf (cl_containers c')"
      "cl_ports c' = pm" "cl_config c' = cl_config c"
      "cl_props c' = set_properties (d_props d) (pod_Name p0) (spec_Properties spec) (cl_props c)"
    by auto
  have "prepare d c spec w = (Ok (p0, ct0), nis0, c', w2)"
    by (simp add: prepare_def ex Let_def alloc r res ri bp reg(1))
  with assms have "p0 = p" "ct0 = ct" "nis0 = nis" "c' = c1" "w2 = w1" by simp_all
  with free alloc r res ri bp reg name show thesis by (intro that) simp_all
qed

text \<open>Every way to fail before the registration leaves the registry as it was.\<close>

lemma prepare_not_Ok:
  assumes "prepare d c spec w = (r, nis, c1, w1)" and "\<forall>x. r \<noteq> Ok x"
  shows "cl_containers c1 = cl_containers c \<and> cl_config c1 = cl_config c \<and>
     cl_held c \<subseteq> cl_held c1 \<and> cl_held c1 \<subseteq> cl_held c \<union> port_window \<and> cl_props c1 = cl_props c"
proof (cases "cm_Exists (spec_Handle spec) (cl_containers c)")
  case True
  with assms show ?thesis by (auto simp: prepare_def)
next
  case False
  obtain ra nis0 pm where alloc:
    "alloc_ports pm_Next (spec_NetIn spec) (cl_ports c) = (ra, nis0, pm)" by (metis prod.exhaust)
  then have mono: "cl_held c \<subseteq> allocated pm" "allocated pm \<subseteq> cl_held c \<union> port_window"
    by (rule pm.alloc_ports_mono, rule pm.alloc_ports_window)
  obtain ri w0 where res: "resolve_image d spec w = (ri, w0)" by (cases "resolve_image d spec w")
  show ?thesis
  proof (cases ra)
    case (Ok ports)
    have "\<not> (\<exists>x. ri = Ok x)"
    proof
      assume "\<exists>x. ri = Ok x"
      then obtain img env sz where "ri = Ok (img, env, sz)" by (metis prod.exhaust)
      moreover obtain p0 w2 where "build_pod (cl_config c) (d_OwnerKey d) (d_IntOutOfRange d) (d_IntN d)
          spec (cpu_assignment (cl_config c) spec) ports img sz w0 = (p0, w2)" by (metis prod.exhaust)
      moreover obtain ct c' where "register d spec p0 env (cpu_assignment (cl_config c) spec) sz
          (c\<lparr>cl_ports := pm\<rparr>) = (Ok (p0, ct), c')"
        using register_fresh [of "c\<lparr>cl_ports := pm\<rparr>" spec d p0 env "cpu_assignment (cl_config c) spec" sz] False
        by (auto simp: cm.exists_eq)
      ultimately show False
        using assms False alloc res Ok by (auto simp: prepare_def Let_def)
    qed
    with assms False alloc res Ok mono show ?thesis
      by (cases ri) (auto simp: prepare_def Let_def)
  qed (use assms False alloc mono in \<open>auto simp: prepare_def Let_def\<close>)
qed

subsection \<open>Polling\<close>

text \<open>
  What the API server keeps of an object that \<open>Create\<close> and \<open>Get\<close> write back: its name and
  its port rules (both are immutable in Kubernetes).
\<close>

definition same_claims :: "pod \<Rightarrow> pod \<Rightarrow> bool" where
  "same_claims p p' \<longleftrightarrow> pod_Name p' = pod_Name p \<and> pod_ports p' = pod_ports p"

lemma same_claims_refl [simp]: "same_claims p p"
  by (simp add: same_claims_def)

lemma same_claims_trans: "same_claims p q \<Longrightarrow> same_claims q r \<Longrightarrow> same_claims p r"
  by (simp add: same_claims_def)

definition k8s_keeps :: "'w k8s_api \<Rightarrow> bool" where
  "k8s_keeps k \<longleftrightarrow>
     (\<forall>p w. same_claims p (snd (fst (k8s_Create k p w)))) \<and>
     (\<forall>cx p w. same_claims p (snd (fst (k8s_Get k cx (ObjectKey p) p w))))"

lemma wait_running_result:
  fixes k :: "'w k8s_api"
  assumes "k8s_keeps k" and "wait_running k clk dl p w = Some (r, p', w')"
  shows "same_claims p p' \<and> (\<forall>m. r \<noteq> Panic m) \<and> (r = Ok () \<longrightarrow> pod_Phase p' = ''Running'')"
proof -
  have "k8s_keeps k \<longrightarrow> same_claims p (fst (snd x)) \<and> (\<forall>m. fst x \<noteq> Panic m) \<and>
      (fst x = Ok () \<longrightarrow> pod_Phase (fst (snd x)) = ''Running'')"
    if "wait_running k clk dl p w = Some x" for x
  proof (rule wait_running.raw_induct [OF _ that])
    fix f :: "'w k8s_api \<Rightarrow> 'w go_clock \<Rightarrow> nat \<Rightarrow> pod \<Rightarrow> 'w \<Rightarrow> (unit res \<times> pod \<times> 'w) option"
      and k :: "'w k8s_api" and clk :: "'w go_clock" and dl :: nat and p :: pod and w :: 'w
      and x :: "unit res \<times> pod \<times> 'w"
    assume IH: "\<And>k clk dl p w x. f k clk dl p w = Some x \<Longrightarrow>
        k8s_keeps k \<longrightarrow> same_claims p (fst (snd x)) \<and> (\<forall>m. fst x \<noteq> Panic m) \<and>
          (fst x = Ok () \<longrightarrow> pod_Phase (fst (snd x)) = ''Running'')"
    let ?got = "k8s_Get k (Deadline dl) (ObjectKey p) p w"
    let ?p1 = "snd (fst ?got)" let ?sel = "clk_select clk dl poll_interval (snd ?got)"
    assume step: "(let got = ?got; p1 = snd (fst got); w1 = snd got
      in case IgnoreNotFound k (fst (fst got)) of
           Some e \<Rightarrow> Some (Err (ErrorfW ''failed to get pod after creation: %w'' [] e), p1, w1)
         | None \<Rightarrow>
             if pod_Phase p1 = ''Running'' then Some (Ok (), p1, w1)
             else let sel = clk_select clk dl poll_interval w1
                  in if fst sel
                     then Some (Err (Errorf ''timed out waiting for pod to be running'' []), p1,
                                snd (k8s_Delete k Background (Some 0) p1 (snd sel)))
                     else f k clk dl p1 (snd sel)) = Some x"
    show "k8s_keeps k \<longrightarrow> same_claims p (fst (snd x)) \<and> (\<forall>m. fst x \<noteq> Panic m) \<and>
        (fst x = Ok () \<longrightarrow> pod_Phase (fst (snd x)) = ''Running'')"
    proof
      assume k: "k8s_keeps k"
      then have p1: "same_claims p ?p1" unfolding k8s_keeps_def by blast
      show "same_claims p (fst (snd x)) \<and> (\<forall>m. fst x \<noteq> Panic m) \<and>
        (fst x = Ok () \<longrightarrow> pod_Phase (fst (snd x)) = ''Running'')"
      proof (cases "f k clk dl ?p1 (snd ?sel) = Some x")
        case True
        from IH [OF True] k p1 show ?thesis by (blast intro: same_claims_trans)
      next
        case False
        with step p1 show ?thesis by (auto simp: Let_def split: option.splits if_splits)
      qed
    qed
  qed
  with assms show ?thesis by fastforce
qed

text \<open>Time does not run backwards while a call is in progress.\<close>

definition time_flows :: "'w k8s_api \<Rightarrow> 'w go_clock \<Rightarrow> bool" where
  "time_flows k clk \<longleftrightarrow>
     (\<forall>cx key p w. clk_now clk w \<le> clk_now clk (snd (k8s_Get k cx key p w)))"

lemma wait_running_returns:
  assumes "clock_laws clk" and "time_flows k clk"
  shows "\<exists>x. wait_running k clk dl p w = Some x"
proof (induction "dl - clk_now clk w" arbitrary: p w rule: less_induct)
  case less
  let ?got = "k8s_Get k (Deadline dl) (ObjectKey p) p w"
  let ?w1 = "snd ?got" let ?sel = "clk_select clk dl poll_interval ?w1"
  have t1: "clk_now clk w \<le> clk_now clk ?w1" using assms(2) unfolding time_flows_def by blast
  have "\<exists>x. wait_running k clk dl (snd (fst ?got)) (snd ?sel) = Some x" if "\<not> fst ?sel"
  proof (rule less)
    have "\<not> dl \<le> clk_now clk ?w1" "clk_now clk ?w1 + poll_interval \<le> clk_now clk (snd ?sel)"
      using assms(1) that unfolding clock_laws_def by blast+
    with t1 show "dl - clk_now clk (snd ?sel) < dl - clk_now clk w"
      by (simp add: poll_interval_def)
  qed
  then show ?case
    by (subst wait_running.simps) (auto simp: Let_def split: option.split)
qed

lemma wait_deleted_returns:
  assumes "clock_laws clk" and "time_flows k clk"
  shows "\<exists>x. wait_deleted k clk dl p w = Some x"
proof (induction "dl - clk_now clk w" arbitrary: w rule: less_induct)
  case less
  let ?got = "k8s_Get k (Deadline dl) (ObjectKey p) empty_pod w"
  let ?w1 = "snd ?got" let ?sel = "clk_select clk dl poll_interval ?w1"
  have t1: "clk_now clk w \<le> clk_now clk ?w1" using assms(2) unfolding time_flows_def by blast
  have "\<exists>x. wait_deleted k clk dl p (snd ?sel) = Some x" if "\<not> fst ?sel"
  proof (rule less)
    have "\<not> dl \<le> clk_now clk ?w1" "clk_now clk ?w1 + poll_interval \<le> clk_now clk (snd ?sel)"
      using assms(1) that unfolding clock_laws_def by blast+
    with t1 show "dl - clk_now clk (snd ?sel) < dl - clk_now clk w"
      by (simp add: poll_interval_def)
  qed
  then show ?case
    by (subst wait_deleted.simps) (auto simp: Let_def split: option.split)
qed

subsection \<open>launch\<close>

lemma set_pod_facts [simp]:
  "cl_view c h = Some ct \<Longrightarrow> cl_view (set_pod h p c) = (cl_view c)(h \<mapsto> ct\<lparr>ct_pod := p\<rparr>)"
  "cl_ports (set_pod h p c) = cl_ports c"
  "cl_config (set_pod h p c) = cl_config c"
  "cl_props (set_pod h p c) = cl_props c"
  "cm_wf (cl_containers c) \<Longrightarrow> cm_wf (cl_containers (set_pod h p c))"
  by (simp_all add: set_pod_def cm.view_modify cm.wf_modify)

lemma set_tasks_facts [simp]:
  "cl_view c h = Some ct \<Longrightarrow> cl_view (set_tasks h m c) = (cl_view c)(h \<mapsto> ct\<lparr>ct_taskMap := m\<rparr>)"
  "cl_ports (set_tasks h m c) = cl_ports c"
  "cl_config (set_tasks h m c) = cl_config c"
  "cl_props (set_tasks h m c) = cl_props c"
  "cm_wf (cl_containers c) \<Longrightarrow> cm_wf (cl_containers (set_tasks h m c))"
  by (simp_all add: set_tasks_def cm.view_modify cm.wf_modify)

text \<open>What a step that only rewrites the entry of one handle leaves alone.\<close>

definition touches_only :: "string \<Rightarrow> ('task, 'pm) client \<Rightarrow> ('task, 'pm) client \<Rightarrow> bool" where
  "touches_only h c c' \<longleftrightarrow>
     (\<forall>h'. h' \<noteq> h \<longrightarrow> cl_view c' h' = cl_view c h') \<and> cl_ports c' = cl_ports c \<and>
     cl_config c' = cl_config c \<and> (cm_wf (cl_containers c) \<longrightarrow> cm_wf (cl_containers c'))"

lemma finish_start_result:
  assumes "finish_start d h ct p c w = (r, c', w')" and "cl_view c h = Some (ct\<lparr>ct_pod := p\<rparr>)"
  shows "touches_only h c c' \<and> (\<exists>m. cl_view c' h = Some (ct\<lparr>ct_pod := p, ct_taskMap := m\<rparr>)) \<and>
     (\<forall>x. r = Ok x \<longrightarrow> cl_view c' h = Some x)"
proof -
  obtain rl w1 where load: "ctrd_LoadTasks (d_ctrd d) (pod_ContainerStatuses p) w = (rl, w1)"
    by (metis prod.exhaust)
  show ?thesis
  proof (cases rl)
    case (Ok tasks)
    obtain e pm where "container_SetProperty (d_props d) (ct\<lparr>ct_pod := p, ct_taskMap := tasks\<rparr>)
        ''garden.state'' ''created'' (cl_props c) = (e, pm)" by (metis prod.exhaust)
    with assms load Ok show ?thesis
      by (cases e) (auto simp: finish_start_def touches_only_def)
  next
    case (Err e)
    with assms load show ?thesis by (auto simp: finish_start_def touches_only_def)
  next
    case (Panic m)
    with assms load show ?thesis
      by (auto simp: finish_start_def touches_only_def intro!: exI [of _ "ct_taskMap ct"])
  qed
qed

lemma launch_result:
  assumes "k8s_keeps (d_k8s d)" and "launch d h p ct c w = Some (r, c', w')"
    and "cl_view c h = Some ct" and "ct_pod ct = p"
  shows "touches_only h c c' \<and>
     (\<exists>p' m. cl_view c' h = Some (ct\<lparr>ct_pod := p', ct_taskMap := m\<rparr>) \<and> same_claims p p' \<and>
        (\<forall>x. r = Ok x \<longrightarrow> cl_view c' h = Some x \<and> pod_Phase p' = ''Running''))"
proof -
  obtain e1 p1 w1 where create: "k8s_Create (d_k8s d) p w = ((e1, p1), w1)" by (metis prod.exhaust)
  with assms(1) have p1: "same_claims p p1" unfolding k8s_keeps_def by (metis fst_conv snd_conv)
  show ?thesis
  proof (cases e1)
    case (Some e)
    with create assms p1 show ?thesis
      by (auto simp: launch_def touches_only_def intro!: exI [of _ p1] exI [of _ "ct_taskMap ct"])
  next
    case None
    let ?dl = "clk_now (d_clock d) w1 + start_timeout"
    from assms(2) create None obtain r2 p2 w2 where
      poll: "wait_running (d_k8s d) (d_clock d) ?dl p1 w1 = Some (r2, p2, w2)"
      by (auto simp: launch_def split: option.splits)
    from wait_running_result [OF assms(1) poll] p1 have p2:
      "same_claims p p2" "\<And>m. r2 \<noteq> Panic m" "r2 = Ok () \<Longrightarrow> pod_Phase p2 = ''Running''"
      by (auto intro: same_claims_trans)
    show ?thesis
    proof (cases r2)
      case (Ok u)
      with assms(2) create None poll have
        fin: "finish_start d h ct p2 (set_pod h p2 c) w2 = (r, c', w')" by (simp add: launch_def)
      from finish_start_result [OF this] assms(3) p2 Ok show ?thesis
        by (auto simp: touches_only_def)
    next
      case (Err e)
      with create None assms poll p2 show ?thesis
        by (auto simp: launch_def touches_only_def intro!: exI [of _ p2] exI [of _ "ct_taskMap ct"])
    qed (use p2 in simp)
  qed
qed

subsection \<open>Create as a whole\<close>

text \<open>
  A call of \<open>Create\<close> either fails before the registration, and then at most keeps ports it
  has allocated, or registers one container whose pod claims exactly the ports the rules name
  when the call returns; the registration stays when the rest of the call fails.
\<close>

definition create_rejected :: "('task, 'pm) client \<Rightarrow> ('task, 'pm) client \<Rightarrow> bool" where
  "create_rejected c c' \<longleftrightarrow>
     cl_containers c' = cl_containers c \<and> cl_config c' = cl_config c \<and> cl_props c' = cl_props c \<and>
     cl_held c \<subseteq> cl_held c' \<and> cl_held c' \<subseteq> cl_held c \<union> port_window"

definition create_registered ::
  "container_spec \<Rightarrow> net_in list \<Rightarrow> 'task container \<Rightarrow> ('task, 'pm) client \<Rightarrow> ('task, 'pm) client \<Rightarrow> bool" where
  "create_registered spec nis ct c c' \<longleftrightarrow>
     cl_view c (spec_Handle spec) = None \<and>
     cl_view c' = (cl_view c)(spec_Handle spec \<mapsto> ct) \<and>
     (cm_wf (cl_containers c) \<longrightarrow> cm_wf (cl_containers c')) \<and>
     cl_config c' = cl_config c \<and>
     pod_Name (ct_pod ct) = spec_Handle spec \<and>
     pod_ports (ct_pod ct) = map (\<lambda>ni. container_port_of ni (ni_HostPort ni)) nis \<and>
     (\<exists>ports. alloc_ports pm_Next (spec_NetIn spec) (cl_ports c) = (Ok ports, nis, cl_ports c')) \<and>
     length nis = length (spec_NetIn spec) \<and>
     distinct (chosen_ports (spec_NetIn spec) nis) \<and>
     set (chosen_ports (spec_NetIn spec) nis) \<subseteq> port_window - cl_held c \<and>
     cl_held c' = cl_held c \<union> set (chosen_ports (spec_NetIn spec) nis)"

lemma registered_host_ports:
  "create_registered spec nis ct c c' \<Longrightarrow> pod_host_ports (ct_pod ct) = map ni_HostPort nis"
  by (simp add: create_registered_def pod_host_ports_def container_port_of_def)

text \<open>The state a prepared \<open>Create\<close> ends in, once \<open>launch\<close> has returned.\<close>

lemma launched_registered:
  assumes "k8s_keeps (d_k8s d)" and prep: "prepare d c spec w = (Ok (p, ct), nis, c1, w1)"
    and lau: "launch d (spec_Handle spec) p ct c1 w1 = Some (r, c', w')"
  obtains ct' where "create_registered spec nis ct' c c'"
    "\<forall>x. r = Ok x \<longrightarrow> x = ct' \<and> pod_Phase (ct_pod ct') = ''Running''"
  using prep
proof (rule prepare_Ok)
  fix ports pm img env sz w0
  assume free: "cl_view c (spec_Handle spec) = None"
    and alloc: "alloc_ports pm_Next (spec_NetIn spec) (cl_ports c) = (Ok ports, nis, pm)"
    and bp: "build_pod (cl_config c) (d_OwnerKey d) (d_IntOutOfRange d) (d_IntN d) spec
      (cpu_assignment (cl_config c) spec) ports img sz w0 = (p, w1)"
    and ct: "ct = NewContainer Impl p (env @ spec_Env spec) (cpu_assignment (cl_config c) spec) Impl Impl sz []"
    and view: "cl_view c1 = (cl_view c)(spec_Handle spec \<mapsto> ct)"
    and wf: "cm_wf (cl_containers c) \<longrightarrow> cm_wf (cl_containers c1)"
    and kept: "cl_ports c1 = pm" "cl_config c1 = cl_config c"
  from bp have p: "pod_Name p = spec_Handle spec" "pod_ports p = ports"
    by (metis fst_conv pod_Name_build, metis fst_conv pod_ports_build)
  from view ct have "cl_view c1 (spec_Handle spec) = Some ct" "ct_pod ct = p"
    by (simp_all add: NewContainer_def)
  from launch_result [OF assms(1) lau this] obtain p' m where
    t: "touches_only (spec_Handle spec) c1 c'"
      "cl_view c' (spec_Handle spec) = Some (ct\<lparr>ct_pod := p', ct_taskMap := m\<rparr>)"
      "same_claims p p'"
      "\<forall>x. r = Ok x \<longrightarrow> cl_view c' (spec_Handle spec) = Some x \<and> pod_Phase p' = ''Running''"
    by blast
  let ?ct = "ct\<lparr>ct_pod := p', ct_taskMap := m\<rparr>"
  have v: "cl_view c' = (cl_view c)(spec_Handle spec \<mapsto> ?ct)"
    using t(1,2) view by (auto simp: touches_only_def fun_eq_iff)
  have kept': "cl_ports c' = pm" "cl_config c' = cl_config c"
    "cm_wf (cl_containers c) \<longrightarrow> cm_wf (cl_containers c')"
    using t(1) kept wf by (simp_all add: touches_only_def)
  have pod': "pod_Name (ct_pod ?ct) = spec_Handle spec" "length nis = length (spec_NetIn spec)"
    "pod_ports (ct_pod ?ct) = map (\<lambda>ni. container_port_of ni (ni_HostPort ni)) nis"
    using t(3) p alloc_ports_result [OF alloc] by (simp_all add: same_claims_def)
  have "create_registered spec nis ?ct c c'"
    unfolding create_registered_def
    using free v kept' pod' alloc pm.alloc_ports_held [OF alloc] pm.alloc_ports_window [OF alloc] by auto
  moreover have "x = ?ct \<and> pod_Phase (ct_pod ?ct) = ''Running''" if "r = Ok x" for x
    using t(2) t(4) [rule_format, OF that] by simp
  ultimately show thesis by (intro that [of ?ct]) blast+
qed

lemma create_cases:
  assumes "k8s_keeps (d_k8s d)" and "client_Create d c spec w = Some (r, nis, c', w')"
  obtains (rejected) "create_rejected c c'" "\<forall>x. r \<noteq> Ok x"
  | (registered) ct where "create_registered spec nis ct c c'"
      "\<forall>x. r = Ok x \<longrightarrow> x = ct \<and> pod_Phase (ct_pod ct) = ''Running''"
proof -
  obtain r1 nis1 c1 w1 where prep: "prepare d c spec w = (r1, nis1, c1, w1)" by (metis prod.exhaust)
  show thesis
  proof (cases "\<exists>x. r1 = Ok x")
    case False
    with prepare_not_Ok [OF prep] have rej: "create_rejected c c1" by (simp add: create_rejected_def)
    from False prep assms(2) have "c' = c1" "\<forall>x. r \<noteq> Ok x"
      by (auto simp: client_Create_def split: res.splits)
    with rej show thesis by (intro rejected) simp_all
  next
    case True
    then obtain p ct where r1: "r1 = Ok (p, ct)" by (metis prod.exhaust)
    from assms(2) prep r1 have lau: "launch d (spec_Handle spec) p ct c1 w1 = Some (r, c', w')"
      and nis: "nis1 = nis" by (auto simp: client_Create_def split: option.splits)
    from launched_registered [OF assms(1) prep [unfolded r1 nis] lau] registered show thesis by blast
  qed
qed

lemma create_Ok:
  assumes "k8s_keeps (d_k8s d)" and "client_Create d c spec w = Some (Ok ct, nis, c', w')"
  shows "create_registered spec nis ct c c' \<and> pod_Phase (ct_pod ct) = ''Running''"
  using create_cases [OF assms] by blast

lemma create_in_use:
  "cl_view c (spec_Handle spec) = Some ct \<Longrightarrow>
   client_Create d c spec w = Some (Err (handle_in_use (spec_Handle spec)), spec_NetIn spec, c, w)"
  by (simp add: client_Create_def prepare_def cm.exists_eq)

lemma create_returns:
  assumes "clock_laws (d_clock d)" and "time_flows (d_k8s d) (d_clock d)"
  shows "\<exists>x. client_Create d c spec w = Some x"
proof -
  have launch: "launch d h p ct c w \<noteq> None" for h p ct c w
  proof -
    obtain e1 p1 w1 where "k8s_Create (d_k8s d) p w = ((e1, p1), w1)" by (metis prod.exhaust)
    moreover obtain x where
      "wait_running (d_k8s d) (d_clock d) (clk_now (d_clock d) w1 + start_timeout) p1 w1 = Some x"
      using wait_running_returns [OF assms] by blast
    ultimately show ?thesis
      by (cases e1; cases x; cases "fst x") (auto simp: launch_def)
  qed
  obtain r nis c1 w1 where "prepare d c spec w = (r, nis, c1, w1)" by (metis prod.exhaust)
  then show ?thesis
  proof (cases r)
    case (Ok x)
    obtain p ct where "x = (p, ct)" by (cases x)
    moreover obtain y where "launch d (spec_Handle spec) p ct c1 w1 = Some y" using launch by blast
    ultimately show ?thesis
      using Ok \<open>prepare d c spec w = _\<close> by (cases y) (simp add: client_Create_def)
  qed (simp_all add: client_Create_def)
qed

subsection \<open>Destroy\<close>

lemma held_release_ports: "allocated (release_ports p pm) = allocated pm - set (pod_host_ports p)"
proof -
  have "foldl (\<lambda>pm port. pm_Release (cp_HostPort port) pm) pm ports =
      fold pm_Release (map cp_HostPort ports) pm" for ports :: "container_port list" and pm
    by (induction ports arbitrary: pm) simp_all
  then have "release_ports p pm =
      foldl (\<lambda>pm ctr. fold pm_Release (map cp_HostPort (pc_Ports ctr)) pm) pm (pod_Containers p)"
    by (simp add: release_ports_def)
  moreover have "allocated (foldl (\<lambda>pm ctr. fold pm_Release (map cp_HostPort (pc_Ports ctr)) pm) pm cs) =
      allocated pm - set (map cp_HostPort (concat (map pc_Ports cs)))" for cs :: "pod_container list"
    by (induction cs arbitrary: pm) (auto simp: pm.held_release_fold)
  ultimately show ?thesis by (simp add: pod_host_ports_def pod_ports_def)
qed

definition destroyed ::
  "string \<Rightarrow> 'task container \<Rightarrow> ('task, 'pm) client \<Rightarrow> ('task, 'pm) client \<Rightarrow> bool" where
  "destroyed h ct c c' \<longleftrightarrow>
     cl_view c h = Some ct \<and> cl_view c' = (cl_view c)(h := None) \<and>
     (cm_wf (cl_containers c) \<longrightarrow> cm_wf (cl_containers c')) \<and> cl_config c' = cl_config c \<and>
     cl_held c' = cl_held c - set (pod_host_ports (ct_pod ct))"

lemma destroy_cases:
  assumes "client_Destroy d c h w = Some (r, c', w')"
  obtains (unknown) "cl_view c h = None" "r = Err (ContainerNotFoundError h)" "c' = c" "w' = w"
  | (kept) ct e where "cl_view c h = Some ct"
      "deletePod (d_k8s d) (d_clock d) (ct_pod ct) w = Some (Some e, w')"
      "r = Err (ErrorfW ''failed to delete pod: %w'' [] e)" "c' = c"
  | (gone) ct where "destroyed h ct c c'"
      "deletePod (d_k8s d) (d_clock d) (ct_pod ct) w = Some (None, w')"
      "cl_props c' = snd (pr_DestroyKeySpace (d_props d) (cl_props c) h)"
      "r = (case fst (pr_DestroyKeySpace (d_props d) (cl_props c) h) of None \<Rightarrow> Ok () | Some e \<Rightarrow> Err e)"
proof (cases "cl_view c h")
  case None
  with assms show thesis by (intro unknown) (auto simp: client_Destroy_def cm.get_eq)
next
  case (Some ct)
  with assms obtain e w1 where del:
    "deletePod (d_k8s d) (d_clock d) (ct_pod ct) w = Some (e, w1)"
    by (auto simp: client_Destroy_def cm.get_eq split: option.splits)
  show thesis
  proof (cases e)
    case (Some e')
    with \<open>cl_view c h = Some ct\<close> del assms show thesis
      by (intro kept) (auto simp: client_Destroy_def cm.get_eq)
  next
    case None
    obtain ed pm where ed: "pr_DestroyKeySpace (d_props d) (cl_props c) h = (ed, pm)"
      by (metis prod.exhaust)
    with None \<open>cl_view c h = Some ct\<close> del assms show thesis
      by (intro gone [of ct]; cases ed)
        (auto simp: client_Destroy_def cm.get_eq destroyed_def held_release_ports
          cm.view_remove cm.wf_remove)
  qed
qed

lemma destroy_returns:
  assumes "clock_laws (d_clock d)" and "time_flows (d_k8s d) (d_clock d)"
  shows "\<exists>x. client_Destroy d c h w = Some x"
proof (cases "cl_view c h")
  case None
  then show ?thesis by (simp add: client_Destroy_def cm.get_eq)
next
  case (Some ct)
  obtain e w1 where del: "k8s_Delete (d_k8s d) (Deadline (clk_now (d_clock d) w + apiOperationTimeout))
      None (ct_pod ct) w = (e, w1)" by (metis prod.exhaust)
  obtain x where "wait_deleted (d_k8s d) (d_clock d) (clk_now (d_clock d) w + apiOperationTimeout)
      (ct_pod ct) w1 = Some x" using wait_deleted_returns [OF assms] by blast
  with del have "\<exists>y. deletePod (d_k8s d) (d_clock d) (ct_pod ct) w = Some y"
    by (cases e) (simp_all add: deletePod_def)
  then obtain y where "deletePod (d_k8s d) (d_clock d) (ct_pod ct) w = Some y" ..
  with Some show ?thesis
    by (cases y; cases "fst y")
      (auto simp: client_Destroy_def cm.get_eq Let_def split: prod.splits option.splits)
qed

end
