(* ===== verification/Lifecycle.thy ===== *)
theory Lifecycle
  imports CreateFacts
begin

section \<open>Histories of the garden client\<close>

text \<open>
  A history is a sequence of calls of one client, between which the world and the properties
  change freely. A call that changes the client is a step of \<open>client_step\<close>; \<open>ok\<close> says
  which specs the caller passes. The invariant \<open>ports_owned\<close> is what the port allocator is
  for: no two containers claim the same host port. The transition properties (\<open>orphaned\<close>)
  follow a port that is allocated and claimed by no container.
\<close>

inductive client_step ::
  "('w, 'img, 'task, 'pm) deps \<Rightarrow> (container_spec \<Rightarrow> bool) \<Rightarrow>
   ('task, 'pm) client \<times> 'w \<Rightarrow> ('task, 'pm) client \<times> 'w \<Rightarrow> bool"
  for d :: "('w, 'img, 'task, 'pm) deps" and ok :: "container_spec \<Rightarrow> bool"
where
  create: "ok spec \<Longrightarrow> client_Create d c spec w = Some (r, nis, c', w') \<Longrightarrow>
     client_step d ok (c, w) (c', w')"
| destroy: "client_Destroy d c h w = Some (r, c', w') \<Longrightarrow> client_step d ok (c, w) (c', w')"
| properties: "client_step d ok (c, w) (c\<lparr>cl_props := pm\<rparr>, w)"
| world: "client_step d ok (c, w) (c, w')"

inductive_cases client_stepE: "client_step d ok s s'"

inductive client_run ::
  "('w, 'img, 'task, 'pm) deps \<Rightarrow> (container_spec \<Rightarrow> bool) \<Rightarrow>
   ('task, 'pm) client \<times> 'w \<Rightarrow> ('task, 'pm) client \<times> 'w \<Rightarrow> bool"
  for d :: "('w, 'img, 'task, 'pm) deps" and ok :: "container_spec \<Rightarrow> bool"
where
  run_refl: "client_run d ok s s"
| run_step: "client_run d ok s t \<Longrightarrow> client_step d ok t u \<Longrightarrow> client_run d ok s u"

subsection \<open>Ownership of host ports\<close>

abbreviation claims :: "('task, 'pm) client \<Rightarrow> string \<Rightarrow> u32 set" where
  "claims c h \<equiv> (case cl_view c h of None \<Rightarrow> {} | Some ct \<Rightarrow> set (pod_host_ports (ct_pod ct)))"

definition ports_owned :: "('task, 'pm) client \<Rightarrow> bool" where
  "ports_owned c \<longleftrightarrow>
     cm_wf (cl_containers c) \<and> cl_held c \<subseteq> port_window \<and>
     (\<forall>h ct. cl_view c h = Some ct \<longrightarrow> pod_Name (ct_pod ct) = h \<and>
        distinct (pod_host_ports (ct_pod ct))) \<and>
     (\<forall>h. claims c h \<subseteq> cl_held c) \<and>
     (\<forall>h h'. h \<noteq> h' \<longrightarrow> claims c h \<inter> claims c h' = {})"

text \<open>The state of a client that starts on a node with no pods.\<close>

definition fresh_client :: "('task, 'pm) client \<Rightarrow> bool" where
  "fresh_client c \<longleftrightarrow> cl_containers c = newContainerMap \<and> cl_ports c = newPortManager"

lemma fresh_client_owned: "fresh_client c \<Longrightarrow> ports_owned c"
  by (simp add: fresh_client_def ports_owned_def cm.view_empty cm.wf_empty newPortManager_def)

subsection \<open>Each operation keeps the ownership\<close>

lemma ports_ownedD:
  assumes "ports_owned c"
  shows "cm_wf (cl_containers c)" "cl_held c \<subseteq> port_window"
    and "cl_view c h = Some ct \<Longrightarrow> pod_Name (ct_pod ct) = h"
    and "cl_view c h = Some ct \<Longrightarrow> distinct (pod_host_ports (ct_pod ct))"
    and "claims c h \<subseteq> cl_held c"
    and "h \<noteq> h' \<Longrightarrow> claims c h \<inter> claims c h' = {}"
  using assms by (auto simp: ports_owned_def)

lemma registered_claims:
  assumes "create_registered spec nis ct c c'"
  shows "claims c' h = (if h = spec_Handle spec then set (map ni_HostPort nis) else claims c h)"
  using assms registered_host_ports [OF assms] by (simp add: create_registered_def)

lemma registered_auto:
  assumes "create_registered spec nis ct c c'" and "all_auto spec"
  shows "distinct (map ni_HostPort nis) \<and> set (map ni_HostPort nis) \<subseteq> port_window - cl_held c \<and>
     cl_held c' = cl_held c \<union> set (map ni_HostPort nis)"
  using assms chosen_ports_auto [of "spec_NetIn spec" nis]
  unfolding create_registered_def all_auto_def by simp

lemma registered_keeps_owned:
  assumes "create_registered spec nis ct c c'" "all_auto spec" "ports_owned c"
  shows "ports_owned c'"
proof -
  note own = ports_ownedD [OF assms(3)] and auto' = registered_auto [OF assms(1,2)]
    and cl = registered_claims [OF assms(1)]
  have "claims c h \<inter> set (map ni_HostPort nis) = {}" for h
    using own(5) [of h] auto' by blast
  then have "h \<noteq> h' \<Longrightarrow> claims c' h \<inter> claims c' h' = {}" for h h'
    using own(6) [of h h'] unfolding cl by (auto simp: Int_commute)
  moreover have "claims c' h \<subseteq> cl_held c'" for h
    using own(5) [of h] auto' unfolding cl by auto
  moreover have "cm_wf (cl_containers c')" "cl_held c' \<subseteq> port_window"
    using assms(1) own(1,2) auto' by (auto simp: create_registered_def)
  moreover have "cl_view c' h = Some x \<Longrightarrow> pod_Name (ct_pod x) = h \<and> distinct (pod_host_ports (ct_pod x))"
    for h x
    using assms(1) registered_host_ports [OF assms(1)] own(3,4) [of h x] auto'
    by (auto simp: create_registered_def split: if_splits)
  ultimately show ?thesis unfolding ports_owned_def by blast
qed

lemma same_view_keeps_owned:
  assumes "ports_owned c" "cl_containers c' = cl_containers c" "cl_held c \<subseteq> cl_held c'"
    "cl_held c' \<subseteq> port_window"
  shows "ports_owned c'"
  using assms(1,3,4) unfolding ports_owned_def assms(2) by (meson order_trans)

lemma destroyed_claims:
  assumes "destroyed h ct c c'"
  shows "claims c' x = (if x = h then {} else claims c x)"
    and "cl_held c' = cl_held c - claims c h"
  using assms by (simp_all add: destroyed_def)

lemma destroyed_keeps_owned:
  assumes "destroyed h ct c c'" "ports_owned c"
  shows "ports_owned c'"
proof -
  note own = ports_ownedD [OF assms(2)] and cl = destroyed_claims [OF assms(1)]
  have "claims c' x \<subseteq> cl_held c'" for x
    using own(5) [of x] own(6) [of x h] unfolding cl by auto
  moreover have "x \<noteq> y \<Longrightarrow> claims c' x \<inter> claims c' y = {}" for x y
    using own(6) [of x y] unfolding cl by simp
  moreover have "cm_wf (cl_containers c')" "cl_held c' \<subseteq> port_window"
    using assms(1) own(1,2) by (auto simp: destroyed_def)
  moreover have "cl_view c' x = Some y \<Longrightarrow> pod_Name (ct_pod y) = x \<and> distinct (pod_host_ports (ct_pod y))"
    for x y
    using assms(1) own(3,4) [of x y] by (auto simp: destroyed_def split: if_splits)
  ultimately show ?thesis unfolding ports_owned_def by blast
qed

lemma step_keeps_owned:
  assumes "client_step d all_auto s s'" "k8s_keeps (d_k8s d)" "ports_owned (fst s)"
  shows "ports_owned (fst s')"
  using assms(1)
proof (cases rule: client_step.cases)
  case (create spec c w r nis c' w')
  from assms(2) create(4) show ?thesis
  proof (cases rule: create_cases)
    case rejected
    with create assms(3) same_view_keeps_owned [of c c'] ports_ownedD(2) [of c] show ?thesis
      by (auto simp: create_rejected_def)
  next
    case (registered ct)
    with create assms(3) registered_keeps_owned show ?thesis by auto
  qed
next
  case (destroy c h w r c' w')
  from destroy_cases [OF destroy(3)] show ?thesis
    by cases (use destroy assms(3) destroyed_keeps_owned in auto)
qed (use assms(3) in \<open>auto simp: ports_owned_def\<close>)

lemma run_keeps_owned:
  assumes "client_run d all_auto s s'" "k8s_keeps (d_k8s d)" "ports_owned (fst s)"
  shows "ports_owned (fst s')"
  using assms(1,3) by (induction rule: client_run.induct) (auto intro: step_keeps_owned [OF _ assms(2)])

subsection \<open>Ports without a container\<close>

definition orphaned :: "u32 \<Rightarrow> ('task, 'pm) client \<Rightarrow> bool" where
  "orphaned p c \<longleftrightarrow> p \<in> cl_held c \<and> (\<forall>h. p \<notin> claims c h)"

lemma step_keeps_orphaned:
  assumes "client_step d all_auto s s'" "k8s_keeps (d_k8s d)" "orphaned p (fst s)"
  shows "orphaned p (fst s')"
  using assms(1)
proof (cases rule: client_step.cases)
  case (create spec c w r nis c' w')
  from assms(2) create(4) show ?thesis
  proof (cases rule: create_cases)
    case rejected
    with create assms(3) show ?thesis by (auto simp: orphaned_def create_rejected_def)
  next
    case (registered ct)
    have p: "p \<in> cl_held c" "\<And>h. p \<notin> claims c h" using assms(3) create(1) by (auto simp: orphaned_def)
    with registered_auto [OF registered(1) create(3)] have
      "p \<in> cl_held c'" "p \<notin> set (map ni_HostPort nis)" by blast+
    with p(2) have "orphaned p c'"
      unfolding orphaned_def registered_claims [OF registered(1)] by simp
    with create(2) show ?thesis by simp
  qed
next
  case (destroy c h w r c' w')
  from destroy_cases [OF destroy(3)] show ?thesis
    by cases (use destroy assms(3) in \<open>auto simp: orphaned_def destroyed_claims\<close>)
qed (use assms(3) in \<open>auto simp: orphaned_def\<close>)

lemma run_keeps_orphaned:
  assumes "client_run d all_auto s s'" "k8s_keeps (d_k8s d)" "orphaned p (fst s)"
  shows "orphaned p (fst s')"
  using assms(1,3) by (induction rule: client_run.induct) (auto intro: step_keeps_orphaned [OF _ assms(2)])

subsection \<open>Well-formedness, whatever the specs\<close>

definition client_wf :: "('task, 'pm) client \<Rightarrow> bool" where
  "client_wf c \<longleftrightarrow> cm_wf (cl_containers c) \<and> cl_held c \<subseteq> port_window \<and>
     (\<forall>h ct. cl_view c h = Some ct \<longrightarrow> container_Handle ct = h)"

lemma step_keeps_wf:
  assumes "client_step d ok s s'" "k8s_keeps (d_k8s d)" "client_wf (fst s)"
  shows "client_wf (fst s')"
  using assms(1)
proof (cases rule: client_step.cases)
  case (create spec c w r nis c' w')
  from assms(2) create(4) show ?thesis
  proof (cases rule: create_cases)
    case rejected
    with create assms(3) show ?thesis by (auto simp: client_wf_def create_rejected_def)
  next
    case (registered ct)
    have "cl_held c' \<subseteq> port_window"
      using registered(1) assms(3) create(1) by (auto simp: client_wf_def create_registered_def)
    moreover have "cm_wf (cl_containers c')" "cl_view c' = (cl_view c)(spec_Handle spec \<mapsto> ct)"
      "container_Handle ct = spec_Handle spec"
      using registered(1) assms(3) create(1)
      by (simp_all add: client_wf_def create_registered_def container_Handle_def)
    ultimately show ?thesis
      using assms(3) create(1,2) by (auto simp: client_wf_def)
  qed
next
  case (destroy c h w r c' w')
  from destroy_cases [OF destroy(3)] show ?thesis
    by cases (use destroy assms(3) in \<open>auto simp: client_wf_def destroyed_def\<close>)
qed (use assms(3) in \<open>auto simp: client_wf_def\<close>)

lemma run_keeps_wf:
  assumes "client_run d ok s s'" "k8s_keeps (d_k8s d)" "client_wf (fst s)"
  shows "client_wf (fst s')"
  using assms(1,3) by (induction rule: client_run.induct) (auto intro: step_keeps_wf [OF _ assms(2)])

end
