(* ===== verification/Sample.thy ===== *)
theory Sample
  imports Lifecycle
begin

section \<open>A world for the examples\<close>

text \<open>
  A small API server, clock, property manager and containerd with which the operations of the
  client can be run: the world is the time in milliseconds and the pods that exist. A created
  pod runs at once; a deleted one is gone at once.
\<close>

record world =
  wd_now :: nat
  wd_pods :: "(string \<times> string) list"

text \<open>The pods the server lists, each with an owner and the first host port.\<close>

definition listed_pod :: "string \<times> string \<Rightarrow> pod" where
  "listed_pod key = empty_pod\<lparr>pod_Namespace := fst key, pod_Name := snd key,
     pod_Labels := [(OwnerNameLabelKey, ''executor'')],
     pod_Containers := [\<lparr>pc_Name = appContainerName, pc_Image = [], pc_ImagePullPolicy = [],
       pc_Ports = [container_port_of \<lparr>ni_HostPort = startPort, ni_ContainerPort = 8080\<rparr> startPort],
       pc_Command = [], pc_VolumeMounts = [], pc_EphemeralStorageLimit = None\<rparr>]\<rparr>"

definition sample_k8s :: "world k8s_api" where
  "sample_k8s = \<lparr>
     k8s_Create = (\<lambda>p w. if ObjectKey p \<in> set (wd_pods w) then ((Some (ExtErr ''AlreadyExists''), p), w)
       else ((None, p), w\<lparr>wd_pods := ObjectKey p # wd_pods w\<rparr>)),
     k8s_Get = (\<lambda>cx key p w. if key \<in> set (wd_pods w)
       then ((None, p\<lparr>pod_Phase := ''Running'', pod_HostIP := ''10.0.0.1'', pod_PodIP := ''172.16.0.1'',
          pod_ContainerStatuses := [\<lparr>cs_Name = ''app'', cs_ContainerID = ''containerd://c1''\<rparr>]\<rparr>), w)
       else ((Some (ExtErr ''NotFound''), p), w)),
     k8s_Delete = (\<lambda>cx grace p w. if ObjectKey p \<in> set (wd_pods w)
       then (None, w\<lparr>wd_pods := removeAll (ObjectKey p) (wd_pods w)\<rparr>)
       else (Some (ExtErr ''NotFound''), w)),
     k8s_ListPods = (\<lambda>ns w. (Ok (map listed_pod (filter (\<lambda>key. fst key = ns) (wd_pods w))), w)),
     k8s_GetNode = (\<lambda>n. return_ok \<lparr>node_Name = n, node_CapacityCPU_AsInt64 = (8, True),
       node_CapacityMemory_AsInt64 = (17179869184, True), node_AllocatableMemory = 17179869184,
       node_CapacityEphemeralStorage = 100000000000, node_AllocatableEphemeralStorage = 90000000000,
       node_CapacityPods = 110\<rparr>),
     k8s_IsNotFound = (\<lambda>e. e = ExtErr ''NotFound'')\<rparr>"

definition sample_clock :: "world go_clock" where
  "sample_clock = \<lparr>clk_now = wd_now,
     clk_select = (\<lambda>dl d w. if dl \<le> wd_now w then (True, w) else (False, w\<lparr>wd_now := wd_now w + d\<rparr>))\<rparr>"

type_synonym sample_properties = "((string \<times> string) \<times> string) list"

definition sample_props :: "sample_properties property_ops" where
  "sample_props = \<lparr>pr_New = [], pr_Set = (\<lambda>s h k v. ((h, k), v) # s),
     pr_Get = (\<lambda>s h k. map_of s (h, k)), pr_All = (\<lambda>s h. Ok []),
     pr_Remove = (\<lambda>s h k. (None, filter (\<lambda>x. fst x \<noteq> (h, k)) s)),
     pr_MatchesAll = (\<lambda>s h ps. \<forall>(k, v) \<in> set ps. map_of s (h, k) = Some v),
     pr_DestroyKeySpace = (\<lambda>s h. (None, filter (\<lambda>x. fst (fst x) \<noteq> h) s))\<rparr>"

text \<open>The size of an image is 5000; pulling the image \<open>missing\<close> fails.\<close>

definition sample_ctrd :: "(world, string, string) containerd_client" where
  "sample_ctrd = \<lparr>ctrd_IsServing = return_ok True,
     ctrd_LoadTasks = (\<lambda>sts. return_ok (foldl (\<lambda>m st. gm_put (cs_Name st) (cs_ContainerID st) m) [] sts)),
     ctrd_Pull = (\<lambda>ref u p. if ref = ''missing'' then return_err (ExtErr ''no such image'') else return_ok (ref, 5000)),
     ctrd_Delete = (\<lambda>img w. (None, w))\<rparr>"

definition sample_deps :: "(world, string, string, sample_properties) deps" where
  "sample_deps = \<lparr>d_k8s = sample_k8s, d_clock = sample_clock, d_ctrd = sample_ctrd,
     d_ImageName = id, d_ImageEnv = (\<lambda>img. return_ok [''PATH=/bin'']), d_props = sample_props,
     d_IntN = (\<lambda>n w. (0, w)), d_GetMetrics = (\<lambda>hs. return_ok []),
     d_OwnerKey = ''executor:owner'', d_IntOutOfRange = (\<lambda>_. 0), d_UintOutOfRange = (\<lambda>_. 0)\<rparr>"

definition sample_spec :: "string \<Rightarrow> net_in list \<Rightarrow> container_spec" where
  "sample_spec h nis = \<lparr>spec_Handle = h,
     spec_Image = \<lparr>ref_URI = ''/stacks/cflinuxfs4.tar'', ref_Username = [], ref_Password = []\<rparr>,
     spec_Properties = [(''executor:owner'', ''executor''), (''network.app_id'', ''guid-1'')],
     spec_Env = [], spec_NetIn = nis, spec_BindMounts = [],
     spec_MemLimitInBytes = 0, spec_DiskByteHard = 1000000\<rparr>"

definition auto_rule :: net_in where
  "auto_rule = \<lparr>ni_HostPort = 0, ni_ContainerPort = 8080\<rparr>"

definition sample_client_config :: client_config where
  "sample_client_config = \<lparr>cfg_node = fst (case k8s_GetNode sample_k8s ''node'' \<lparr>wd_now = 0, wd_pods = []\<rparr> of
       (Ok n, w) \<Rightarrow> (n, w)),
     cfg_nodeCPU = 0, cfg_nodeMemoryInB = 17179869184, cfg_sidecarRootfs = ''sidecar.tar'',
     cfg_enableContainerProxy = False, cfg_trustedCertsDir = ''/certs'', cfg_workloadsNamespace = ''cf-workloads''\<rparr>"

definition sample_client :: "(string, sample_properties) client" where
  "sample_client = \<lparr>cl_config = sample_client_config, cl_containers = newContainerMap, cl_ports = newPortManager,
     cl_props = []\<rparr>"

definition sample_world :: world where
  "sample_world = \<lparr>wd_now = 0, wd_pods = []\<rparr>"

subsection \<open>It has the properties the theorems ask for\<close>

lemma sample_keeps [simp]: "k8s_keeps (d_k8s sample_deps)"
  unfolding k8s_keeps_def
  by (auto simp: sample_deps_def sample_k8s_def same_claims_def pod_ports_def)

lemma sample_clock_laws [simp]: "clock_laws (d_clock sample_deps)"
  unfolding clock_laws_def by (auto simp: sample_deps_def sample_clock_def)

lemma sample_time_flows [simp]: "time_flows (d_k8s sample_deps) (d_clock sample_deps)"
  unfolding time_flows_def by (auto simp: sample_deps_def sample_clock_def sample_k8s_def)

lemma sample_property_laws [simp]: "property_laws (d_props sample_deps)"
proof -
  have "map_of (filter (\<lambda>x. fst (fst x) \<noteq> h) s) (h', k) = (if h' = h then None else map_of s (h', k))"
    for s :: sample_properties and h h' k
    by (induction s) auto
  then show ?thesis
    unfolding property_laws_def by (simp add: sample_deps_def sample_props_def)
qed

lemma sample_fresh [simp]: "fresh_client sample_client"
  by (simp add: fresh_client_def sample_client_def)

subsection \<open>Runs\<close>

text \<open>A \<open>Create\<close> of a new handle with one port to be chosen succeeds while a port is free.\<close>

lemma sample_launch:
  assumes "cl_view c h = Some ct" "ObjectKey p \<notin> set (wd_pods w)"
  shows "\<exists>x c'. launch sample_deps h p ct c w =
     Some (Ok x, c', w\<lparr>wd_pods := ObjectKey p # wd_pods w\<rparr>)"
proof -
  let ?w = "w\<lparr>wd_pods := ObjectKey p # wd_pods w\<rparr>"
  have "k8s_Create sample_k8s p w = ((None, p), ?w)"
    using assms(2) by (simp add: sample_k8s_def)
  moreover have "\<exists>p2. wait_running sample_k8s sample_clock dl p ?w = Some (Ok (), p2, ?w)" for dl
    by (subst wait_running.simps) (simp add: sample_k8s_def IgnoreNotFound_def)
  then obtain p2 where
    "wait_running sample_k8s sample_clock (clk_now sample_clock ?w + start_timeout) p ?w = Some (Ok (), p2, ?w)"
    by blast
  ultimately show ?thesis
    by (simp add: launch_def finish_start_def sample_deps_def sample_ctrd_def return_ok_def
        container_SetProperty_def Let_def)
qed

lemma sample_prepare:
  assumes "cl_view c h = None" "pm_Next (cl_ports c) = (Ok port, pm)"
  shows "\<exists>p ct c1. prepare (sample_deps\<lparr>d_k8s := k\<rparr>) c (sample_spec h [auto_rule]) w =
       (Ok (p, ct), [auto_rule\<lparr>ni_HostPort := port\<rparr>], c1, w) \<and>
     ObjectKey p = (cfg_workloadsNamespace (cl_config c), h) \<and> cl_view c1 h = Some ct"
proof -
  let ?d = "sample_deps\<lparr>d_k8s := k\<rparr>" and ?spec = "sample_spec h [auto_rule]"
  let ?cpu = "cpu_assignment (cl_config c) ?spec"
  let ?ports = "[container_port_of auto_rule port]"
  have alloc: "alloc_ports pm_Next (spec_NetIn ?spec) (cl_ports c) = (Ok ?ports, [auto_rule\<lparr>ni_HostPort := port\<rparr>], pm)"
    using assms(2) by (simp add: sample_spec_def auto_rule_def)
  have res: "resolve_image ?d ?spec w = (Ok (''/stacks/cflinuxfs4.tar'', [], 0), w)"
    by (simp add: resolve_image_def sample_spec_def CutPrefix_def return_ok_def)
  have nob: "spec_BindMounts ?spec = []" by (simp add: sample_spec_def)
  obtain p w2 where bp: "build_pod (cl_config c) (d_OwnerKey ?d) (d_IntOutOfRange ?d)
      (d_IntN ?d) ?spec ?cpu ?ports ''/stacks/cflinuxfs4.tar'' 0 w = (p, w2)" by (metis prod.exhaust)
  then have w2: "w2 = w" by (simp add: build_pod_def nob)
  from bp have key: "ObjectKey p = (cfg_workloadsNamespace (cl_config c), h)"
    by (simp add: ObjectKey_def) (metis fst_conv pod_Name_build pod_Namespace_build sample_spec_def
        container_spec.select_convs(1))
  have "cl_view c (spec_Handle ?spec) = None" "spec_Handle ?spec = h"
    using assms(1) by (simp_all add: sample_spec_def)
  from prepare_reaches [OF this(1) alloc res bp [unfolded w2]] this(2) key show ?thesis by auto
qed

lemma sample_create:
  assumes "cl_view c h = None" "pm_Next (cl_ports c) = (Ok port, pm)"
    "(cfg_workloadsNamespace (cl_config c), h) \<notin> set (wd_pods w)"
  shows "\<exists>ct c'. client_Create sample_deps c (sample_spec h [auto_rule]) w =
     Some (Ok ct, [auto_rule\<lparr>ni_HostPort := port\<rparr>], c',
       w\<lparr>wd_pods := (cfg_workloadsNamespace (cl_config c), h) # wd_pods w\<rparr>)"
proof -
  from sample_prepare [OF assms(1,2), of "d_k8s sample_deps" w] obtain p ct c1 where
    prep: "prepare sample_deps c (sample_spec h [auto_rule]) w =
        (Ok (p, ct), [auto_rule\<lparr>ni_HostPort := port\<rparr>], c1, w)"
      "ObjectKey p = (cfg_workloadsNamespace (cl_config c), h)" "cl_view c1 h = Some ct"
    by auto
  then obtain x c' where "launch sample_deps h p ct c1 w = Some (Ok x, c', w\<lparr>wd_pods := ObjectKey p # wd_pods w\<rparr>)"
    using sample_launch [of c1 h ct p w] assms(3) by auto
  with prep show ?thesis by (simp add: client_Create_def sample_spec_def)
qed

lemma sample_first:
  obtains ct c where
    "client_Create sample_deps sample_client (sample_spec ''h1'' [auto_rule]) sample_world =
       Some (Ok ct, [auto_rule\<lparr>ni_HostPort := 62000\<rparr>], c, \<lparr>wd_now = 0, wd_pods = [(''cf-workloads'', ''h1'')]\<rparr>)"
proof -
  have "pm_Next (cl_ports sample_client) = (Ok 62000, \<lparr>allocated = {62000}\<rparr>)"
    by (simp add: sample_client_def newPortManager_def pm_Next_def first_free_unfold startPort_def MaxUint16_def)
  moreover have "cl_view sample_client ''h1'' = None"
    by (simp add: sample_client_def cm.view_empty)
  moreover have "cfg_workloadsNamespace (cl_config sample_client) = ''cf-workloads''"
    by (simp add: sample_client_def sample_client_config_def)
  ultimately show thesis
    using sample_create [of sample_client "''h1''" 62000 "\<lparr>allocated = {62000}\<rparr>" sample_world] that
    by (auto simp: sample_world_def)
qed

lemma all_auto_sample [simp]: "all_auto (sample_spec h [auto_rule])"
  by (simp add: all_auto_def sample_spec_def auto_rule_def)

lemma sample_second:
  obtains ct1 c1 w1 ct2 c2 w2 where
    "client_Create sample_deps sample_client (sample_spec ''h1'' [auto_rule]) sample_world =
       Some (Ok ct1, [auto_rule\<lparr>ni_HostPort := 62000\<rparr>], c1, w1)"
    "client_Create sample_deps c1 (sample_spec ''h2'' [auto_rule]) w1 =
       Some (Ok ct2, [auto_rule\<lparr>ni_HostPort := 62001\<rparr>], c2, w2)"
proof (rule sample_first)
  fix ct c
  let ?w = "\<lparr>wd_now = 0, wd_pods = [(''cf-workloads'', ''h1'')]\<rparr>"
  assume 1: "client_Create sample_deps sample_client (sample_spec ''h1'' [auto_rule]) sample_world =
     Some (Ok ct, [auto_rule\<lparr>ni_HostPort := 62000\<rparr>], c, ?w)"
  from create_Ok [OF sample_keeps this]
  have reg: "create_registered (sample_spec ''h1'' [auto_rule]) [auto_rule\<lparr>ni_HostPort := 62000\<rparr>] ct sample_client c" ..
  have held: "cl_held c = {62000}" "cl_view c ''h2'' = None" "cl_config c = cl_config sample_client"
    using registered_auto [OF reg all_auto_sample] reg
    by (simp_all add: sample_client_def newPortManager_def create_registered_def sample_spec_def cm.view_empty)
  then have "pm_Next (cl_ports c) = (Ok 62001, (cl_ports c)\<lparr>allocated := {62000, 62001}\<rparr>)"
    by (simp add: pm_Next_def first_free_unfold startPort_def MaxUint16_def insert_commute)
  with held obtain ct2 c2 where "client_Create sample_deps c (sample_spec ''h2'' [auto_rule]) ?w =
     Some (Ok ct2, [auto_rule\<lparr>ni_HostPort := 62001\<rparr>], c2,
       ?w\<lparr>wd_pods := (cfg_workloadsNamespace (cl_config c), ''h2'') # wd_pods ?w\<rparr>)"
    using sample_create [of c "''h2''" 62001 "(cl_ports c)\<lparr>allocated := {62000, 62001}\<rparr>" ?w]
    by (auto simp: sample_client_def sample_client_config_def)
  with 1 show thesis by (rule that)
qed

text \<open>Every pod can be deleted, and so a \<open>Destroy\<close> of a registered handle succeeds.\<close>

lemma sample_deletePod: "\<exists>w'. deletePod (d_k8s sample_deps) (d_clock sample_deps) p w = Some (None, w')"
proof -
  have "\<exists>w'. wait_deleted sample_k8s sample_clock dl p (w\<lparr>wd_pods := removeAll (ObjectKey p) (wd_pods w)\<rparr>) =
      Some (None, w')" for dl
    by (subst wait_deleted.simps) (simp add: sample_k8s_def IgnoreNotFound_def)
  then show ?thesis
    by (auto simp: deletePod_def Let_def sample_k8s_def IgnoreNotFound_def sample_deps_def)
qed

lemma sample_destroy:
  assumes "cl_view c h = Some ct"
  shows "\<exists>c' w'. client_Destroy sample_deps c h w = Some (Ok (), c', w')"
proof -
  obtain w' where "deletePod (d_k8s sample_deps) (d_clock sample_deps) (ct_pod ct) w = Some (None, w')"
    using sample_deletePod by blast
  with assms show ?thesis
    by (simp add: client_Destroy_def cm.get_eq sample_deps_def Let_def sample_props_def)
qed

text \<open>A \<open>Create\<close> whose image cannot be pulled fails after a port has been chosen.\<close>

definition missing_image_spec :: "string \<Rightarrow> net_in list \<Rightarrow> container_spec" where
  "missing_image_spec h nis = (sample_spec h nis)
     \<lparr>spec_Image := \<lparr>ref_URI = ''docker:missing'', ref_Username = [], ref_Password = []\<rparr>\<rparr>"

lemma sample_missing_image:
  "\<exists>e. client_Create sample_deps sample_client (missing_image_spec ''h1'' [auto_rule]) sample_world =
     Some (Err e, [auto_rule\<lparr>ni_HostPort := 62000\<rparr>],
       sample_client\<lparr>cl_ports := \<lparr>allocated = {62000}\<rparr>\<rparr>, sample_world)"
proof -
  let ?spec = "missing_image_spec ''h1'' [auto_rule]"
  have "pm_Next (cl_ports sample_client) = (Ok 62000, \<lparr>allocated = {62000}\<rparr>)"
    by (simp add: sample_client_def newPortManager_def pm_Next_def first_free_unfold startPort_def MaxUint16_def)
  then have alloc: "alloc_ports pm_Next (spec_NetIn ?spec) (cl_ports sample_client) =
      (Ok [container_port_of auto_rule 62000], [auto_rule\<lparr>ni_HostPort := 62000\<rparr>], \<lparr>allocated = {62000}\<rparr>)"
    by (simp add: missing_image_spec_def sample_spec_def auto_rule_def)
  have "docker_ref ''missing'' = ''missing''" by code_simp
  then have res: "resolve_image sample_deps ?spec sample_world =
      (Err (ErrorfW ''failed to pull docker image: %w'' [] (ExtErr ''no such image'')), sample_world)"
    by (simp add: resolve_image_def missing_image_spec_def sample_spec_def CutPrefix_def
        resolve_docker_def sample_deps_def sample_ctrd_def return_err_def andthen_def wrapping_def)
  have "\<not> cm_Exists (spec_Handle ?spec) (cl_containers sample_client)"
    by (simp add: cm.exists_eq sample_client_def cm.view_empty)
  then show ?thesis
    by (simp add: client_Create_def prepare_def alloc res Let_def)
qed

end
