(* ===== verification/PortLedger.thy ===== *)
theory PortLedger
  imports Sample
begin

section \<open>The client as a ledger of host ports\<close>

text \<open>
  The abstract specification of what \<open>Create\<close> and \<open>Destroy\<close> do with host ports: a ledger of
  which handle claims which ports and a pool of the ports taken. Its steps open an account with
  new ports, close one and return its ports, lose ports from the pool of the free ones, or do
  nothing. The client, through \<open>ledger_of\<close>, only takes steps of the ledger.
\<close>

record ledger =
  lg_claims :: "string \<rightharpoonup> u32 list"
  lg_pool :: "u32 set"

inductive ledger_step :: "ledger \<Rightarrow> ledger \<Rightarrow> bool" where
  opened: "lg_claims l h = None \<Longrightarrow> distinct ps \<Longrightarrow> set ps \<subseteq> port_window - lg_pool l \<Longrightarrow>
     ledger_step l \<lparr>lg_claims = (lg_claims l)(h \<mapsto> ps), lg_pool = lg_pool l \<union> set ps\<rparr>"
| closed: "lg_claims l h = Some ps \<Longrightarrow>
     ledger_step l \<lparr>lg_claims = (lg_claims l)(h := None), lg_pool = lg_pool l - set ps\<rparr>"
| lost: "ps \<subseteq> port_window \<Longrightarrow> ledger_step l \<lparr>lg_claims = lg_claims l, lg_pool = lg_pool l \<union> ps\<rparr>"

inductive_cases ledger_stepE: "ledger_step l l'"

definition ledger_of :: "('task, 'pm) client \<Rightarrow> ledger" where
  "ledger_of c = \<lparr>lg_claims = (\<lambda>h. map_option (\<lambda>ct. pod_host_ports (ct_pod ct)) (cl_view c h)),
     lg_pool = cl_held c\<rparr>"

lemma ledger_stutter: "ledger_step l l"
proof -
  have "\<lparr>lg_claims = lg_claims l, lg_pool = lg_pool l\<rparr> = l" by simp
  with lost [of "{}" l] show ?thesis by simp
qed

lemma ledger_of_same:
  "cl_containers c' = cl_containers c \<Longrightarrow> cl_held c \<subseteq> cl_held c' \<Longrightarrow> cl_held c' \<subseteq> cl_held c \<union> port_window \<Longrightarrow>
   ledger_step (ledger_of c) (ledger_of c')"
  using lost [of "cl_held c' - cl_held c" "ledger_of c"] by (auto simp: ledger_of_def Un_absorb1)

lemma ledger_of_registered:
  assumes "create_registered spec nis ct c c'" "all_auto spec"
  shows "ledger_step (ledger_of c) (ledger_of c')"
proof -
  note a = registered_auto [OF assms] and p = registered_host_ports [OF assms(1)]
  have v: "cl_view c (spec_Handle spec) = None" "cl_view c' = (cl_view c)(spec_Handle spec \<mapsto> ct)"
    using assms(1) by (simp_all add: create_registered_def)
  have "ledger_of c' = \<lparr>lg_claims = (lg_claims (ledger_of c))(spec_Handle spec \<mapsto> map ni_HostPort nis),
      lg_pool = lg_pool (ledger_of c) \<union> set (map ni_HostPort nis)\<rparr>"
    using a p v(2) by (auto simp: ledger_of_def)
  moreover have "lg_claims (ledger_of c) (spec_Handle spec) = None" by (simp add: ledger_of_def v(1))
  moreover have "set (map ni_HostPort nis) \<subseteq> port_window - lg_pool (ledger_of c)"
    "distinct (map ni_HostPort nis)" using a by (simp_all add: ledger_of_def)
  ultimately show ?thesis using ledger_step.opened by metis
qed

lemma ledger_of_destroyed:
  assumes "destroyed h ct c c'"
  shows "ledger_step (ledger_of c) (ledger_of c')"
proof -
  have "lg_claims (ledger_of c) h = Some (pod_host_ports (ct_pod ct))"
    using assms by (simp add: ledger_of_def destroyed_def)
  moreover have "ledger_of c' = \<lparr>lg_claims = (lg_claims (ledger_of c))(h := None),
      lg_pool = lg_pool (ledger_of c) - set (pod_host_ports (ct_pod ct))\<rparr>"
    using assms by (auto simp: ledger_of_def destroyed_def)
  ultimately show ?thesis using ledger_step.closed by metis
qed

lemma client_step_ledger:
  assumes "client_step d all_auto s s'" "k8s_keeps (d_k8s d)"
  shows "ledger_step (ledger_of (fst s)) (ledger_of (fst s'))"
  using assms(1)
proof (cases rule: client_step.cases)
  case (create spec c w r nis c' w')
  from assms(2) create(4) show ?thesis
  proof (cases rule: create_cases)
    case rejected
    with create show ?thesis by (auto simp: create_rejected_def intro: ledger_of_same)
  next
    case (registered ct)
    with create show ?thesis by (auto intro: ledger_of_registered)
  qed
next
  case (destroy c h w r c' w')
  from destroy_cases [OF destroy(3)] show ?thesis
    by cases (use destroy in \<open>auto intro: ledger_stutter ledger_of_destroyed\<close>)
qed (auto simp: ledger_of_def intro: ledger_stutter)

text \<open>C2: As long as all specs leave the host ports to the client, the client refines the ledger:
  every history of such \<open>Create\<close> calls and of \<open>Destroy\<close> calls is, seen through the claimed and the
  allocated ports, a history of the ledger. (A spec that names a host port takes it without
  reserving it, which no step of the ledger does.)\<close>

theorem client_refines_ledger:
  assumes "client_run d all_auto s s'" and "k8s_keeps (d_k8s d)"
  shows "ledger_step\<^sup>*\<^sup>* (ledger_of (fst s)) (ledger_of (fst s'))"
  using assms(1)
  by (induction rule: client_run.induct) (auto intro: client_step_ledger [OF _ assms(2)] rtranclp.rtrancl_into_rtrancl)

theorem client_refines_ledger_witness:
  "\<exists>c w. client_run sample_deps all_auto (sample_client, sample_world) (c, w) \<and>
     ledger_step\<^sup>*\<^sup>* (ledger_of sample_client) (ledger_of c) \<and> ledger_of c \<noteq> ledger_of sample_client"
proof (rule sample_first)
  fix ct c
  let ?w = "\<lparr>wd_now = 0, wd_pods = [(''cf-workloads'', ''h1'')]\<rparr>"
  assume 1: "client_Create sample_deps sample_client (sample_spec ''h1'' [auto_rule]) sample_world =
     Some (Ok ct, [auto_rule\<lparr>ni_HostPort := 62000\<rparr>], c, ?w)"
  have run: "client_run sample_deps all_auto (sample_client, sample_world) (c, ?w)"
    by (rule run_step [OF run_refl client_step.create [OF _ 1]]) simp
  have "62000 \<in> cl_held c" "62000 \<notin> cl_held sample_client"
    using registered_auto [OF create_Ok [OF sample_keeps 1, THEN conjunct1] all_auto_sample]
    by (simp_all add: sample_client_def newPortManager_def)
  then have "ledger_of c \<noteq> ledger_of sample_client" by (auto simp: ledger_of_def)
  with client_refines_ledger [OF run sample_keeps] run show ?thesis by auto
qed

subsection \<open>How many ports fit\<close>

lemma claimed_finite:
  assumes "ports_owned c"
  shows "(\<Sum>h \<in> dom (cl_view c). length (pod_host_ports (ct_pod (the (cl_view c h))))) \<le> card port_window"
proof -
  note own = ports_ownedD [OF assms]
  have fin: "finite (dom (cl_view c))" unfolding cm_view_def by (rule finite_dom_map_of)
  have "length (pod_host_ports (ct_pod (the (cl_view c h)))) = card (claims c h)" if "h \<in> dom (cl_view c)" for h
    using that own(4) [of h] by (auto simp: distinct_card)
  then have "(\<Sum>h \<in> dom (cl_view c). length (pod_host_ports (ct_pod (the (cl_view c h))))) =
      (\<Sum>h \<in> dom (cl_view c). card (claims c h))" by simp
  also have "\<dots> = card (\<Union>h \<in> dom (cl_view c). claims c h)"
  proof (rule card_UN_disjoint [symmetric])
    show "\<forall>h \<in> dom (cl_view c). finite (claims c h)" by (simp split: option.split)
    show "\<forall>h \<in> dom (cl_view c). \<forall>h' \<in> dom (cl_view c). h \<noteq> h' \<longrightarrow> claims c h \<inter> claims c h' = {}"
      using own(6) by blast
  qed (rule fin)
  also have "\<dots> \<le> card port_window"
    using own(2,5) by (intro card_mono) auto
  finally show ?thesis .
qed

text \<open>C25: However containers are created and destroyed, as long as all specs leave the host ports to
  the client, the registered containers of a client that started on an empty node never claim more than 3535 host ports in total, the ports from
  62000 to 65534: the last one, 65535, is never given out.\<close>

theorem port_capacity:
  assumes "fresh_client c0" and "k8s_keeps (d_k8s d)" and "client_run d all_auto (c0, w0) (c, w)"
  shows "(\<Sum>h \<in> dom (cl_view c). length (pod_host_ports (ct_pod (the (cl_view c h))))) \<le> 3535 \<and>
     65535 \<notin> claims c h"
proof -
  have own: "ports_owned c"
    using run_keeps_owned [OF assms(3,2)] fresh_client_owned [OF assms(1)] by simp
  have "65535 \<notin> port_window" by (simp add: port_window_def MaxUint16_def)
  then have "65535 \<notin> claims c h" using ports_ownedD(2,5) [OF own] by blast
  then show ?thesis using claimed_finite [OF own] by (auto simp: card_port_window)
qed

theorem port_capacity_witness:
  "\<exists>c w. client_run sample_deps all_auto (sample_client, sample_world) (c, w) \<and> cl_view c ''h1'' \<noteq> None \<and>
     (\<Sum>h \<in> dom (cl_view c). length (pod_host_ports (ct_pod (the (cl_view c h))))) \<le> 3535"
proof (rule sample_first)
  fix ct c
  let ?w = "\<lparr>wd_now = 0, wd_pods = [(''cf-workloads'', ''h1'')]\<rparr>"
  assume 1: "client_Create sample_deps sample_client (sample_spec ''h1'' [auto_rule]) sample_world =
     Some (Ok ct, [auto_rule\<lparr>ni_HostPort := 62000\<rparr>], c, ?w)"
  have run: "client_run sample_deps all_auto (sample_client, sample_world) (c, ?w)"
    by (rule run_step [OF run_refl client_step.create [OF _ 1]]) simp
  have "cl_view c ''h1'' \<noteq> None"
    using create_Ok [OF sample_keeps 1] by (simp add: create_registered_def sample_spec_def)
  with port_capacity [OF sample_fresh sample_keeps run] run show ?thesis by blast
qed

end
