(* ===== verification/KlogSink.thy ===== *)
theory KlogSink
  imports Prelude
begin

section \<open>The log sink (pkg/k8sgarden/log/klog_sink.go)\<close>

text \<open>
  The adapter from \<open>logr\<close> to \<open>lager\<close>. A value of type \<open>any\<close> is a string or
  something else; the lager operations are a record of functions on a logger.
\<close>

datatype any_value = AnyString string | AnyOther string

record ('l, 'w) lager_ops =
  lg_Session :: "'l \<Rightarrow> string \<Rightarrow> (string, any_value) gomap list \<Rightarrow> 'l"
  lg_Info :: "'l \<Rightarrow> string \<Rightarrow> (string, any_value) gomap \<Rightarrow> 'w \<Rightarrow> 'w"
  lg_Error :: "'l \<Rightarrow> string \<Rightarrow> goerr option \<Rightarrow> (string, any_value) gomap \<Rightarrow> 'w \<Rightarrow> 'w"

record 'l sink =
  sink_logger :: 'l

definition NewSink :: "'l \<Rightarrow> 'l sink" where
  "NewSink logger = \<lparr>sink_logger = logger\<rparr>"

text \<open>The loop \<open>for i := 0; i < len(keysAndValues)-1; i += 2\<close>, over the index.\<close>

function key_values_loop ::
  "any_value list \<Rightarrow> nat \<Rightarrow> (string, any_value) gomap \<Rightarrow> (string, any_value) gomap" where
  "key_values_loop kvs i lagerData =
     (if int i < int (length kvs) - 1
      then key_values_loop kvs (i + 2)
             (case kvs ! i of AnyString key \<Rightarrow> gm_put key (kvs ! (i + 1)) lagerData
                            | AnyOther _ \<Rightarrow> lagerData)
      else lagerData)"
  by pat_completeness auto
termination by (relation "measure (\<lambda>(kvs, i, _). length kvs - i)") auto

declare key_values_loop.simps [simp del]

definition lagerDataFromKeyValues :: "any_value list \<Rightarrow> (string, any_value) gomap" where
  "lagerDataFromKeyValues keysAndValues =
     (if 0 < length keysAndValues then key_values_loop keysAndValues 0 [] else [])"

definition sink_Enabled :: "'l sink \<Rightarrow> int \<Rightarrow> bool" where
  "sink_Enabled s level = True"

definition sink_Error ::
  "('l, 'w) lager_ops \<Rightarrow> 'l sink \<Rightarrow> goerr option \<Rightarrow> string \<Rightarrow> any_value list \<Rightarrow> 'w \<Rightarrow> 'w" where
  "sink_Error lg s err msg kvs = lg_Error lg (sink_logger s) msg err (lagerDataFromKeyValues kvs)"

definition sink_Info ::
  "('l, 'w) lager_ops \<Rightarrow> 'l sink \<Rightarrow> int \<Rightarrow> string \<Rightarrow> any_value list \<Rightarrow> 'w \<Rightarrow> 'w" where
  "sink_Info lg s level msg kvs = lg_Info lg (sink_logger s) msg (lagerDataFromKeyValues kvs)"

definition sink_WithName :: "('l, 'w) lager_ops \<Rightarrow> 'l sink \<Rightarrow> string \<Rightarrow> 'l sink" where
  "sink_WithName lg s name = NewSink (lg_Session lg (sink_logger s) name [])"

definition sink_WithValues :: "('l, 'w) lager_ops \<Rightarrow> 'l sink \<Rightarrow> any_value list \<Rightarrow> 'l sink" where
  "sink_WithValues lg s kvs = NewSink (lg_Session lg (sink_logger s) [] [lagerDataFromKeyValues kvs])"

subsection \<open>What the data holds\<close>

text \<open>
  Position \<open>i\<close> holds the pair of \<open>k\<close> and \<open>v\<close>: an even position with a value after
  it.
\<close>

definition pair_at :: "any_value list \<Rightarrow> nat \<Rightarrow> string \<Rightarrow> any_value \<Rightarrow> bool" where
  "pair_at kvs i k v \<longleftrightarrow>
     even i \<and> i + 1 < length kvs \<and> kvs ! i = AnyString k \<and> kvs ! (i + 1) = v"

lemma key_values_loop_unfold:
  "i + 1 < length kvs \<Longrightarrow> key_values_loop kvs i m = key_values_loop kvs (i + 2)
     (case kvs ! i of AnyString key \<Rightarrow> gm_put key (kvs ! (i + 1)) m | AnyOther _ \<Rightarrow> m)"
  "\<not> i + 1 < length kvs \<Longrightarrow> key_values_loop kvs i m = m"
  by (simp_all add: key_values_loop.simps [of kvs i])

lemma even_ge_cases: "even i \<Longrightarrow> even j \<Longrightarrow> i \<le> j \<Longrightarrow> j = i \<or> i + 2 \<le> (j :: nat)"
  by presburger

lemma key_values_loop_Some:
  "even i \<Longrightarrow> map_of (key_values_loop kvs i m) k = Some v \<longleftrightarrow>
     (\<exists>j. i \<le> j \<and> pair_at kvs j k v \<and> (\<forall>j' v'. j < j' \<longrightarrow> \<not> pair_at kvs j' k v')) \<or>
     map_of m k = Some v \<and> (\<forall>j v'. i \<le> j \<longrightarrow> \<not> pair_at kvs j k v')"
proof (induction kvs i m rule: key_values_loop.induct)
  case (1 kvs i m)
  show ?case
  proof (cases "i + 1 < length kvs")
    case False
    then have "i \<le> j \<Longrightarrow> \<not> pair_at kvs j k v'" for j v' by (auto simp: pair_at_def)
    with False show ?thesis by (auto simp: key_values_loop_unfold)
  next
    case True
    let ?m = "case kvs ! i of AnyString key \<Rightarrow> gm_put key (kvs ! (i + 1)) m | AnyOther _ \<Rightarrow> m"
    have ge: "i \<le> j \<longleftrightarrow> j = i \<or> i + 2 \<le> j" and gt: "i < j \<longleftrightarrow> i + 2 \<le> j" if "pair_at kvs j k v'" for j v'
    proof -
      have "even j" using that by (simp add: pair_at_def)
      with \<open>even i\<close> show "i \<le> j \<longleftrightarrow> j = i \<or> i + 2 \<le> j" "i < j \<longleftrightarrow> i + 2 \<le> j"
        by presburger+
    qed
    let ?none_after = "\<lambda>j. \<forall>j' v'. j < j' \<longrightarrow> \<not> pair_at kvs j' k v'"
    have later: "?none_after i \<longleftrightarrow> (\<forall>j v'. i + 2 \<le> j \<longrightarrow> \<not> pair_at kvs j k v')"
      using gt by blast
    have here: "map_of ?m k = Some v' \<longleftrightarrow>
        pair_at kvs i k v' \<or> (map_of m k = Some v' \<and> (\<forall>v''. \<not> pair_at kvs i k v''))" for v'
      using True \<open>even i\<close> by (auto simp: pair_at_def split: any_value.split)
    have "map_of (key_values_loop kvs i m) k = Some v \<longleftrightarrow>
       (\<exists>j. i + 2 \<le> j \<and> pair_at kvs j k v \<and> (\<forall>j' v'. j < j' \<longrightarrow> \<not> pair_at kvs j' k v')) \<or>
       map_of ?m k = Some v \<and> (\<forall>j v'. i + 2 \<le> j \<longrightarrow> \<not> pair_at kvs j k v')"
      using True 1 by (simp add: key_values_loop_unfold)
    moreover have "(\<exists>j. i \<le> j \<and> pair_at kvs j k v \<and> ?none_after j) \<longleftrightarrow>
        (pair_at kvs i k v \<and> ?none_after i) \<or> (\<exists>j. i + 2 \<le> j \<and> pair_at kvs j k v \<and> ?none_after j)"
      (is "?E = (?I \<or> ?E2)")
    proof
      show "?E \<Longrightarrow> ?I \<or> ?E2" using ge by metis
      show "?I \<or> ?E2 \<Longrightarrow> ?E" using ge by (elim disjE exE) auto
    qed
    moreover have "(\<forall>j v'. i \<le> j \<longrightarrow> \<not> pair_at kvs j k v') \<longleftrightarrow>
        (\<forall>v'. \<not> pair_at kvs i k v') \<and> (\<forall>j v'. i + 2 \<le> j \<longrightarrow> \<not> pair_at kvs j k v')"
      using ge by blast
    ultimately show ?thesis unfolding here [of v] later by argo
  qed
qed

lemma lagerData_Some:
  "map_of (lagerDataFromKeyValues kvs) k = Some v \<longleftrightarrow>
     (\<exists>i. pair_at kvs i k v \<and> (\<forall>j w. i < j \<longrightarrow> \<not> pair_at kvs j k w))"
proof (cases kvs)
  case Nil
  then show ?thesis by (simp add: lagerDataFromKeyValues_def pair_at_def)
next
  case (Cons x xs)
  then show ?thesis by (simp add: lagerDataFromKeyValues_def key_values_loop_Some)
qed

subsection \<open>Properties\<close>

text \<open>C40: The data the sink logs for a key is the value that follows its last occurrence as a
  string at an even position; keys that are not strings and a last key without a value are
  dropped.\<close>

theorem key_values_last_wins:
  "map_of (lagerDataFromKeyValues kvs) k = Some v \<longleftrightarrow>
     (\<exists>i. pair_at kvs i k v \<and> \<not> (\<exists>j w. i < j \<and> pair_at kvs j k w))"
  by (subst lagerData_Some) blast

end
