(* ===== verification/Watch.thy ===== *)
theory Watch
  imports Prelude
begin

section \<open>The evacuation watcher (cmd/watch/main.go)\<close>

text \<open>
  The watcher waits until its node becomes unschedulable, asks the rep to evacuate, and pings it
  until it is gone. The HTTP client, the body of a response and \<open>json.Unmarshal\<close> into a
  \<open>map[string]string\<close> are the record \<open>http_lib\<close>; the calls made are recorded.
\<close>

datatype http_call = CallDo string string string string | CallReadAll | CallClose | CallSleep nat

record response =
  rs_StatusCode :: nat
  rs_Body :: nat

record 'w http_lib =
  hl_Do :: "string \<Rightarrow> string \<Rightarrow> 'w \<Rightarrow> response res \<times> 'w"
  hl_ReadAll :: "nat \<Rightarrow> ('w, string) act"
  hl_Close :: "nat \<Rightarrow> 'w \<Rightarrow> unit \<times> 'w"
  hl_Unmarshal :: "string \<Rightarrow> (string, string) gomap res"
  hl_Sleep :: "nat \<Rightarrow> 'w \<Rightarrow> unit \<times> 'w"

subsection \<open>newClient\<close>

text \<open>A client, or the fatal log entry the process ends with.\<close>

record tls_client =
  hc_Timeout :: nat
  hc_RootCAs :: "string list"
  hc_Certificates :: "string list"

definition newClient ::
  "(string \<Rightarrow> string res) \<Rightarrow> (string \<Rightarrow> string \<Rightarrow> string res) \<Rightarrow> (string \<Rightarrow> string list) \<Rightarrow> string + tls_client" where
  "newClient ReadFile LoadX509KeyPair certs_in_pem =
     (case ReadFile ''/etc/ssl/certs/rep/ca.crt'' of
        Ok ca \<Rightarrow>
          (case LoadX509KeyPair ''/etc/ssl/certs/rep/tls.crt'' ''/etc/ssl/certs/rep/tls.key'' of
             Ok cert \<Rightarrow>
               if certs_in_pem ca = [] then Inl ''Failed to append CA certificate''
               else Inr \<lparr>hc_Timeout = 30, hc_RootCAs = certs_in_pem ca, hc_Certificates = [cert]\<rparr>
           | _ \<Rightarrow> Inl ''Failed to load client certificate/key'')
      | _ \<Rightarrow> Inl ''Failed to read CA certificate'')"

subsection \<open>evacuate\<close>

definition rep_host :: string where
  "rep_host = ''localhost:1800''"

definition StatusOK :: nat where
  "StatusOK = 200"

text \<open>The body is read only on status 200 and closed on every way out.\<close>

definition read_ping_path ::
  "'w http_lib \<Rightarrow> response \<Rightarrow> (http_call, 'w) traced \<Rightarrow> string \<times> (http_call, 'w) traced" where
  "read_ping_path lib resp st =
     (if rs_StatusCode resp = StatusOK
      then (case call CallReadAll (hl_ReadAll lib (rs_Body resp)) st of
              (Ok body, st1) \<Rightarrow>
                (case hl_Unmarshal lib body of
                   Ok resultbody \<Rightarrow>
                     ((case map_of resultbody ''ping_path'' of Some p \<Rightarrow> p | None \<Rightarrow> []), st1)
                 | _ \<Rightarrow> ([], st1))
            | (_, st1) \<Rightarrow> ([], st1))
      else ([], st))"

definition evacuate ::
  "'w http_lib \<Rightarrow> (http_call, 'w) traced \<Rightarrow> string \<times> (http_call, 'w) traced" where
  "evacuate lib st =
     (case call (CallDo ''POST'' ''https'' rep_host ''/evacuate'') (hl_Do lib ''POST'' ''/evacuate'') st of
        (Ok resp, st1) \<Rightarrow>
          (case read_ping_path lib resp st1 of
             (path, st2) \<Rightarrow> (case call CallClose (hl_Close lib (rs_Body resp)) st2 of (_, st3) \<Rightarrow> (path, st3)))
      | (_, st1) \<Rightarrow> ([], st1))"

subsection \<open>pingForever\<close>

definition ping_url_path :: "string \<Rightarrow> string" where
  "ping_url_path pingPath = ''/'' @ pingPath"

definition ping_once ::
  "'w http_lib \<Rightarrow> string \<Rightarrow> (http_call, 'w) traced \<Rightarrow> bool \<times> (http_call, 'w) traced" where
  "ping_once lib pingPath st =
     (case call (CallDo ''GET'' ''https'' rep_host (ping_url_path pingPath))
             (hl_Do lib ''GET'' (ping_url_path pingPath)) st of
        (Ok resp, st1) \<Rightarrow> (True, snd (call (CallSleep 10) (hl_Sleep lib 10) st1))
      | (_, st1) \<Rightarrow> (False, st1))"

text \<open>\<open>None\<close>: the loop never returns.\<close>

partial_function (option) pingForever ::
  "'w http_lib \<Rightarrow> string \<Rightarrow> (http_call, 'w) traced \<Rightarrow> (http_call, 'w) traced option" where
  "pingForever lib pingPath st =
     (let r = ping_once lib pingPath st
      in if fst r then pingForever lib pingPath (snd r) else Some (snd r))"

text \<open>The state after \<open>n\<close> rounds of the loop that got an answer.\<close>

definition after_pings ::
  "'w http_lib \<Rightarrow> string \<Rightarrow> nat \<Rightarrow> (http_call, 'w) traced \<Rightarrow> (http_call, 'w) traced" where
  "after_pings lib pingPath n = (\<lambda>st. snd (ping_once lib pingPath st)) ^^ n"

definition answers ::
  "'w http_lib \<Rightarrow> string \<Rightarrow> nat \<Rightarrow> (http_call, 'w) traced \<Rightarrow> bool" where
  "answers lib pingPath n st \<longleftrightarrow> fst (ping_once lib pingPath (after_pings lib pingPath n st))"

lemma after_pings_0 [simp]: "after_pings lib p 0 st = st"
  by (simp add: after_pings_def)

lemma after_pings_Suc: "after_pings lib p (Suc n) st = after_pings lib p n (snd (ping_once lib p st))"
  by (simp add: after_pings_def funpow_Suc_right del: funpow.simps)

lemma after_pings_Suc': "after_pings lib p (Suc n) st = snd (ping_once lib p (after_pings lib p n st))"
  by (simp add: after_pings_def)

lemma answers_Suc: "answers lib p (Suc n) st = answers lib p n (snd (ping_once lib p st))"
  by (simp add: answers_def after_pings_Suc)

lemma answers_0: "answers lib p 0 st = fst (ping_once lib p st)"
  by (simp add: answers_def)

lemma pingForever_first_failure:
  "\<forall>i < n. answers lib p i st \<Longrightarrow> \<not> answers lib p n st \<Longrightarrow>
   pingForever lib p st = Some (after_pings lib p (Suc n) st)"
proof (induction n arbitrary: st)
  case 0
  then show ?case
    by (subst pingForever.simps) (simp add: answers_0 after_pings_Suc)
next
  case (Suc n)
  then have "answers lib p 0 st" by blast
  moreover have "\<forall>i < n. answers lib p i (snd (ping_once lib p st))"
    using Suc.prems(1) answers_Suc by (metis Suc_less_eq)
  moreover have "\<not> answers lib p n (snd (ping_once lib p st))"
    using Suc.prems(2) by (simp add: answers_Suc)
  ultimately show ?case using Suc.IH
    by (subst pingForever.simps) (simp add: answers_0 after_pings_Suc [of _ _ "Suc n"])
qed

lemma pingForever_returns:
  assumes "pingForever lib p st = Some st'"
  shows "\<exists>n. \<not> answers lib p n st"
proof (rule pingForever.raw_induct [OF _ assms])
  fix f :: "'a http_lib \<Rightarrow> string \<Rightarrow> (http_call, 'a) traced \<Rightarrow> (http_call, 'a) traced option"
    and lib :: "'a http_lib" and p st st'
  assume IH: "\<And>lib p st st'. f lib p st = Some st' \<Longrightarrow> \<exists>n. \<not> answers lib p n st"
    and step: "(let r = ping_once lib p st in if fst r then f lib p (snd r) else Some (snd r)) = Some st'"
  show "\<exists>n. \<not> answers lib p n st"
  proof (cases "fst (ping_once lib p st)")
    case True
    with step have "f lib p (snd (ping_once lib p st)) = Some st'" by (simp add: Let_def)
    from IH [OF this] show ?thesis by (metis answers_Suc)
  next
    case False
    then show ?thesis by (metis answers_0)
  qed
qed

lemma least_failure:
  assumes "\<not> answers lib p m st"
  obtains n where "\<forall>i < n. answers lib p i st" "\<not> answers lib p n st"
  using assms that [of "LEAST n. \<not> answers lib p n st"]
  by (metis (mono_tags, lifting) LeastI not_less_Least)

text \<open>The calls of a run that fails at ping \<open>n\<close>.\<close>

lemma after_pings_calls:
  "\<forall>i < n. answers lib p i st \<Longrightarrow>
   fst (after_pings lib p n st) = fst st @
     concat (replicate n [CallDo ''GET'' ''https'' rep_host (ping_url_path p), CallSleep 10])"
proof (induction n arbitrary: st)
  case (Suc n)
  then have "answers lib p 0 st" "\<forall>i < n. answers lib p i (snd (ping_once lib p st))"
    by (blast, metis answers_Suc Suc_less_eq)
  with Suc.IH show ?case
    by (cases st)
      (auto simp: after_pings_Suc answers_0 ping_once_def call_eq split: prod.splits res.splits)
qed simp

subsection \<open>main: the set-up\<close>

text \<open>
  The list-watch of the informer: the objects of one resource whose field has one value, in one
  namespace or, for the empty string, in all. The configuration of the cluster, the client set,
  the files and the registration of the handler are the record \<open>watch_env\<close>. The set-up ends in
  a panic with the error, in the fatal log entry of \<open>newClient\<close>, or with the parts \<open>main\<close>
  goes on with.
\<close>

record list_watch =
  lw_resource :: string
  lw_namespace :: string
  lw_field :: string
  lw_value :: string

record informer =
  if_watch :: list_watch
  if_resync_seconds :: nat

record ('cfg, 'set, 'reg, 'w) watch_env =
  we_InClusterConfig :: "('w, 'cfg) act"
  we_NewForConfig :: "'cfg \<Rightarrow> 'set res"
  we_NODE_NAME :: string
  we_ReadFile :: "string \<Rightarrow> string res"
  we_LoadX509KeyPair :: "string \<Rightarrow> string \<Rightarrow> string res"
  we_certs_in_pem :: "string \<Rightarrow> string list"
  we_AddEventHandler :: "'set \<Rightarrow> informer \<Rightarrow> ('w, 'reg) act"

datatype 'reg watch_start = StartPanicked goerr | StartFatal string | StartCrashed string
  | Started tls_client informer 'reg

definition node_informer :: "string \<Rightarrow> informer" where
  "node_informer nodeName =
     \<lparr>if_watch = \<lparr>lw_resource = ''nodes'', lw_namespace = [], lw_field = ''metadata.name'', lw_value = nodeName\<rparr>,
      if_resync_seconds = 10\<rparr>"

definition watch_setup :: "('cfg, 'set, 'reg, 'w) watch_env \<Rightarrow> 'w \<Rightarrow> 'reg watch_start \<times> 'w" where
  "watch_setup env w =
     (case andthen (we_InClusterConfig env) (\<lambda>config w. (we_NewForConfig env config, w)) w of
        (Err e, w1) \<Rightarrow> (StartPanicked e, w1)
      | (Panic p, w1) \<Rightarrow> (StartCrashed p, w1)
      | (Ok clientset, w1) \<Rightarrow>
          (case newClient (we_ReadFile env) (we_LoadX509KeyPair env) (we_certs_in_pem env) of
             Inl msg \<Rightarrow> (StartFatal msg, w1)
           | Inr c \<Rightarrow>
               (let nodeInformer = node_informer (we_NODE_NAME env)
                in case we_AddEventHandler env clientset nodeInformer w1 of
                     (Err e, w2) \<Rightarrow> (StartPanicked e, w2)
                   | (Panic p, w2) \<Rightarrow> (StartCrashed p, w2)
                   | (Ok registration, w2) \<Rightarrow> (Started c nodeInformer registration, w2))))"

lemma newClient_Inr:
  "newClient rf lk pem = Inr c \<longleftrightarrow>
     (\<exists>ca cert. rf ''/etc/ssl/certs/rep/ca.crt'' = Ok ca \<and> pem ca \<noteq> [] \<and>
        lk ''/etc/ssl/certs/rep/tls.crt'' ''/etc/ssl/certs/rep/tls.key'' = Ok cert \<and>
        c = \<lparr>hc_Timeout = 30, hc_RootCAs = pem ca, hc_Certificates = [cert]\<rparr>)"
  by (auto simp: newClient_def split: res.splits)

text \<open>A watcher that has started watches the one node it runs on and talks to the rep with the
  certificates of the rep.\<close>

lemma watch_setup_Started:
  assumes "watch_setup env w = (Started c nodes reg, w')"
  shows "lw_field (if_watch nodes) = ''metadata.name'' \<and> lw_value (if_watch nodes) = we_NODE_NAME env \<and>
     lw_namespace (if_watch nodes) = [] \<and> hc_RootCAs c \<noteq> [] \<and> length (hc_Certificates c) = 1"
proof -
  from assms have "nodes = node_informer (we_NODE_NAME env)"
    "newClient (we_ReadFile env) (we_LoadX509KeyPair env) (we_certs_in_pem env) = Inr c"
    by (auto simp: watch_setup_def Let_def split: prod.splits res.splits sum.splits)
  then show ?thesis by (auto simp: newClient_Inr node_informer_def)
qed

subsection \<open>main: two receivers on one channel\<close>

text \<open>
  The goroutines of \<open>main\<close>: the main one, which waits on \<open>stopCh\<close>, removes the
  handler and pings; and the informer's, which calls the update handler. The handler sends one
  value on the unbuffered \<open>stopCh\<close>, so the send meets one receiver. \<open>informer_listens\<close>
  says whether the informer, which is handed the same channel, receives from it too; a value it
  receives stops it, and a stopped informer calls no handler.
\<close>

datatype main_pc = MainWaiting | MainRemoving | MainPinging string | MainPanicked

datatype handler_pc = HandlerIdle | HandlerSending

text \<open>The order in which \<open>main\<close> passes its points; the last two are ends.\<close>

primrec main_stage :: "main_pc \<Rightarrow> nat" where
  "main_stage MainWaiting = 0"
| "main_stage MainRemoving = 1"
| "main_stage (MainPinging path) = 2"
| "main_stage MainPanicked = 2"

instantiation main_pc :: preorder
begin

definition less_eq_main_pc :: "main_pc \<Rightarrow> main_pc \<Rightarrow> bool" where
  "p \<le> q \<longleftrightarrow> main_stage p \<le> main_stage q"

definition less_main_pc :: "main_pc \<Rightarrow> main_pc \<Rightarrow> bool" where
  "p < q \<longleftrightarrow> main_stage p < main_stage q"

instance
  by standard (auto simp: less_eq_main_pc_def less_main_pc_def)

end

record 'w watcher =
  wt_main :: main_pc
  wt_handler :: handler_pc
  wt_informer :: bool
  wt_pingPath :: string
  wt_http :: "(http_call, 'w) traced"

definition watch_init :: "'w \<Rightarrow> 'w watcher" where
  "watch_init w = \<lparr>wt_main = MainWaiting, wt_handler = HandlerIdle, wt_informer = True,
     wt_pingPath = [], wt_http = ([], w)\<rparr>"

definition handle_update :: "'w http_lib \<Rightarrow> bool \<Rightarrow> 'w watcher \<Rightarrow> 'w watcher" where
  "handle_update lib unschedulable s =
     (if unschedulable
      then (case evacuate lib (wt_http s) of
              (path, h) \<Rightarrow> s\<lparr>wt_pingPath := path, wt_http := h, wt_handler := HandlerSending\<rparr>)
      else s)"

inductive watch_step :: "'w http_lib \<Rightarrow> bool \<Rightarrow> 'w watcher \<Rightarrow> 'w watcher \<Rightarrow> bool"
  for lib :: "'w http_lib" and informer_listens :: bool
where
  update: "wt_informer s \<Longrightarrow> wt_handler s = HandlerIdle \<Longrightarrow>
     watch_step lib informer_listens s (handle_update lib unschedulable s)"
| to_main: "wt_handler s = HandlerSending \<Longrightarrow> wt_main s = MainWaiting \<Longrightarrow>
     watch_step lib informer_listens s (s\<lparr>wt_handler := HandlerIdle, wt_main := MainRemoving\<rparr>)"
| to_informer: "informer_listens \<Longrightarrow> wt_informer s \<Longrightarrow> wt_handler s = HandlerSending \<Longrightarrow>
     watch_step lib informer_listens s (s\<lparr>wt_handler := HandlerIdle, wt_informer := False\<rparr>)"
| removed: "wt_main s = MainRemoving \<Longrightarrow>
     watch_step lib informer_listens s (s\<lparr>wt_main := MainPinging (wt_pingPath s)\<rparr>)"
| remove_failed: "wt_main s = MainRemoving \<Longrightarrow>
     watch_step lib informer_listens s (s\<lparr>wt_main := MainPanicked\<rparr>)"

inductive_simps watch_step_iff: "watch_step lib informer_listens s s'"

inductive watch_reachable :: "'w http_lib \<Rightarrow> bool \<Rightarrow> 'w \<Rightarrow> 'w watcher \<Rightarrow> bool"
  for lib :: "'w http_lib" and informer_listens :: bool and w :: 'w
where
  start: "watch_reachable lib informer_listens w (watch_init w)"
| step: "watch_reachable lib informer_listens w s \<Longrightarrow> watch_step lib informer_listens s s' \<Longrightarrow>
     watch_reachable lib informer_listens w s'"

lemma watch_step_progress: "watch_step lib l s s' \<Longrightarrow> wt_main s \<le> wt_main s'"
  by (induction rule: watch_step.induct)
    (auto simp: less_eq_main_pc_def handle_update_def split: prod.split)

text \<open>\<open>main\<close> never goes back, and takes its value from the channel once.\<close>

lemma watch_run_progress: "(watch_step lib l)\<^sup>*\<^sup>* s s' \<Longrightarrow> wt_main s \<le> wt_main s'"
  by (induction rule: rtranclp_induct) (auto dest: watch_step_progress intro: order_trans)

lemma main_waits_once:
  "(watch_step lib l)\<^sup>*\<^sup>* s s' \<Longrightarrow> wt_main s \<noteq> MainWaiting \<Longrightarrow> wt_main s' \<noteq> MainWaiting"
  using watch_run_progress [of lib l s s'] by (cases "wt_main s") (auto simp: less_eq_main_pc_def)

definition evacuation_call :: http_call where
  "evacuation_call = CallDo ''POST'' ''https'' rep_host ''/evacuate''"

lemma evacuate_calls: "\<exists>tr. fst (snd (evacuate lib st)) = fst st @ evacuation_call # tr"
proof -
  have read: "\<exists>tr. fst (snd (read_ping_path lib resp st)) = fst st @ tr" for resp and st :: "(http_call, 'a) traced"
    by (cases st) (auto simp: read_ping_path_def call_eq split: prod.splits res.splits)
  obtain tr w where st: "st = (tr, w)" by (cases st)
  obtain r w1 where do: "hl_Do lib ''POST'' ''/evacuate'' w = (r, w1)" by (metis prod.exhaust)
  show ?thesis
  proof (cases r)
    case (Ok resp)
    obtain path tr2 w2 where rd: "read_ping_path lib resp (tr @ [evacuation_call], w1) = (path, (tr2, w2))"
      by (metis prod.exhaust)
    with read [of resp "(tr @ [evacuation_call], w1)"] have "\<exists>t. tr2 = tr @ [evacuation_call] @ t" by auto
    then show ?thesis using st do Ok rd
      by (auto simp: evacuate_def call_eq evacuation_call_def)
  qed (use st do in \<open>simp_all add: evacuate_def call_eq evacuation_call_def\<close>)
qed

text \<open>
  The invariant: the rep has been asked to evacuate before a value is sent, received or acted
  on, and the informer stays up when it does not listen.
\<close>

definition watch_inv :: "bool \<Rightarrow> 'w watcher \<Rightarrow> bool" where
  "watch_inv informer_listens s \<longleftrightarrow>
     (wt_handler s = HandlerSending \<or> wt_main s \<noteq> MainWaiting \<or> \<not> wt_informer s \<longrightarrow>
        evacuation_call \<in> set (fst (wt_http s))) \<and>
     (\<not> informer_listens \<longrightarrow> wt_informer s)"

lemma watch_step_inv: "watch_step lib l s s' \<Longrightarrow> watch_inv l s \<Longrightarrow> watch_inv l s'"
proof (induction rule: watch_step.induct)
  case (update s unschedulable)
  then show ?case
    using evacuate_calls [of lib "wt_http s"]
    by (auto simp: watch_inv_def handle_update_def split: prod.splits)
qed (auto simp: watch_inv_def)

lemma watch_reachable_inv: "watch_reachable lib l w s \<Longrightarrow> watch_inv l s"
proof (induction rule: watch_reachable.induct)
  case start
  show ?case by (simp add: watch_inv_def watch_init_def)
qed (rule watch_step_inv)

text \<open>The run in which the informer takes the value.\<close>

definition lost_signal :: "'w http_lib \<Rightarrow> 'w \<Rightarrow> 'w watcher" where
  "lost_signal lib w = (handle_update lib True (watch_init w))\<lparr>wt_handler := HandlerIdle, wt_informer := False\<rparr>"

lemma lost_signal_reachable: "watch_reachable lib True w (lost_signal lib w)"
proof -
  let ?s = "handle_update lib True (watch_init w)"
  have "wt_informer ?s" "wt_handler ?s = HandlerSending"
    by (simp_all add: handle_update_def watch_init_def split: prod.split)
  moreover have "watch_reachable lib True w ?s"
    by (rule watch_reachable.step [OF watch_reachable.start], rule watch_step.update)
      (simp_all add: watch_init_def)
  ultimately show ?thesis
    unfolding lost_signal_def by (blast intro: watch_reachable.step watch_step.to_informer)
qed

lemma lost_signal_stuck: "wt_main (lost_signal lib w) = MainWaiting \<and> \<not> watch_step lib l (lost_signal lib w) s'"
  by (auto simp: lost_signal_def handle_update_def watch_init_def watch_step_iff split: prod.split)

subsection \<open>Properties\<close>

text \<open>C33: When the informer receives from \<open>stopCh\<close> as well as \<open>main\<close>, the one value the
  handler sends can end in the informer: the rep has been told to evacuate, \<open>main\<close> waits, and
  no goroutine can take a step any more, so the rep is never pinged.\<close>

theorem stop_signal_can_be_lost:
  "\<exists>s. watch_reachable lib True w s \<and> wt_main s = MainWaiting \<and>
       evacuation_call \<in> set (fst (wt_http s)) \<and> (\<nexists>s'. watch_step lib True s s')"
proof (intro exI conjI)
  show "watch_reachable lib True w (lost_signal lib w)" by (rule lost_signal_reachable)
  then have "watch_inv True (lost_signal lib w)" by (rule watch_reachable_inv)
  then show "evacuation_call \<in> set (fst (wt_http (lost_signal lib w)))"
    by (simp add: watch_inv_def lost_signal_def)
  show "wt_main (lost_signal lib w) = MainWaiting" "\<nexists>s'. watch_step lib True (lost_signal lib w) s'"
    by (simp_all add: lost_signal_stuck)
qed

lemma removing_can_ping:
  assumes "wt_main s = MainRemoving"
  shows "\<exists>s' path. (watch_step lib l)\<^sup>*\<^sup>* s s' \<and> wt_main s' = MainPinging path"
  using watch_step.removed [OF assms, of lib l]
  by (intro exI [of _ "s\<lparr>wt_main := MainPinging (wt_pingPath s)\<rparr>"] exI [of _ "wt_pingPath s"])
    (simp add: r_into_rtranclp)

lemma sending_can_ping:
  assumes "wt_handler s = HandlerSending" "wt_main s = MainWaiting"
  shows "\<exists>s' path. (watch_step lib l)\<^sup>*\<^sup>* s s' \<and> wt_main s' = MainPinging path"
proof -
  let ?t = "s\<lparr>wt_handler := HandlerIdle, wt_main := MainRemoving\<rparr>"
  have "watch_step lib l s ?t" using assms by (rule watch_step.to_main)
  moreover obtain s' path where "(watch_step lib l)\<^sup>*\<^sup>* ?t s'" "wt_main s' = MainPinging path"
    using removing_can_ping [of ?t lib l] by auto
  ultimately show ?thesis by (meson converse_rtranclp_into_rtranclp)
qed

text \<open>When only \<open>main\<close> receives from \<open>stopCh\<close>, the watcher can get to the pings from
  every state it reaches before them, unless the removal of the handler has failed.\<close>

theorem single_receiver_can_ping:
  assumes "watch_reachable lib False w s" and "wt_main s \<in> {MainWaiting, MainRemoving}"
  shows "\<exists>s' path. (watch_step lib False)\<^sup>*\<^sup>* s s' \<and> wt_main s' = MainPinging path"
proof (cases "wt_main s = MainRemoving")
  case False
  then have main: "wt_main s = MainWaiting" using assms(2) by simp
  have inf: "wt_informer s" using watch_reachable_inv [OF assms(1)] by (simp add: watch_inv_def)
  show ?thesis
  proof (cases "wt_handler s")
    case HandlerIdle
    let ?t = "handle_update lib True s"
    have t: "wt_handler ?t = HandlerSending" "wt_main ?t = MainWaiting"
      using main by (simp_all add: handle_update_def split: prod.split)
    have "watch_step lib False s ?t" using inf HandlerIdle by (rule watch_step.update)
    moreover obtain s' path where "(watch_step lib False)\<^sup>*\<^sup>* ?t s'" "wt_main s' = MainPinging path"
      using sending_can_ping [OF t, of lib False] by blast
    ultimately show ?thesis by (meson converse_rtranclp_into_rtranclp)
  qed (use sending_can_ping main in blast)
qed (rule removing_can_ping)

definition sample_http :: "nat http_lib" where
  "sample_http = \<lparr>hl_Do = (\<lambda>m p w. (if w < 3 then Ok \<lparr>rs_StatusCode = 200, rs_Body = w\<rparr> else Err DeadlineExceeded, Suc w)),
     hl_ReadAll = (\<lambda>b. return_ok ''body''), hl_Close = (\<lambda>b w. ((), w)),
     hl_Unmarshal = (\<lambda>s. Ok [(''ping_path'', ''ping'')]), hl_Sleep = (\<lambda>n w. ((), w))\<rparr>"

theorem single_receiver_can_ping_witness:
  "\<exists>s' path. (watch_step sample_http False)\<^sup>*\<^sup>* (watch_init 0) s' \<and> wt_main s' = MainPinging path"
  by (rule single_receiver_can_ping [of sample_http 0]) (simp_all add: watch_reachable.start, simp add: watch_init_def)

text \<open>\<open>pingForever\<close> runs for ever exactly when every ping is answered, and otherwise
  returns after the first one that is not.\<close>

theorem pingForever_until_failure:
  "pingForever lib p st =
     (if \<forall>n. answers lib p n st then None
      else Some (after_pings lib p (Suc (LEAST n. \<not> answers lib p n st)) st))"
proof (cases "\<forall>n. answers lib p n st")
  case True
  with pingForever_returns [of lib p st] show ?thesis
    by (cases "pingForever lib p st") auto
next
  case False
  let ?n = "LEAST n. \<not> answers lib p n st"
  from False have fails: "\<not> answers lib p ?n st" by (metis LeastI)
  have "\<forall>i < ?n. answers lib p i st" using not_less_Least by blast
  from pingForever_first_failure [OF this fails] False show ?thesis by presburger
qed

text \<open>The bodies of the answered pings are never closed: a run of \<open>pingForever\<close> makes no
  call but its requests and the sleeps between them.\<close>

theorem pings_close_no_body:
  assumes "pingForever lib p ([], w) = Some (tr, w')"
  shows "\<exists>n. tr = concat (replicate n [CallDo ''GET'' ''https'' rep_host (ping_url_path p), CallSleep 10]) @
     [CallDo ''GET'' ''https'' rep_host (ping_url_path p)]"
proof -
  obtain m where "\<not> answers lib p m ([], w)" using pingForever_returns [OF assms] by blast
  then obtain n where n: "\<forall>i < n. answers lib p i ([], w)" "\<not> answers lib p n ([], w)"
    by (rule least_failure)
  obtain tn wn where st: "after_pings lib p n ([], w) = (tn, wn)" by (metis prod.exhaust)
  from pingForever_first_failure [OF n] assms have "(tr, w') = snd (ping_once lib p (tn, wn))"
    using st by (simp add: after_pings_Suc')
  with n(2) st have "tr = tn @ [CallDo ''GET'' ''https'' rep_host (ping_url_path p)]"
    by (auto simp: answers_def ping_once_def call_eq split: prod.splits res.splits)
  with after_pings_calls [OF n(1)] st show ?thesis by auto
qed

lemma sample_pings:
  "pingForever sample_http ''ping'' ([], 2) =
     Some ([CallDo ''GET'' ''https'' rep_host ''/ping'', CallSleep 10, CallDo ''GET'' ''https'' rep_host ''/ping''], 4)"
proof -
  let ?get = "CallDo ''GET'' ''https'' rep_host ''/ping''"
  have "ping_once sample_http ''ping'' ([], 2) = (True, ([?get, CallSleep 10], 3))"
    "ping_once sample_http ''ping'' ([?get, CallSleep 10], 3) = (False, ([?get, CallSleep 10, ?get], 4))"
    by (simp_all add: ping_once_def call_eq sample_http_def ping_url_path_def)
  then show ?thesis
    by (simp add: pingForever.simps [of _ _ "([], 2)"] pingForever.simps [of _ _ "([?get, CallSleep 10], 3)"])
qed

theorem pings_close_no_body_witness:
  "\<exists>n. [CallDo ''GET'' ''https'' rep_host ''/ping'', CallSleep 10, CallDo ''GET'' ''https'' rep_host ''/ping''] =
     concat (replicate n [CallDo ''GET'' ''https'' rep_host (ping_url_path ''ping''), CallSleep 10]) @
     [CallDo ''GET'' ''https'' rep_host (ping_url_path ''ping'')]"
  by (rule pings_close_no_body [OF sample_pings])

end
