(* ===== verification/WaitGarden.thy ===== *)
theory WaitGarden
  imports Sample
begin

section \<open>Waiting for garden (waitForGarden in pkg/executor/init.go)\<close>

text \<open>
  The \<open>select\<close> loop as a state machine. \<open>wg_pingRequest\<close>: the ping timer is armed;
  \<open>wg_inflight\<close>: the goroutines that have been started and whose response has not been
  received (the channel is unbuffered); \<open>wg_sent\<close>: the durations sent as metric, oldest
  first; \<open>wg_result\<close>: what the function has returned. The heartbeat timer is re-armed by the
  step that handles it, so a heartbeat may come at any time while the loop runs.
\<close>

record 'w wait_state =
  wg_pingRequest :: bool
  wg_inflight :: nat
  wg_sent :: "nat list"
  wg_result :: "unit res option"
  wg_world :: 'w

definition wait_init :: "'w \<Rightarrow> 'w wait_state" where
  "wait_init w = \<lparr>wg_pingRequest = True, wg_inflight = 0, wg_sent = [], wg_result = None, wg_world = w\<rparr>"

definition handle_response :: "unit res \<Rightarrow> 'w wait_state \<Rightarrow> 'w wait_state" where
  "handle_response r s =
     (case r of
        Ok _ \<Rightarrow> s\<lparr>wg_sent := wg_sent s @ [0], wg_result := Some (Ok ())\<rparr>
      | Err (UnrecoverableError m) \<Rightarrow> s\<lparr>wg_result := Some (Err (UnrecoverableError m))\<rparr>
      | Err _ \<Rightarrow> s\<lparr>wg_pingRequest := True\<rparr>
      | Panic m \<Rightarrow> s\<lparr>wg_result := Some (Panic m)\<rparr>)"

text \<open>\<open>since\<close> is the time since the start, read off the world.\<close>

inductive wait_step ::
  "('w, unit) act \<Rightarrow> ('w \<Rightarrow> nat) \<Rightarrow> 'w wait_state \<Rightarrow> 'w wait_state \<Rightarrow> bool"
  for ping :: "('w, unit) act" and since :: "'w \<Rightarrow> nat"
where
  ping_due: "wg_result s = None \<Longrightarrow> wg_pingRequest s \<Longrightarrow>
     wait_step ping since s (s\<lparr>wg_pingRequest := False, wg_inflight := wg_inflight s + 1\<rparr>)"
| response: "wg_result s = None \<Longrightarrow> 0 < wg_inflight s \<Longrightarrow> ping (wg_world s) = (r, w') \<Longrightarrow>
     wait_step ping since s (handle_response r (s\<lparr>wg_inflight := wg_inflight s - 1, wg_world := w'\<rparr>))"
| heartbeat: "wg_result s = None \<Longrightarrow>
     wait_step ping since s (s\<lparr>wg_sent := wg_sent s @ [since (wg_world s)]\<rparr>)"
| time: "wait_step ping since s (s\<lparr>wg_world := w'\<rparr>)"

inductive wait_reachable ::
  "('w, unit) act \<Rightarrow> ('w \<Rightarrow> nat) \<Rightarrow> 'w \<Rightarrow> 'w wait_state \<Rightarrow> bool"
  for ping :: "('w, unit) act" and since :: "'w \<Rightarrow> nat" and w0 :: 'w
where
  start: "wait_reachable ping since w0 (wait_init w0)"
| step: "wait_reachable ping since w0 s \<Longrightarrow> wait_step ping since s s' \<Longrightarrow> wait_reachable ping since w0 s'"

lemma handle_response_cases:
  obtains (ok) "r = Ok ()" "handle_response r s = s\<lparr>wg_sent := wg_sent s @ [0], wg_result := Some (Ok ())\<rparr>"
  | (unrecoverable) m where "r = Err (UnrecoverableError m)"
      "handle_response r s = s\<lparr>wg_result := Some (Err (UnrecoverableError m))\<rparr>"
  | (retry) e where "r = Err e" "\<forall>m. e \<noteq> UnrecoverableError m"
      "handle_response r s = s\<lparr>wg_pingRequest := True\<rparr>"
  | (crash) m where "r = Panic m" "handle_response r s = s\<lparr>wg_result := Some (Panic m)\<rparr>"
proof (cases r)
  case (Err e)
  then show thesis
    by (cases e) (use that in \<open>auto simp: handle_response_def\<close>)
qed (use that in \<open>auto simp: handle_response_def\<close>)

subsection \<open>One ping at a time\<close>

text \<open>
  While the loop runs exactly one of two things holds: the ping timer is armed, or one ping is
  under way. When it has returned, no goroutine is left blocked on the channel.
\<close>

definition wait_inv :: "'w wait_state \<Rightarrow> bool" where
  "wait_inv s \<longleftrightarrow>
     (case wg_result s of
        None \<Rightarrow> wg_inflight s + (if wg_pingRequest s then 1 else 0) = 1
      | Some r \<Rightarrow> wg_inflight s = 0 \<and> \<not> wg_pingRequest s)"

lemma wait_step_inv: "wait_step ping since s s' \<Longrightarrow> wait_inv s \<Longrightarrow> wait_inv s'"
proof (induction rule: wait_step.induct)
  case (response s r w')
  then have "\<not> wg_pingRequest s" "wg_inflight s = 1" by (auto simp: wait_inv_def split: if_splits)
  with response show ?case
    by (cases rule: handle_response_cases
      [of r "s\<lparr>wg_inflight := wg_inflight s - 1, wg_world := w'\<rparr>"]) (simp_all add: wait_inv_def)
qed (auto simp: wait_inv_def split: option.splits)

lemma wait_reachable_inv: "wait_reachable ping since w0 s \<Longrightarrow> wait_inv s"
proof (induction rule: wait_reachable.induct)
  case start
  show ?case by (simp add: wait_inv_def wait_init_def)
qed (rule wait_step_inv)

text \<open>A successful return has just sent the duration 0.\<close>

lemma wait_reachable_sent:
  "wait_reachable ping since w0 s \<Longrightarrow> wg_result s = Some (Ok ()) \<Longrightarrow>
   \<exists>beats. wg_sent s = beats @ [0]"
proof (induction rule: wait_reachable.induct)
  case start
  then show ?case by (simp add: wait_init_def)
next
  case (step s s')
  from step.hyps(2) step.prems step.IH show ?case
  proof (cases rule: wait_step.cases)
    case (response r w')
    then show ?thesis
      using step.prems
      by (cases rule: handle_response_cases
        [of r "s\<lparr>wg_inflight := wg_inflight s - 1, wg_world := w'\<rparr>"]) simp_all
  qed auto
qed

text \<open>From every running state the loop can finish as soon as garden answers.\<close>

lemma wait_can_finish:
  assumes "wait_inv s" "wg_result s = None" "fst (ping (wg_world s)) = Ok ()"
  shows "\<exists>s'. (wait_step ping since)\<^sup>*\<^sup>* s s' \<and> wg_result s' = Some (Ok ())"
proof -
  obtain w' where ping: "ping (wg_world s) = (Ok (), w')" using assms(3) by (metis prod.collapse)
  have fin: "\<exists>s'. wait_step ping since t s' \<and> wg_result s' = Some (Ok ())"
    if "wg_result t = None" "0 < wg_inflight t" "wg_world t = wg_world s" for t
    using wait_step.response [OF that(1,2), of ping "Ok ()" w' since] that(3) ping
    by (auto simp: handle_response_def)
  show ?thesis
  proof (cases "wg_pingRequest s")
    case True
    let ?t = "s\<lparr>wg_pingRequest := False, wg_inflight := wg_inflight s + 1\<rparr>"
    have "wait_step ping since s ?t" using assms(2) True by (rule wait_step.ping_due)
    moreover obtain s' where "wait_step ping since ?t s'" "wg_result s' = Some (Ok ())"
      using fin [of ?t] assms(2) by auto
    ultimately show ?thesis by (meson converse_rtranclp_into_rtranclp r_into_rtranclp)
  next
    case False
    with assms(1,2) have "0 < wg_inflight s" by (auto simp: wait_inv_def split: if_splits)
    with fin [of s] assms(2) show ?thesis by (meson r_into_rtranclp)
  qed
qed

subsection \<open>The client it waits for\<close>

text \<open>
  A garden client whose ping never fails for good: the contract under which the loop has no
  error to return.
\<close>

locale recoverable_ping =
  fixes ping :: "('w, unit) act"
  assumes recoverable: "ping w = (Err e, w') \<Longrightarrow> e \<noteq> UnrecoverableError m"
begin

lemma wait_no_error:
  "wait_reachable ping since w0 s \<Longrightarrow> wg_result s \<noteq> Some (Err e)"
proof (induction rule: wait_reachable.induct)
  case start
  show ?case by (simp add: wait_init_def)
next
  case (step s s')
  from step.hyps(2) step.IH show ?case
  proof (cases rule: wait_step.cases)
    case (response r w')
    show ?thesis
      using response recoverable
      by (cases rule: handle_response_cases
        [of r "s\<lparr>wg_inflight := wg_inflight s - 1, wg_world := w'\<rparr>"]) auto
  qed auto
qed

end

lemma Ping_error_shape:
  "Ping d w = (Err e, w') \<Longrightarrow> (\<exists>e'. e = ErrorfW ''failed to ping containerd: %w'' [] e') \<or>
     e = ErrNew ''containerd is not serving''"
proof -
  assume *: "Ping d w = (Err e, w')"
  obtain r w1 where "ctrd_IsServing (d_ctrd d) w = (r, w1)" by (metis prod.exhaust)
  with * show ?thesis by (cases r) (auto simp: Ping_def split: if_splits)
qed

interpretation k8s_ping: recoverable_ping "Ping d" for d
  by unfold_locales (auto dest: Ping_error_shape)

subsection \<open>Properties\<close>

text \<open>C31: While \<open>waitForGarden\<close> waits, exactly one ping is either due or under way, and when it
  has returned no goroutine is left that would block on the response channel.\<close>

theorem one_ping_outstanding:
  assumes "wait_reachable ping since w0 s"
  shows "if wg_result s = None then wg_inflight s + (if wg_pingRequest s then 1 else 0) = 1
         else wg_inflight s = 0 \<and> \<not> wg_pingRequest s"
  using wait_reachable_inv [OF assms] by (cases "wg_result s") (simp_all add: wait_inv_def)

definition sample_ping :: "(nat, unit) act" where
  "sample_ping w = (if w < 2 then (Err DeadlineExceeded, Suc w) else (Ok (), w))"

lemma sample_wait_reachable:
  "wait_reachable sample_ping id 0
     \<lparr>wg_pingRequest = True, wg_inflight = 0, wg_sent = [], wg_result = None, wg_world = 1\<rparr>"
proof -
  let ?s1 = "(wait_init 0)\<lparr>wg_pingRequest := False, wg_inflight := 1\<rparr>"
  have "wait_step sample_ping id (wait_init 0) ?s1"
    using wait_step.ping_due [of "wait_init 0" sample_ping id] by (simp add: wait_init_def)
  then have r: "wait_reachable sample_ping id 0 ?s1"
    by (rule wait_reachable.step [OF wait_reachable.start])
  show ?thesis
    using wait_reachable.step [OF r wait_step.response [of ?s1 sample_ping "Err DeadlineExceeded" 1 id]]
    by (simp add: wait_init_def sample_ping_def handle_response_def)
qed

theorem one_ping_outstanding_witness:
  "\<exists>s. wait_reachable sample_ping id 0 s \<and> wg_result s = None \<and> wg_pingRequest s \<and> wg_world s = 1 \<and>
     wg_inflight s + (if wg_pingRequest s then 1 else 0) = 1"
proof -
  let ?s = "\<lparr>wg_pingRequest = True, wg_inflight = 0, wg_sent = [], wg_result = None, wg_world = 1\<rparr> :: nat wait_state"
  from one_ping_outstanding [OF sample_wait_reachable] sample_wait_reachable show ?thesis
    by (intro exI [of _ ?s]) simp
qed

text \<open>With the garden client of this repository \<open>waitForGarden\<close> never returns an error:
  its \<open>Ping\<close> fails only in ways that are tried again.\<close>

theorem waitForGarden_never_fails:
  assumes "wait_reachable (Ping d) since w0 s"
  shows "wg_result s \<noteq> Some (Err e)"
  using assms by (rule k8s_ping.wait_no_error)

definition silent_deps :: "(world, string, string, sample_properties) deps" where
  "silent_deps = sample_deps\<lparr>d_ctrd := sample_ctrd\<lparr>ctrd_IsServing := return_ok False\<rparr>\<rparr>"

lemma silent_run:
  "wait_reachable (Ping silent_deps) wd_now w \<lparr>wg_pingRequest = True, wg_inflight = 0, wg_sent = [],
     wg_result = None, wg_world = w\<rparr>"
proof -
  let ?s1 = "(wait_init w)\<lparr>wg_pingRequest := False, wg_inflight := 1\<rparr>"
  have "wait_step (Ping silent_deps) wd_now (wait_init w) ?s1"
    using wait_step.ping_due [of "wait_init w" "Ping silent_deps" wd_now] by (simp add: wait_init_def)
  then have r: "wait_reachable (Ping silent_deps) wd_now w ?s1"
    by (rule wait_reachable.step [OF wait_reachable.start])
  have "Ping silent_deps w = (Err (ErrNew ''containerd is not serving''), w)"
    by (simp add: Ping_def silent_deps_def return_ok_def andthen_def wrapping_def)
  then show ?thesis
    using wait_reachable.step [OF r wait_step.response [of ?s1 "Ping silent_deps" _ w wd_now]]
    by (simp add: wait_init_def handle_response_def)
qed

theorem waitForGarden_never_fails_witness:
  "wg_result \<lparr>wg_pingRequest = True, wg_inflight = 0, wg_sent = [], wg_result = None,
     wg_world = sample_world\<rparr> \<noteq> Some (Err (ErrNew ''containerd is not serving''))"
  by (rule waitForGarden_never_fails [OF silent_run])

text \<open>C32: Whatever has happened before, a waiting \<open>waitForGarden\<close> can return nil once garden
  answers, and it then sends the stalled duration 0 as its last metric.\<close>

theorem waitForGarden_can_finish:
  assumes "wait_reachable ping since w0 s" and "wg_result s = None" and "fst (ping (wg_world s)) = Ok ()"
  shows "\<exists>s' beats. (wait_step ping since)\<^sup>*\<^sup>* s s' \<and> wg_result s' = Some (Ok ()) \<and> wg_sent s' = beats @ [0]"
proof -
  obtain s' where s': "(wait_step ping since)\<^sup>*\<^sup>* s s'" "wg_result s' = Some (Ok ())"
    using wait_can_finish [of s ping since] wait_reachable_inv [OF assms(1)] assms(2,3) by blast
  from s'(1) assms(1) have "wait_reachable ping since w0 s'"
    by (induction rule: rtranclp_induct) (auto intro: wait_reachable.step)
  from wait_reachable_sent [OF this s'(2)] s' show ?thesis by blast
qed

theorem waitForGarden_can_finish_witness:
  "\<exists>s' beats. (wait_step sample_ping id)\<^sup>*\<^sup>* (wait_init 5) s' \<and> wg_result s' = Some (Ok ()) \<and> wg_sent s' = beats @ [0]"
  by (rule waitForGarden_can_finish [of _ _ 5])
    (rule wait_reachable.start, simp_all add: wait_init_def sample_ping_def)

end
