(* ===== verification/GoStd.thy ===== *)
theory GoStd
  imports Prelude
begin

section \<open>Functions of Go's standard library\<close>

text \<open>
  What the command and the executor use of \<open>strings\<close>, \<open>bytes\<close>, \<open>path/filepath\<close> and
  \<open>net\<close>, on byte strings.
\<close>

subsection \<open>strings.Split with a one-byte separator\<close>

fun Split :: "char \<Rightarrow> string \<Rightarrow> string list" where
  "Split sep [] = [[]]"
| "Split sep (c # cs) =
     (if c = sep then [] # Split sep cs
      else (case Split sep cs of [] \<Rightarrow> [[c]] | p # ps \<Rightarrow> (c # p) # ps))"

lemma Split_not_Nil [simp]: "Split sep s \<noteq> []"
  by (induction s) (auto split: list.split)

lemma Split_notin: "sep \<notin> set s \<Longrightarrow> Split sep s = [s]"
  by (induction s) auto

lemma Split_append: "sep \<notin> set p \<Longrightarrow> Split sep (p @ sep # s) = p # Split sep s"
  by (induction p) auto

lemma Split_pieces: "\<forall>p \<in> set (Split sep s). sep \<notin> set p"
  by (induction s) (auto split: list.splits)

lemma length_Split: "length (Split sep s) = Suc (count_list s sep)"
  by (induction s) (auto split: list.split)

text \<open>\<open>xs[i]\<close>\<close>

definition index :: "'a list \<Rightarrow> nat \<Rightarrow> 'a res" where
  "index xs i = (if i < length xs then Ok (xs ! i) else Panic index_out_of_range)"

subsection \<open>TrimSpace\<close>

text \<open>
  The characters \<open>unicode.IsSpace\<close> accepts, as the byte strings that encode them: the ASCII
  ones, U+0085, U+00A0, U+1680, U+2000 to U+200A, U+2028, U+2029, U+202F, U+205F and U+3000.
\<close>

definition space_encodings :: "string list" where
  "space_encodings =
     map (map char_of)
       ([[9], [10], [11], [12], [13], [32], [194, 133], [194, 160], [225, 154, 128]] @
        map (\<lambda>n. [226, 128, 128 + n]) [0 ..< 11] @
        [[226, 128, 168], [226, 128, 169], [226, 128, 175], [226, 129, 159], [227, 128, 128 :: nat]])"

definition leading :: "string list \<Rightarrow> string \<Rightarrow> string option" where
  "leading encs s = find (\<lambda>e. take (length e) s = e) encs"

lemma leading_shorter:
  "leading encs s = Some e \<Longrightarrow> [] \<notin> set encs \<Longrightarrow> length (drop (length e) s) < length s"
  by (cases s) (auto simp: leading_def find_Some_iff in_set_conv_nth)

function trim_leading :: "string list \<Rightarrow> string \<Rightarrow> string" where
  "trim_leading encs s =
     (if [] \<in> set encs then s
      else case leading encs s of None \<Rightarrow> s | Some e \<Rightarrow> trim_leading encs (drop (length e) s))"
  by pat_completeness auto
termination
  by (relation "measure (\<lambda>(encs, s). length s)") (auto dest: leading_shorter)

declare trim_leading.simps [simp del]

definition TrimSpace :: "string \<Rightarrow> string" where
  "TrimSpace s =
     rev (trim_leading (map rev space_encodings) (rev (trim_leading space_encodings s)))"

lemma trim_leading_suffix: "\<exists>t. s = t @ trim_leading encs s"
proof (induction encs s rule: trim_leading.induct)
  case (1 encs s)
  show ?case
  proof (cases "[] \<in> set encs \<or> leading encs s = None")
    case True
    then show ?thesis by (auto simp: trim_leading.simps [of encs s])
  next
    case False
    then obtain e where e: "leading encs s = Some e" by blast
    with 1 False obtain t where "drop (length e) s = t @ trim_leading encs (drop (length e) s)" by blast
    then have "s = (take (length e) s @ t) @ trim_leading encs (drop (length e) s)"
      by (metis append.assoc append_take_drop_id)
    moreover from False e have "trim_leading encs s = trim_leading encs (drop (length e) s)"
      by (simp add: trim_leading.simps [of encs s])
    ultimately show ?thesis by metis
  qed
qed

lemma trim_leading_plain:
  assumes "\<forall>e \<in> set encs. e \<noteq> [] \<and> hd e \<noteq> c"
  shows "trim_leading encs (c # s) = c # s"
proof -
  have "take (length e) (c # s) \<noteq> e" if "e \<in> set encs" for e
    using assms that by (cases e) auto
  then have "leading encs (c # s) = None" by (auto simp: leading_def find_None_iff)
  then show ?thesis by (simp add: trim_leading.simps [of encs "c # s"])
qed

lemma length_TrimSpace: "length (TrimSpace s) \<le> length s"
proof -
  have "length (trim_leading encs s) \<le> length s" for encs s
    using trim_leading_suffix [of s encs] by (metis le_add2 length_append)
  then show ?thesis unfolding TrimSpace_def by (metis length_rev order_trans)
qed

subsection \<open>path/filepath\<close>

text \<open>\<open>Ext\<close>: from the last dot of the last element on.\<close>

definition Ext :: "string \<Rightarrow> string" where
  "Ext path =
     (let r = takeWhile (\<lambda>c. c \<noteq> CHR ''/'') (rev path)
      in if CHR ''.'' \<in> set r then CHR ''.'' # rev (takeWhile (\<lambda>c. c \<noteq> CHR ''.'') r) else [])"

definition Base :: "string \<Rightarrow> string" where
  "Base path =
     (if path = [] then ''.''
      else let r = takeWhile (\<lambda>c. c \<noteq> CHR ''/'') (dropWhile (\<lambda>c. c = CHR ''/'') (rev path))
           in if r = [] then ''/'' else rev r)"

text \<open>\<open>Clean\<close> and \<open>Join\<close> for Unix paths: the elements that remain, last first.\<close>

fun clean_elements :: "bool \<Rightarrow> string list \<Rightarrow> string list \<Rightarrow> string list" where
  "clean_elements rooted out [] = out"
| "clean_elements rooted out (e # es) =
     clean_elements rooted
       (if e = [] \<or> e = ''.'' then out
        else if e = ''..'' then
          (case out of
             x # xs \<Rightarrow> if x = ''..'' then ''..'' # out else xs
           | [] \<Rightarrow> if rooted then [] else [''..''])
        else e # out) es"

fun join_with :: "char \<Rightarrow> string list \<Rightarrow> string" where
  "join_with c [] = []"
| "join_with c [e] = e"
| "join_with c (e # e' # es) = e @ c # join_with c (e' # es)"

definition Clean :: "string \<Rightarrow> string" where
  "Clean path =
     (let rooted = (path \<noteq> [] \<and> hd path = CHR ''/'');
          es = rev (clean_elements rooted [] (Split (CHR ''/'') path))
      in if rooted then CHR ''/'' # join_with (CHR ''/'') es
         else if es = [] then ''.'' else join_with (CHR ''/'') es)"

definition Join :: "string list \<Rightarrow> string" where
  "Join elem =
     (let es = dropWhile (\<lambda>e. e = []) elem
      in if es = [] then [] else Clean (join_with (CHR ''/'') es))"

definition TrimSuffix :: "string \<Rightarrow> string \<Rightarrow> string" where
  "TrimSuffix s suffix =
     (if length suffix \<le> length s \<and> drop (length s - length suffix) s = suffix
      then take (length s - length suffix) s else s)"

text \<open>\<open>strings.EqualFold\<close> against an ASCII string without \<open>k\<close> and \<open>s\<close>, whose letters have
  no case variants beyond ASCII.\<close>

definition ascii_lower :: "char \<Rightarrow> char" where
  "ascii_lower c =
     (if 65 \<le> (of_char c :: nat) \<and> (of_char c :: nat) \<le> 90 then char_of (of_char c + 32 :: nat) else c)"

definition EqualFold_tar :: "string \<Rightarrow> bool" where
  "EqualFold_tar ext \<longleftrightarrow> map ascii_lower ext = ''.tar''"

subsection \<open>net.IP\<close>

definition v4InV6Prefix :: "8 word list" where
  "v4InV6Prefix = [0, 0, 0, 0, 0, 0, 0, 0, 0, 0, 0xff, 0xff]"

text \<open>\<open>ip.Equal(x)\<close>\<close>

definition ip_Equal :: "8 word list \<Rightarrow> 8 word list \<Rightarrow> bool" where
  "ip_Equal ip x \<longleftrightarrow>
     (if length ip = length x then ip = x
      else if length ip = 4 \<and> length x = 16 then take 12 x = v4InV6Prefix \<and> ip = drop 12 x
      else if length ip = 16 \<and> length x = 4 then take 12 ip = v4InV6Prefix \<and> drop 12 ip = x
      else False)"

text \<open>\<open>net.ParseIP("127.0.0.1")\<close>, in the 16-byte form\<close>

definition loopback :: "8 word list" where
  "loopback = v4InV6Prefix @ [127, 0, 0, 1]"

lemma ip_Equal_loopback:
  "ip_Equal ip loopback \<longleftrightarrow> ip = [127, 0, 0, 1] \<or> ip = v4InV6Prefix @ [127, 0, 0, 1]"
  by (auto simp: ip_Equal_def loopback_def v4InV6Prefix_def)

end
