(* ===== verification/RepMain.thy ===== *)
theory RepMain
  imports GoStd
begin

section \<open>The rep command (cmd/rep/main.go)\<close>

text \<open>
  The decisions of \<open>main\<close> and its helpers: which root file systems the cell offers, which one
  the sidecar uses, where the servers listen, which certificate is accepted, and the members of
  the process group in their order. The services themselves are the arguments.
\<close>

subsection \<open>Root file systems\<close>

text \<open>
  The maps \<open>main\<close> works on: \<open>rm_all\<close> is \<open>rootFSMap\<close>, \<open>rm_preloaded\<close> the clone
  \<open>preloadedRootFSes\<close>, \<open>rm_extra\<close> is \<open>extraRootFSes\<close>.
\<close>

type_synonym stack_path_map = "(string, string) gomap"

record rootfs_maps =
  rm_all :: stack_path_map
  rm_preloaded :: stack_path_map
  rm_extra :: stack_path_map

definition add_extra_rootfs :: "string \<Rightarrow> rootfs_maps \<Rightarrow> rootfs_maps" where
  "add_extra_rootfs path m =
     (let ext = Ext path
      in if EqualFold_tar ext
         then let key = TrimSuffix (Base path) ext
              in m\<lparr>rm_all := gm_put key path (rm_all m),
                   rm_preloaded := gm_delete key (rm_preloaded m),
                   rm_extra := gm_put key path (rm_extra m)\<rparr>
         else m)"

text \<open>
  \<open>filepath.WalkDir\<close> calls the function on each entry in turn, with the error it met there
  if any; the function returns that error, which ends the walk.
\<close>

fun walk_rootfs :: "(string \<times> goerr option) list \<Rightarrow> rootfs_maps \<Rightarrow> goerr option \<times> rootfs_maps" where
  "walk_rootfs [] m = (None, m)"
| "walk_rootfs ((path, Some err) # es) m = (Some err, m)"
| "walk_rootfs ((path, None) # es) m = walk_rootfs es (add_extra_rootfs path m)"

text \<open>The path of the sidecar's root file system before the walk: any entry by default.\<close>

definition default_sidecar :: "string \<Rightarrow> string \<Rightarrow> stack_path_map \<Rightarrow> string" where
  "default_sidecar sidecarRootFSPath sidecarRootFS rootFSMap =
     (if sidecarRootFSPath = [] \<and> sidecarRootFS = []
      then (case rootFSMap of [] \<Rightarrow> sidecarRootFSPath | (_, rootFSPath) # _ \<Rightarrow> rootFSPath)
      else sidecarRootFSPath)"

text \<open>\<open>None\<close> is \<open>os.Exit(1)\<close>.\<close>

definition choose_sidecar :: "string \<Rightarrow> string \<Rightarrow> stack_path_map \<Rightarrow> string option" where
  "choose_sidecar sidecarRootFSPath sidecarRootFS rootFSMap =
     (if sidecarRootFSPath = [] \<and> sidecarRootFS \<noteq> []
      then map_of rootFSMap sidecarRootFS
      else Some sidecarRootFSPath)"

definition select_rootfs ::
  "string \<Rightarrow> string \<Rightarrow> stack_path_map \<Rightarrow> (string \<times> goerr option) list \<Rightarrow> (string \<times> rootfs_maps) option" where
  "select_rootfs sidecarRootFSPath sidecarRootFS rootFSMap entries =
     (let path = default_sidecar sidecarRootFSPath sidecarRootFS rootFSMap;
          (walkDirErr, m) = walk_rootfs entries
             \<lparr>rm_all = rootFSMap, rm_preloaded = rootFSMap, rm_extra = []\<rparr>
      in map_option (\<lambda>p. (p, m)) (choose_sidecar path sidecarRootFS (rm_all m)))"

subsection \<open>Addresses\<close>

record rep_config =
  rc_CellID :: string
  rc_Zone :: string
  rc_ListenAddr :: string
  rc_ListenAddrSecurable :: string
  rc_CertFile :: string
  rc_KeyFile :: string
  rc_CaCertFile :: string
  rc_DebugAddress :: string
  rc_LockTTL :: int
  rc_SupportedProviders :: "string list"
  rc_PlacementTags :: "string list"
  rc_OptionalPlacementTags :: "string list"

definition port_of_address :: "string \<Rightarrow> string res" where
  "port_of_address addr = index (Split (CHR '':'') addr) 1"

definition repURL :: "string \<Rightarrow> rep_config \<Rightarrow> string res" where
  "repURL node_ip config =
     (case port_of_address (rc_ListenAddrSecurable config) of
        Ok port \<Rightarrow> Ok (''https://'' @ node_ip @ '':'' @ port)
      | Err e \<Rightarrow> Err e
      | Panic p \<Rightarrow> Panic p)"

text \<open>An error of \<open>localip.LocalIP\<close> is logged as fatal, which panics.\<close>

definition repAddress :: "string res \<Rightarrow> rep_config \<Rightarrow> string res" where
  "repAddress local_ip config =
     (case local_ip of
        Ok ip \<Rightarrow>
          (case port_of_address (rc_ListenAddr config) of
             Ok port \<Rightarrow> Ok (''http://'' @ ip @ '':'' @ port)
           | Err e \<Rightarrow> Err e
           | Panic p \<Rightarrow> Panic p)
      | Err e \<Rightarrow> Panic ''failed-to-fetch-ip''
      | Panic p \<Rightarrow> Panic p)"

subsection \<open>The server certificate\<close>

record certificate =
  crt_IPAddresses :: "8 word list list"

text \<open>\<open>pem.Decode\<close> and \<open>x509.ParseCertificates\<close>\<close>

record pem_lib =
  pem_Decode :: "string \<Rightarrow> string option \<times> string"
  pem_ParseCertificates :: "string \<Rightarrow> certificate list res"

partial_function (option) pem_blocks ::
  "(string \<Rightarrow> string option \<times> string) \<Rightarrow> string \<Rightarrow> string \<Rightarrow> string res option" where
  "pem_blocks decode certBytes blocks =
     (case fst (decode certBytes) of
        None \<Rightarrow> Some (Err (Errorf ''failed parsing cert'' []))
      | Some b \<Rightarrow>
          let rest = snd (decode certBytes)
          in if rest = [] then Some (Ok (blocks @ b)) else pem_blocks decode rest (blocks @ b))"

definition invalid_san :: goerr where
  "invalid_san = ErrNew
     ''invalid SAN metadata. certificate needs to contain 127.0.0.1 for IP SAN metadata.''"

definition check_san :: "certificate list \<Rightarrow> goerr option res" where
  "check_san certs =
     (case index certs 0 of
        Ok c \<Rightarrow> Ok (if \<exists>ip \<in> set (crt_IPAddresses c). ip_Equal ip loopback then None else Some invalid_san)
      | Err e \<Rightarrow> Err e
      | Panic p \<Rightarrow> Panic p)"

text \<open>The error or nil it returns, or a panic; \<open>None\<close> is not returning.\<close>

definition verifyCertificate :: "pem_lib \<Rightarrow> string res \<Rightarrow> goerr option res option" where
  "verifyCertificate pem certFile =
     (case certFile of
        Err e \<Rightarrow> Some (Ok (Some e))
      | Panic p \<Rightarrow> Some (Panic p)
      | Ok certBytes \<Rightarrow>
          (case pem_blocks (pem_Decode pem) (TrimSpace certBytes) [] of
             None \<Rightarrow> None
           | Some (Err e) \<Rightarrow> Some (Ok (Some e))
           | Some (Panic p) \<Rightarrow> Some (Panic p)
           | Some (Ok blocks) \<Rightarrow>
               Some (case pem_ParseCertificates pem blocks of
                       Err e \<Rightarrow> Ok (Some (ErrorfS ''failed parsing cert: %s'' e))
                     | Panic p \<Rightarrow> Panic p
                     | Ok certs \<Rightarrow> check_san certs)))"

subsection \<open>Servers\<close>

text \<open>\<open>logger.Fatal\<close> is a panic with the message.\<close>

record tls_lib =
  tl_router :: "bool \<Rightarrow> goerr option"
  tl_certFile :: "string res"
  tl_pem :: pem_lib
  tl_serverConfig :: "string \<Rightarrow> string \<Rightarrow> string \<Rightarrow> goerr option"

text \<open>The address a server listens on.\<close>

definition listen_address :: "rep_config \<Rightarrow> bool \<Rightarrow> string" where
  "listen_address config networkAccessible =
     (if networkAccessible then rc_ListenAddrSecurable config else rc_ListenAddr config)"

definition initializeServer :: "tls_lib \<Rightarrow> rep_config \<Rightarrow> bool \<Rightarrow> string res option" where
  "initializeServer lib config networkAccessible =
     (let finish = (case tl_serverConfig lib (rc_CertFile config) (rc_KeyFile config) (rc_CaCertFile config) of
            Some e \<Rightarrow> Panic ''tls-configuration-failed''
          | None \<Rightarrow> Ok (listen_address config networkAccessible))
      in case tl_router lib networkAccessible of
           Some e \<Rightarrow> Some (Panic ''failed-to-construct-router'')
         | None \<Rightarrow>
             if \<not> networkAccessible
             then (case verifyCertificate (tl_pem lib) (tl_certFile lib) of
                     None \<Rightarrow> None
                   | Some (Ok None) \<Rightarrow> Some finish
                   | Some (Ok (Some e)) \<Rightarrow> Some (Panic ''tls-configuration-failed'')
                   | Some (Err e) \<Rightarrow> Some (Err e)
                   | Some (Panic p) \<Rightarrow> Some (Panic p))
             else Some finish)"

text \<open>The life of a server: the steps it takes until the signal, and what it returns.\<close>

datatype server_call = ServerListen string | ServerReady | ServerServe | ServerSignal | ServerClose

definition startTLSServer :: "string \<Rightarrow> goerr option \<Rightarrow> goerr option \<Rightarrow> goerr option \<times> server_call list" where
  "startTLSServer addr listenErr closeErr =
     (case listenErr of
        Some e \<Rightarrow> (Some e, [ServerListen addr])
      | None \<Rightarrow> (closeErr, [ServerListen addr, ServerReady, ServerServe, ServerSignal, ServerClose]))"

subsection \<open>Presence\<close>

record cell_capacity =
  cc_MemoryMB :: i32
  cc_DiskMB :: i32
  cc_Containers :: i32

record cell_presence =
  cp_CellID :: string
  cp_RepAddress :: string
  cp_RepURL :: string
  cp_Zone :: string
  cp_Capacity :: cell_capacity
  cp_Providers :: "string list"
  cp_Preloaded :: "string list"
  cp_Extra :: "string list"
  cp_PlacementTags :: "string list"
  cp_OptionalPlacementTags :: "string list"

record presence_lock =
  pl_Key :: string
  pl_Owner :: string
  pl_Value :: string
  pl_TTLInSeconds :: int

definition second_ns :: int where
  "second_ns = 1000000000"

text \<open>A Go division of integers truncates towards zero.\<close>

definition go_div :: "int \<Rightarrow> int \<Rightarrow> int" where
  "go_div a b = sgn a * sgn b * (\<bar>a\<bar> div \<bar>b\<bar>)"

text \<open>
  The lock of the cell, given the locket client, the identifier, the executor's resources and
  the encoder, each of which may fail.
\<close>

definition initializeCellPresence ::
  "goerr option \<Rightarrow> string res \<Rightarrow> (i64 \<times> i64 \<times> i64) res \<Rightarrow> (cell_presence \<Rightarrow> string res) \<Rightarrow>
   rep_config \<Rightarrow> string \<Rightarrow> string \<Rightarrow> string list \<Rightarrow> string list \<Rightarrow> presence_lock res" where
  "initializeCellPresence locketErr newGuid totalResources Marshal config address repUrl preloaded extra =
     (case locketErr of
        Some e \<Rightarrow> Panic ''failed-to-construct-locket-client''
      | None \<Rightarrow>
          (case newGuid of
             Ok guid \<Rightarrow>
               (case totalResources of
                  Ok (memoryMB, diskMB, ctrs) \<Rightarrow>
                    (case Marshal \<lparr>cp_CellID = rc_CellID config, cp_RepAddress = address, cp_RepURL = repUrl,
                        cp_Zone = rc_Zone config,
                        cp_Capacity = \<lparr>cc_MemoryMB = ucast memoryMB, cc_DiskMB = ucast diskMB, cc_Containers = ucast ctrs\<rparr>,
                        cp_Providers = rc_SupportedProviders config,
                        cp_Preloaded = preloaded, cp_Extra = extra,
                        cp_PlacementTags = rc_PlacementTags config,
                        cp_OptionalPlacementTags = rc_OptionalPlacementTags config\<rparr> of
                       Ok payload \<Rightarrow>
                         Ok \<lparr>pl_Key = rc_CellID config, pl_Owner = guid, pl_Value = payload,
                             pl_TTLInSeconds = go_div (rc_LockTTL config) second_ns\<rparr>
                     | _ \<Rightarrow> Panic ''failed-to-encode-cell-presence'')
                | _ \<Rightarrow> Panic ''failed-to-get-total-resources'')
           | _ \<Rightarrow> Panic ''failed-to-generate-guid''))"

subsection \<open>The process group\<close>

text \<open>The members in the order they are started, by name.\<close>

definition rep_members :: "string list" where
  "rep_members = [''presence'', ''http_server'', ''https_server'', ''evacuation-cleanup'', ''bulker'',
     ''event-consumer'', ''evacuator'', ''request-metrics-notifier'']"

definition group_members :: "rep_config \<Rightarrow> string list \<Rightarrow> string list" where
  "group_members config executorMembers =
     (let members = executorMembers @ rep_members
      in if rc_DebugAddress config \<noteq> [] then ''debug-server'' # members else members)"

subsection \<open>The maps during the walk\<close>

text \<open>Each stack comes from one source, and the extra ones take precedence.\<close>

definition rootfs_inv :: "rootfs_maps \<Rightarrow> bool" where
  "rootfs_inv m \<longleftrightarrow>
     gm_wf (rm_all m) \<and> gm_wf (rm_preloaded m) \<and> gm_wf (rm_extra m) \<and>
     dom (map_of (rm_preloaded m)) \<inter> dom (map_of (rm_extra m)) = {} \<and>
     map_of (rm_all m) = map_of (rm_preloaded m) ++ map_of (rm_extra m)"

lemma add_extra_inv: "rootfs_inv m \<Longrightarrow> rootfs_inv (add_extra_rootfs path m)"
  by (auto simp: rootfs_inv_def add_extra_rootfs_def Let_def fun_eq_iff map_add_def dom_def
      simp del: map_of_gm_put map_of_gm_delete
      simp: map_of_gm_put map_of_gm_delete split: option.splits)

lemma walk_inv: "rootfs_inv m \<Longrightarrow> rootfs_inv (snd (walk_rootfs es m))"
  by (induction es m rule: walk_rootfs.induct) (auto intro: add_extra_inv)

text \<open>The archives the walk has seen, in order.\<close>

definition archive :: "string \<Rightarrow> bool" where
  "archive path \<longleftrightarrow> EqualFold_tar (Ext path)"

definition stack_of :: "string \<Rightarrow> string" where
  "stack_of path = TrimSuffix (Base path) (Ext path)"

lemma add_extra_eq:
  "map_of (rm_extra (add_extra_rootfs path m)) =
     (if archive path then (map_of (rm_extra m))(stack_of path \<mapsto> path) else map_of (rm_extra m))"
  by (simp add: add_extra_rootfs_def archive_def stack_of_def Let_def)

text \<open>The archives the walk has come to: it ends at the first entry with an error.\<close>

definition walked_archives :: "(string \<times> goerr option) list \<Rightarrow> string list" where
  "walked_archives entries = filter archive (map fst (takeWhile (\<lambda>e. snd e = None) entries))"

text \<open>For each stack the last archive of its name.\<close>

definition archive_of :: "(string \<times> goerr option) list \<Rightarrow> string \<rightharpoonup> string" where
  "archive_of entries = map_of (rev (map (\<lambda>path. (stack_of path, path)) (walked_archives entries)))"

lemma walk_extra:
  "map_of (rm_extra (snd (walk_rootfs es m))) = map_of (rm_extra m) ++ archive_of es \<and>
   map_of (rm_preloaded (snd (walk_rootfs es m))) = map_of (rm_preloaded m) |` (- dom (archive_of es))"
proof (induction es m rule: walk_rootfs.induct)
  case (3 path es m)
  let ?m = "add_extra_rootfs path m"
  have "map_of (rm_preloaded ?m) = (if archive path then (map_of (rm_preloaded m))(stack_of path := None)
      else map_of (rm_preloaded m))"
    by (simp add: add_extra_rootfs_def archive_def stack_of_def Let_def)
  moreover have "archive_of ((path, None) # es) =
      (if archive path then [stack_of path \<mapsto> path] ++ archive_of es else archive_of es)"
    by (auto simp: archive_of_def walked_archives_def map_add_def fun_eq_iff split: option.splits)
  ultimately show ?case
    using 3 add_extra_eq [of path m]
    by (auto simp: map_add_def fun_eq_iff restrict_map_def dom_def split: option.splits)
qed (simp_all add: archive_of_def walked_archives_def)

subsection \<open>Ports\<close>

lemma port_of_host_port:
  "CHR '':'' \<notin> set host \<Longrightarrow> CHR '':'' \<notin> set port \<Longrightarrow> port_of_address (host @ '':'' @ port) = Ok port"
  by (simp add: port_of_address_def index_def Split_append Split_notin)

lemma port_of_no_colon:
  "CHR '':'' \<notin> set addr \<Longrightarrow> port_of_address addr = Panic index_out_of_range"
  by (simp add: port_of_address_def index_def Split_notin)

lemma port_of_returns_iff:
  "(\<exists>port. port_of_address addr = Ok port) \<longleftrightarrow> CHR '':'' \<in> set addr"
  using count_list_0_iff [of addr "CHR '':''"]
  by (auto simp: port_of_address_def index_def length_Split)

lemma port_of_more_colons:
  "CHR '':'' \<notin> set a \<Longrightarrow> CHR '':'' \<notin> set b \<Longrightarrow>
   port_of_address (a @ '':'' @ b @ '':'' @ c) = Ok b"
  by (simp add: port_of_address_def index_def Split_append)

subsection \<open>The certificate loop\<close>

text \<open>The blocks in a file: the last one ends it.\<close>

inductive decodes_to :: "(string \<Rightarrow> string option \<times> string) \<Rightarrow> string \<Rightarrow> string list \<Rightarrow> bool"
  for decode :: "string \<Rightarrow> string option \<times> string"
where
  last_block: "decode data = (Some b, []) \<Longrightarrow> decodes_to decode data [b]"
| more_blocks: "decode data = (Some b, rest) \<Longrightarrow> rest \<noteq> [] \<Longrightarrow> decodes_to decode rest bs \<Longrightarrow>
     decodes_to decode data (b # bs)"

inductive_simps decodes_to_iff: "decodes_to decode data bs"

definition decode_shortens :: "(string \<Rightarrow> string option \<times> string) \<Rightarrow> bool" where
  "decode_shortens decode \<longleftrightarrow>
     (\<forall>data b rest. decode data = (Some b, rest) \<longrightarrow> length rest < length data)"

lemma decodes_to_det: "decodes_to decode data bs \<Longrightarrow> decodes_to decode data bs' \<Longrightarrow> bs = bs'"
proof (induction arbitrary: bs' rule: decodes_to.induct)
  case (last_block data b)
  from last_block(2) show ?case by cases (use last_block in auto)
next
  case (more_blocks data b rest bs)
  note IH = more_blocks(4)
  from more_blocks(5) show ?case
  proof cases
    case (last_block b')
    with more_blocks(1,2) show ?thesis by simp
  next
    case (more_blocks b' rest' bs2)
    with \<open>decode data = (Some b, rest)\<close> IH show ?thesis by simp
  qed
qed

lemma pem_blocks_decodes:
  "decodes_to decode data bs \<Longrightarrow> pem_blocks decode data acc = Some (Ok (acc @ concat bs))"
proof (induction arbitrary: acc rule: decodes_to.induct)
  case (last_block data b)
  then show ?case by (subst pem_blocks.simps) simp
next
  case (more_blocks data b rest bs)
  then show ?case by (subst pem_blocks.simps) simp
qed

lemma decodes_to_more:
  assumes "decode data = (Some b, rest)" "rest \<noteq> []"
  shows "(\<exists>bs. decodes_to decode data bs) \<longleftrightarrow> (\<exists>bs. decodes_to decode rest bs)"
proof
  assume "\<exists>bs. decodes_to decode data bs"
  then obtain bs where "decodes_to decode data bs" ..
  then show "\<exists>bs. decodes_to decode rest bs"
    by cases (use assms in auto)
next
  assume "\<exists>bs. decodes_to decode rest bs"
  then show "\<exists>bs. decodes_to decode data bs"
    using more_blocks [of decode data b rest] assms by blast
qed

lemma pem_blocks_total:
  assumes "decode_shortens decode"
  shows "(\<exists>bs. decodes_to decode data bs \<and> pem_blocks decode data acc = Some (Ok (acc @ concat bs))) \<or>
     (\<nexists>bs. decodes_to decode data bs) \<and> pem_blocks decode data acc = Some (Err (Errorf ''failed parsing cert'' []))"
proof (induction data arbitrary: acc rule: length_induct)
  case (1 data)
  obtain ob rest where dec: "decode data = (ob, rest)" by (metis prod.exhaust)
  show ?case
  proof (cases ob)
    case None
    with dec show ?thesis
      by (subst (1 2) pem_blocks.simps) (auto elim: decodes_to.cases)
  next
    case (Some b)
    show ?thesis
    proof (cases "rest = []")
      case True
      with dec Some have "decodes_to decode data [b]" by (simp add: last_block)
      then show ?thesis using pem_blocks_decodes by blast
    next
      case False
      from assms dec Some have "length rest < length data" unfolding decode_shortens_def by blast
      with 1 have IH: "(\<exists>bs. decodes_to decode rest bs \<and>
            pem_blocks decode rest (acc @ b) = Some (Ok ((acc @ b) @ concat bs))) \<or>
          (\<nexists>bs. decodes_to decode rest bs) \<and>
            pem_blocks decode rest (acc @ b) = Some (Err (Errorf ''failed parsing cert'' []))"
        by blast
      have eq: "pem_blocks decode data acc = pem_blocks decode rest (acc @ b)"
        using dec Some False by (subst pem_blocks.simps) simp
      have same: "(\<exists>bs. decodes_to decode data bs) \<longleftrightarrow> (\<exists>bs. decodes_to decode rest bs)"
        using decodes_to_more dec Some False by blast
      show ?thesis
      proof (cases "\<exists>bs. decodes_to decode data bs")
        case True
        then show ?thesis using pem_blocks_decodes by blast
      next
        case False
        with same IH have "pem_blocks decode rest (acc @ b) = Some (Err (Errorf ''failed parsing cert'' []))"
          by blast
        with False eq show ?thesis by simp
      qed
    qed
  qed
qed

lemma check_san_eq:
  "check_san certs =
     (case certs of
        [] \<Rightarrow> Panic index_out_of_range
      | c # _ \<Rightarrow> Ok (if \<exists>ip \<in> set (crt_IPAddresses c). ip_Equal ip loopback then None else Some invalid_san))"
  by (cases certs) (simp_all add: check_san_def index_def)

subsection \<open>Properties\<close>

text \<open>C35: The extra stacks after the walk over the extra root file systems are exactly the archives
  it has come to before an error, each stack with the last archive of its name; they take
  precedence: the preloaded stacks that are left are those without such an archive, with their
  paths, and the stacks offered are the two together. A named sidecar root file system is the
  offered one of that name.\<close>

theorem rootfs_sources_partition:
  assumes "gm_wf rootFSMap" and "select_rootfs path name rootFSMap entries = Some (sidecar, m)"
  shows "map_of (rm_extra m) = archive_of entries \<and>
     map_of (rm_preloaded m) = map_of rootFSMap |` (- dom (archive_of entries)) \<and>
     map_of (rm_all m) = map_of rootFSMap ++ archive_of entries \<and>
     (path = [] \<and> name \<noteq> [] \<longrightarrow> (map_of rootFSMap ++ archive_of entries) name = Some sidecar)"
proof -
  let ?m = "\<lparr>rm_all = rootFSMap, rm_preloaded = rootFSMap, rm_extra = []\<rparr>"
  obtain err m' where walk: "walk_rootfs entries ?m = (err, m')" by (metis prod.exhaust)
  have "rootfs_inv ?m" using assms(1) by (simp add: rootfs_inv_def)
  from walk_inv [OF this, of entries] have inv: "rootfs_inv m'" by (simp add: walk)
  have *: "choose_sidecar (default_sidecar path name rootFSMap) name (rm_all m') = Some sidecar" "m = m'"
    using assms(2) by (auto simp: select_rootfs_def walk Let_def)
  have parts: "map_of (rm_extra m) = archive_of entries"
    "map_of (rm_preloaded m) = map_of rootFSMap |` (- dom (archive_of entries))"
    using walk_extra [of entries ?m] by (simp_all add: walk *(2))
  moreover have "map_of (rm_all m) = map_of rootFSMap ++ archive_of entries"
    using inv parts *(2)
    by (auto simp: rootfs_inv_def map_add_def fun_eq_iff restrict_map_def dom_def split: option.split)
  moreover have "map_of (rm_all m) name = Some sidecar" if "path = []" "name \<noteq> []"
    using * that by (simp add: choose_sidecar_def default_sidecar_def)
  ultimately show ?thesis by simp
qed

theorem rootfs_sources_partition_witness:
  "\<exists>m. select_rootfs [] ''cflinuxfs4'' [(''cflinuxfs3'', ''/p3''), (''cflinuxfs4'', ''/p4'')]
       [(''/x/notes.txt'', None), (''/x/cflinuxfs4.TAR'', None)] = Some (''/x/cflinuxfs4.TAR'', m) \<and>
     map_of (rm_all m) ''cflinuxfs4'' = Some ''/x/cflinuxfs4.TAR'' \<and> rm_preloaded m = [(''cflinuxfs3'', ''/p3'')]"
proof -
  let ?m = "\<lparr>rm_all = [(''cflinuxfs3'', ''/p3''), (''cflinuxfs4'', ''/x/cflinuxfs4.TAR'')],
       rm_preloaded = [(''cflinuxfs3'', ''/p3'')], rm_extra = [(''cflinuxfs4'', ''/x/cflinuxfs4.TAR'')]\<rparr>"
  have wf: "gm_wf [(''cflinuxfs3'', ''/p3''), (''cflinuxfs4'', ''/p4'')]" by (simp add: gm_wf_def)
  have sel: "select_rootfs [] ''cflinuxfs4'' [(''cflinuxfs3'', ''/p3''), (''cflinuxfs4'', ''/p4'')]
      [(''/x/notes.txt'', None), (''/x/cflinuxfs4.TAR'', None)] =
    Some (''/x/cflinuxfs4.TAR'', ?m)"
    by code_simp
  have "map (\<lambda>path. (stack_of path, path)) (walked_archives [(''/x/notes.txt'', None), (''/x/cflinuxfs4.TAR'', None)]) =
      [(''cflinuxfs4'', ''/x/cflinuxfs4.TAR'')]"
    by code_simp
  then have arch: "archive_of [(''/x/notes.txt'', None), (''/x/cflinuxfs4.TAR'', None)] = [''cflinuxfs4'' \<mapsto> ''/x/cflinuxfs4.TAR'']"
    by (simp add: archive_of_def)
  from rootfs_sources_partition [OF wf sel, unfolded arch] have all: "map_of (rm_all ?m) ''cflinuxfs4'' = Some ''/x/cflinuxfs4.TAR''" by simp
  from sel all show ?thesis by (intro exI [of _ ?m] conjI) simp_all
qed

text \<open>C36: The port of the rep's URL is what follows the colon of a listen address with one
  colon; an address without a colon makes the rep panic, and of an address with more colons, as
  an IPv6 one, the second piece is taken, whatever the port is.\<close>

theorem rep_url_port:
  assumes "CHR '':'' \<notin> set host" and "CHR '':'' \<notin> set port"
  shows "repURL ip (c\<lparr>rc_ListenAddrSecurable := host @ '':'' @ port\<rparr>) = Ok (''https://'' @ ip @ '':'' @ port) \<and>
     repURL ip (c\<lparr>rc_ListenAddrSecurable := host\<rparr>) = Panic index_out_of_range \<and>
     repURL ip (c\<lparr>rc_ListenAddrSecurable := host @ '':'' @ port @ '':'' @ rest\<rparr>) = Ok (''https://'' @ ip @ '':'' @ port)"
  using port_of_host_port [OF assms] port_of_no_colon [OF assms(1)] port_of_more_colons [OF assms, of rest]
  by (simp add: repURL_def)

definition sample_config :: rep_config where
  "sample_config = \<lparr>rc_CellID = ''cell'', rc_Zone = ''z1'', rc_ListenAddr = ''0.0.0.0:1800'',
     rc_ListenAddrSecurable = ''0.0.0.0:1801'', rc_CertFile = ''/crt'', rc_KeyFile = ''/key'',
     rc_CaCertFile = ''/ca'', rc_DebugAddress = [], rc_LockTTL = 15000000000,
     rc_SupportedProviders = [''docker''], rc_PlacementTags = [], rc_OptionalPlacementTags = []\<rparr>"

theorem rep_url_port_witness:
  "repURL ''10.0.0.1'' (sample_config\<lparr>rc_ListenAddrSecurable := ''['' @ '':'' @ []\<rparr>) = Ok (''https://'' @ ''10.0.0.1'' @ '':'' @ []) \<and>
   repURL ''10.0.0.1'' (sample_config\<lparr>rc_ListenAddrSecurable := ''[''\<rparr>) = Panic index_out_of_range \<and>
   repURL ''10.0.0.1'' (sample_config\<lparr>rc_ListenAddrSecurable := ''['' @ '':'' @ [] @ '':'' @ '']:1801''\<rparr>) =
     Ok (''https://'' @ ''10.0.0.1'' @ '':'' @ [])"
  by (rule rep_url_port) simp_all

text \<open>C37: Given that \<open>pem.Decode\<close> consumes input, \<open>verifyCertificate\<close> returns, and it accepts
  exactly the files that consist of PEM blocks whose contents parse and whose first certificate
  names the address 127.0.0.1; it panics exactly when the blocks parse to no certificate.\<close>

theorem verifyCertificate_accepts:
  assumes "decode_shortens (pem_Decode pem)" and "\<forall>bytes p. pem_ParseCertificates pem bytes \<noteq> Panic p"
  shows "\<exists>r. verifyCertificate pem (Ok data) = Some r \<and>
     (r = Ok None \<longleftrightarrow> (\<exists>bs c cs. decodes_to (pem_Decode pem) (TrimSpace data) bs \<and>
        pem_ParseCertificates pem (concat bs) = Ok (c # cs) \<and>
        (\<exists>ip \<in> set (crt_IPAddresses c). ip = [127, 0, 0, 1] \<or> ip = v4InV6Prefix @ [127, 0, 0, 1]))) \<and>
     ((\<exists>p. r = Panic p) \<longleftrightarrow> (\<exists>bs. decodes_to (pem_Decode pem) (TrimSpace data) bs \<and>
        pem_ParseCertificates pem (concat bs) = Ok []))"
proof (cases "\<exists>bs. decodes_to (pem_Decode pem) (TrimSpace data) bs")
  case False
  with pem_blocks_total [OF assms(1), of "TrimSpace data" "[]"] show ?thesis
    by (auto simp: verifyCertificate_def)
next
  case True
  then obtain bs where bs: "decodes_to (pem_Decode pem) (TrimSpace data) bs" ..
  have uniq: "decodes_to (pem_Decode pem) (TrimSpace data) bs' \<longleftrightarrow> bs' = bs" for bs'
    using bs decodes_to_det by blast
  have v: "verifyCertificate pem (Ok data) = Some (case pem_ParseCertificates pem (concat bs) of
      Err e \<Rightarrow> Ok (Some (ErrorfS ''failed parsing cert: %s'' e)) | Panic p \<Rightarrow> Panic p | Ok certs \<Rightarrow> check_san certs)"
    using pem_blocks_decodes [OF bs, of "[]"] by (simp add: verifyCertificate_def)
  show ?thesis
  proof (cases "pem_ParseCertificates pem (concat bs)")
    case (Ok certs)
    then show ?thesis
      by (cases certs) (auto simp: v uniq check_san_eq ip_Equal_loopback split: if_splits)
  qed (use assms(2) in \<open>auto simp: v uniq\<close>)
qed

definition sample_pem :: pem_lib where
  "sample_pem = \<lparr>pem_Decode = (\<lambda>s. case s of [] \<Rightarrow> (None, []) | c # cs \<Rightarrow> (Some [c], cs)),
     pem_ParseCertificates = (\<lambda>s. if s = ''AB'' then Ok [\<lparr>crt_IPAddresses = [[10, 0, 0, 1], [127, 0, 0, 1]]\<rparr>]
       else Ok [])\<rparr>"

theorem verifyCertificate_accepts_witness:
  "verifyCertificate sample_pem (Ok ''AB'') = Some (Ok None)"
proof -
  have "\<forall>e \<in> set space_encodings. e \<noteq> [] \<and> hd e \<noteq> CHR ''A''"
    "\<forall>e \<in> set (map rev space_encodings). e \<noteq> [] \<and> hd e \<noteq> CHR ''B''"
    by (auto simp: space_encodings_def dest: arg_cong [where f = "of_char :: char \<Rightarrow> nat"])
  then have trim: "TrimSpace ''AB'' = ''AB''"
    by (simp add: TrimSpace_def trim_leading_plain)
  have shortens: "decode_shortens (pem_Decode sample_pem)"
    by (auto simp: decode_shortens_def sample_pem_def split: list.splits)
  have total: "\<forall>bytes p. pem_ParseCertificates sample_pem bytes \<noteq> Panic p"
    by (simp add: sample_pem_def)
  have "decodes_to (pem_Decode sample_pem) ''AB'' [''A'', ''B'']"
    by (rule decodes_to.more_blocks [where rest = "''B''"], simp_all add: sample_pem_def)
      (rule decodes_to.last_block, simp)
  moreover have "pem_ParseCertificates sample_pem (concat [''A'', ''B'']) =
      Ok [\<lparr>crt_IPAddresses = [[10, 0, 0, 1], [127, 0, 0, 1]]\<rparr>]" by (simp add: sample_pem_def)
  ultimately have "\<exists>bs c cs. decodes_to (pem_Decode sample_pem) (TrimSpace ''AB'') bs \<and>
      pem_ParseCertificates sample_pem (concat bs) = Ok (c # cs) \<and>
      (\<exists>ip \<in> set (crt_IPAddresses c). ip = [127, 0, 0, 1] \<or> ip = v4InV6Prefix @ [127, 0, 0, 1])"
    unfolding trim by (intro exI conjI) (assumption+, simp)
  with verifyCertificate_accepts [OF shortens total, of "''AB''"] show ?thesis by blast
qed

end
