(* ===== verification/Executor.thy ===== *)
theory Executor
  imports GoStd Lifecycle
begin

section \<open>Building the executor (pkg/executor/init.go)\<close>

text \<open>
  The helpers of \<open>Initialize\<close>: the configuration and its checks, the TLS configuration of the
  asset downloads, the credential manager, the working directory, the runner that closes the
  event hub, and the destruction of the containers a former executor has left.
\<close>

subsection \<open>The configuration\<close>

text \<open>
  \<open>ExecutorConfig\<close>, field by field; a duration is its number of nanoseconds, and \<open>int\<close> and
  \<open>int64\<close> are words read with \<^term>\<open>sint\<close>.
\<close>

record executor_config =
  ec_AdvertisePreferenceForInstanceAddress :: bool
  ec_AutoDiskOverheadMB :: i64
  ec_CachePath :: string
  ec_ContainerInodeLimit :: u64
  ec_ContainerMaxCpuShares :: u64
  ec_ContainerMetricsReportInterval :: i64
  ec_ContainerOwnerName :: string
  ec_ContainerProxyADSServers :: "string list"
  ec_ContainerProxyConfigPath :: string
  ec_ContainerProxyPath :: string
  ec_ContainerProxyRequireClientCerts :: bool
  ec_ContainerProxyTrustedCACerts :: "string list"
  ec_ContainerProxyVerifySubjectAltName :: "string list"
  ec_ContainerReapInterval :: i64
  ec_CreateWorkPoolSize :: i64
  ec_DeclarativeHealthcheckPath :: string
  ec_DeleteWorkPoolSize :: i64
  ec_DiskMB :: string
  ec_EnableContainerProxy :: bool
  ec_EnableContainerProxyHealthChecks :: bool
  ec_DeclarativeHealthCheckDefaultTimeout :: i64
  ec_EnableHealtcheckMetrics :: bool
  ec_EnableUnproxiedPortMappings :: bool
  ec_EnvoyConfigRefreshDelay :: i64
  ec_EnvoyConfigReloadDuration :: i64
  ec_EnvoyDrainTimeout :: i64
  ec_ProxyHealthCheckInterval :: i64
  ec_ExportNetworkEnvVars :: bool
  ec_GardenAddr :: string
  ec_GardenHealthcheckCommandRetryPause :: i64
  ec_GardenHealthcheckEmissionInterval :: i64
  ec_GardenHealthcheckInterval :: i64
  ec_GardenHealthcheckProcessArgs :: "string list"
  ec_GardenHealthcheckProcessDir :: string
  ec_GardenHealthcheckProcessEnv :: "string list"
  ec_GardenHealthcheckProcessPath :: string
  ec_GardenHealthcheckProcessUser :: string
  ec_GardenHealthcheckTimeout :: i64
  ec_GardenNetwork :: string
  ec_GracefulShutdownInterval :: i64
  ec_HealthCheckContainerOwnerName :: string
  ec_HealthCheckWorkPoolSize :: i64
  ec_HealthyMonitoringInterval :: i64
  ec_InstanceIdentityCAPath :: string
  ec_InstanceIdentityCredDir :: string
  ec_InstanceIdentityPrivateKeyPath :: string
  ec_InstanceIdentityValidityPeriod :: i64
  ec_MaxCacheSizeInBytes :: u64
  ec_MaxConcurrentDownloads :: i64
  ec_MaxLogLinesPerSecond :: i64
  ec_MemoryMB :: string
  ec_MetricsWorkPoolSize :: i64
  ec_PathToCACertsForDownloads :: string
  ec_PathToTLSCACert :: string
  ec_PathToTLSCert :: string
  ec_PathToTLSKey :: string
  ec_PostSetupHook :: string
  ec_PostSetupUser :: string
  ec_ProxyEnableHttp2 :: bool
  ec_ProxyMemoryAllocationMB :: i64
  ec_ReadWorkPoolSize :: i64
  ec_ReservedExpirationTime :: i64
  ec_SetCPUWeight :: bool
  ec_SkipCertVerify :: bool
  ec_TempDir :: string
  ec_TrustedSystemCertificatesPath :: string
  ec_UnhealthyMonitoringInterval :: i64
  ec_UseSchedulableDiskSize :: bool
  ec_VolmanDriverPaths :: string
  ec_VolumeMountedFiles :: string

text \<open>One check: the new value of \<open>valid\<close> and the entries logged.\<close>

definition check :: "bool \<Rightarrow> string \<Rightarrow> bool \<times> string list \<Rightarrow> bool \<times> string list" where
  "check bad msg s = (if bad then (False, snd s @ [msg]) else s)"

definition Validate :: "executor_config \<Rightarrow> bool \<times> string list" where
  "Validate config =
     check (sint (ec_DeclarativeHealthCheckDefaultTimeout config) \<le> 0) ''declarative_healthcheck_default_timeout''
     (check (ec_PostSetupHook config \<noteq> [] \<and> ec_PostSetupUser config = []) ''post-setup-hook-requires-a-user''
     (check (ec_GardenHealthcheckProcessPath config = []) ''garden-healthcheck-process-path-invalid''
     (check (ec_GardenHealthcheckProcessUser config = []) ''garden-healthcheck-process-user-invalid''
     (check (sint (ec_GardenHealthcheckInterval config) \<le> 0) ''garden-healthcheck-interval-invalid''
     (check (sint (ec_UnhealthyMonitoringInterval config) \<le> 0) ''unhealthy-monitoring-interval-invalid''
     (check (sint (ec_HealthyMonitoringInterval config) \<le> 0) ''healthy-monitoring-interval-invalid''
     (check (ec_ContainerMaxCpuShares config = 0) ''max-cpu-shares-invalid'' (True, []))))))))"

subsection \<open>TLS for the asset downloads\<close>

text \<open>
  A pool is the list of the certificates added to it. \<open>x509_lib\<close>: \<open>SystemCertPool\<close> (the
  pool may be nil), \<open>AppendCertsFromPEM\<close> (the new pool and whether a certificate was added)
  and the client part of \<open>tlsconfig.Build\<close>, which takes the identity and the pool.
\<close>

type_synonym cert_pool = "string list"

record tls_config =
  tc_RootCAs :: cert_pool
  tc_InsecureSkipVerify :: bool
  tc_CipherSuites :: "nat list"
  tc_MinVersion :: nat
  tc_Identity :: "(string \<times> string) option"

record 'w x509_lib =
  xl_SystemCertPool :: "('w, cert_pool option) act"
  xl_ReadFile :: "string \<Rightarrow> ('w, string) act"
  xl_AppendCertsFromPEM :: "cert_pool \<Rightarrow> string \<Rightarrow> cert_pool \<times> bool"
  xl_BuildClient :: "string \<Rightarrow> string \<Rightarrow> cert_pool \<Rightarrow> ('w, tls_config) act"

definition VersionTLS12 :: nat where
  "VersionTLS12 = 0x303"

definition SystemCerts :: "'w x509_lib \<Rightarrow> ('w, cert_pool) act" where
  "SystemCerts lib = andthen (xl_SystemCertPool lib) (\<lambda>p. return_ok (case p of None \<Rightarrow> [] | Some pool \<Rightarrow> pool))"

definition appendCACerts :: "'w x509_lib \<Rightarrow> cert_pool \<Rightarrow> string \<Rightarrow> ('w, cert_pool) act" where
  "appendCACerts lib caCertPool pathToCA w =
     (case xl_ReadFile lib pathToCA w of
        (Err e, w1) \<Rightarrow> (Err (Errorf (''Unable to open CA cert bundle '%s'' @ [CHR 0x27]) [pathToCA]), w1)
      | (Panic p, w1) \<Rightarrow> (Panic p, w1)
      | (Ok bytes, w1) \<Rightarrow>
          (let certBytes = TrimSpace bytes
           in if 0 < length certBytes
              then (case xl_AppendCertsFromPEM lib caCertPool certBytes of
                      (pool, False) \<Rightarrow> (Err (ErrNew ''unable to load CA certificate''), w1)
                    | (pool, True) \<Rightarrow> (Ok pool, w1))
              else (Ok caCertPool, w1)))"

definition append_if_set :: "'w x509_lib \<Rightarrow> string \<Rightarrow> cert_pool \<Rightarrow> ('w, cert_pool) act" where
  "append_if_set lib path pool = (if path \<noteq> [] then appendCACerts lib pool path else return_ok pool)"

definition client_tls :: "'w x509_lib \<Rightarrow> executor_config \<Rightarrow> cert_pool \<Rightarrow> ('w, tls_config) act" where
  "client_tls lib config caCertPool =
     (if ec_PathToTLSKey config \<noteq> [] \<and> ec_PathToTLSCert config \<noteq> []
      then andthen (xl_BuildClient lib (ec_PathToTLSCert config) (ec_PathToTLSKey config) caCertPool)
             (\<lambda>t. return_ok (t\<lparr>tc_InsecureSkipVerify := ec_SkipCertVerify config, tc_CipherSuites := []\<rparr>))
      else return_ok \<lparr>tc_RootCAs = caCertPool, tc_InsecureSkipVerify = ec_SkipCertVerify config,
             tc_CipherSuites = [], tc_MinVersion = VersionTLS12, tc_Identity = None\<rparr>)"

definition TLSConfigFromConfig :: "'w x509_lib \<Rightarrow> executor_config \<Rightarrow> ('w, tls_config) act" where
  "TLSConfigFromConfig lib config =
     andthen (SystemCerts lib) (\<lambda>pool.
       if (ec_PathToTLSKey config \<noteq> [] \<and> ec_PathToTLSCert config = []) \<or>
          (ec_PathToTLSKey config = [] \<and> ec_PathToTLSCert config \<noteq> [])
       then return_err (ErrNew ''The TLS certificate or key is missing'')
       else andthen (append_if_set lib (ec_PathToTLSCACert config) pool) (\<lambda>pool1.
              andthen (append_if_set lib (ec_PathToCACertsForDownloads config) pool1)
                (client_tls lib config)))"

subsection \<open>Instance identity\<close>

text \<open>
  \<open>pem.Decode\<close>'s block and the two parsers of \<open>x509\<close>. The manager made is described by
  what it is given.
\<close>

record 'key cred_lib =
  cl_Decode :: "string \<Rightarrow> string option"
  cl_ParsePKCS1PrivateKey :: "string \<Rightarrow> 'key res"
  cl_ParseCertificates :: "string \<Rightarrow> string list res"

datatype 'key cred_manager = NoopCredManager | CredManager i64 string 'key

definition read_key ::
  "('w x509_lib) \<Rightarrow> 'key cred_lib \<Rightarrow> string \<Rightarrow> ('w, 'key) act" where
  "read_key lib cl path =
     andthen (xl_ReadFile lib path) (\<lambda>keyData.
       case cl_Decode cl keyData of
         None \<Rightarrow> return_err (ErrNew ''instance ID key is not PEM-encoded'')
       | Some bytes \<Rightarrow> (\<lambda>w. (cl_ParsePKCS1PrivateKey cl bytes, w)))"

definition read_ca ::
  "('w x509_lib) \<Rightarrow> 'key cred_lib \<Rightarrow> string \<Rightarrow> ('w, string list) act" where
  "read_ca lib cl path =
     andthen (xl_ReadFile lib path) (\<lambda>certData.
       case cl_Decode cl certData of
         None \<Rightarrow> return_err (ErrNew ''instance ID CA is not PEM-encoded'')
       | Some bytes \<Rightarrow> (\<lambda>w. (cl_ParseCertificates cl bytes, w)))"

definition CredManagerFromConfig ::
  "('w x509_lib) \<Rightarrow> 'key cred_lib \<Rightarrow> executor_config \<Rightarrow> ('w, 'key cred_manager) act" where
  "CredManagerFromConfig lib cl config =
     (if ec_InstanceIdentityCredDir config \<noteq> []
      then andthen (read_key lib cl (ec_InstanceIdentityPrivateKeyPath config)) (\<lambda>privateKey.
           andthen (read_ca lib cl (ec_InstanceIdentityCAPath config)) (\<lambda>certs.
             if sint (ec_InstanceIdentityValidityPeriod config) \<le> 0
             then return_err (ErrNew ''instance ID validity period needs to be set and positive'')
             else (\<lambda>w. (case index certs 0 of
                          Ok cert \<Rightarrow> Ok (CredManager (ec_InstanceIdentityValidityPeriod config) cert privateKey)
                        | Err e \<Rightarrow> Err e
                        | Panic p \<Rightarrow> Panic p, w))))
      else return_ok NoopCredManager)"

subsection \<open>The working directory and the hub\<close>

datatype dir_call = RemoveAll string | MkdirAll string nat

text \<open>\<open>os.Exit(1)\<close> ends the process; like a panic nothing recovers, no later statement runs.\<close>

definition exit_1 :: string where
  "exit_1 = ''os.Exit(1)''"

text \<open>The path of the new directory, with the calls made.\<close>

definition setupWorkDir ::
  "(string \<Rightarrow> 'w \<Rightarrow> goerr option \<times> 'w) \<Rightarrow> (string \<Rightarrow> nat \<Rightarrow> 'w \<Rightarrow> goerr option \<times> 'w) \<Rightarrow> string \<Rightarrow>
   ((dir_call, 'w) traced, string) act" where
  "setupWorkDir removePath mkdirPath tempDir st =
     (let workDir = Join [tempDir, ''executor-work'']
      in case call (RemoveAll workDir) (removePath workDir) st of
           (Some e, st1) \<Rightarrow> (Panic exit_1, st1)
         | (None, st1) \<Rightarrow>
             (case call (MkdirAll workDir 493) (mkdirPath workDir 493) st1 of
                (Some e, st2) \<Rightarrow> (Panic exit_1, st2)
              | (None, st2) \<Rightarrow> (Ok workDir, st2)))"

datatype hub_call = HubReady | HubSignal | HubClose | HubLogError

definition closeHub :: "goerr option \<Rightarrow> goerr option \<times> hub_call list" where
  "closeHub closeErr =
     (None, [HubReady, HubSignal, HubClose] @ (case closeErr of None \<Rightarrow> [] | Some e \<Rightarrow> [HubLogError]))"

subsection \<open>Destroying the containers a former executor has left\<close>

text \<open>
  What the executor needs of a garden client: after a \<open>Destroy\<close> that returns nil the handle is
  gone, and a \<open>Destroy\<close> leaves every other handle as it was. \<open>handles\<close> is the abstract
  state, the handles of the live containers; a \<open>Destroy\<close> may fail to return (\<open>None\<close>).
\<close>

text \<open>
  The deletions run in a pool of workers, each submitted by a goroutine of its own, so they
  complete in any order: \<open>order\<close> is the list of handles in the order in which they complete.
  The receiving loop returns at the first error it receives. The result: the error or nil, the
  handles whose result was received, and the state then.
\<close>

fun receive_deletions ::
  "('s \<Rightarrow> string \<Rightarrow> (unit res \<times> 's) option) \<Rightarrow> string list \<Rightarrow> 's \<Rightarrow> (unit res \<times> string list \<times> 's) option" where
  "receive_deletions destroy [] s = Some (Ok (), [], s)"
| "receive_deletions destroy (handle # order) s =
     (case destroy s handle of
        None \<Rightarrow> None
      | Some (Ok _, s') \<Rightarrow>
          (case receive_deletions destroy order s' of
             None \<Rightarrow> None
           | Some (r, received, s'') \<Rightarrow> Some (r, handle # received, s''))
      | Some (Err e, s') \<Rightarrow> Some (Err e, [handle], s')
      | Some (Panic p, s') \<Rightarrow> Some (Panic p, [handle], s'))"

text \<open>The filter of \<open>executorContainers\<close>: the owner, in any state.\<close>

definition owner_filter :: "string \<Rightarrow> string \<Rightarrow> string \<Rightarrow> garden_properties" where
  "owner_filter owner_key state_key owner = gm_put state_key ''all'' [(owner_key, owner)]"

definition executorContainers ::
  "('w, 'img, 'task, 'pm) deps \<Rightarrow> ('task, 'pm) client \<Rightarrow> string \<Rightarrow> string \<Rightarrow> 'task container list" where
  "executorContainers d c state_key owner =
     fst (Containers d c (Some (owner_filter (d_OwnerKey d) state_key owner)))"

text \<open>\<open>Destroy\<close> on the client and the world together.\<close>

definition destroy_op ::
  "('w, 'img, 'task, 'pm) deps \<Rightarrow> ('task, 'pm) client \<times> 'w \<Rightarrow> string \<Rightarrow>
   (unit res \<times> ('task, 'pm) client \<times> 'w) option" where
  "destroy_op d s handle = client_Destroy d (fst s) handle (snd s)"

text \<open>\<open>schedule\<close> is the order the workers complete in, a permutation of its argument.\<close>

definition destroyContainers ::
  "('w, 'img, 'task, 'pm) deps \<Rightarrow> string \<Rightarrow> string \<Rightarrow> (string list \<Rightarrow> string list) \<Rightarrow>
   ('task, 'pm) client \<times> 'w \<Rightarrow> (unit res \<times> string list \<times> ('task, 'pm) client \<times> 'w) option" where
  "destroyContainers d state_key owner schedule s =
     receive_deletions (destroy_op d)
       (schedule (map container_Handle (executorContainers d (fst s) state_key owner))) s"

locale garden_service =
  fixes destroy :: "'s \<Rightarrow> string \<Rightarrow> (unit res \<times> 's) option"
    and handles :: "'s \<Rightarrow> string set"
  assumes destroy_Ok: "destroy s h = Some (Ok u, s') \<Longrightarrow> handles s' = handles s - {h}"
    and destroy_others: "destroy s h = Some (r, s') \<Longrightarrow> handles s - {h} \<subseteq> handles s' \<and> handles s' \<subseteq> handles s"
begin

lemma receive_nil:
  "receive_deletions destroy order s = Some (Ok u, received, s') \<Longrightarrow>
   received = order \<and> handles s' = handles s - set order"
proof (induction order arbitrary: s received)
  case (Cons h order)
  then obtain u' t where d: "destroy s h = Some (Ok u', t)"
    by (auto split: option.splits prod.splits res.splits)
  with Cons.prems obtain rest where
    "receive_deletions destroy order t = Some (Ok u, rest, s')" "received = h # rest"
    by (auto split: option.splits prod.splits)
  with Cons.IH destroy_Ok [OF d] show ?case by auto
qed simp

text \<open>On every way out, only handles whose result was received are gone.\<close>

lemma receive_frame:
  "receive_deletions destroy order s = Some (r, received, s') \<Longrightarrow>
   set received \<subseteq> set order \<and> handles s - set received \<subseteq> handles s' \<and> handles s' \<subseteq> handles s"
proof (induction order arbitrary: s received r)
  case (Cons h order)
  obtain r1 t where d: "destroy s h = Some (r1, t)"
    using Cons.prems by (auto split: option.splits)
  note fr = destroy_others [OF d]
  show ?case
  proof (cases r1)
    case (Ok u)
    with Cons.prems d obtain rest where
      "receive_deletions destroy order t = Some (r, rest, s')" "received = h # rest"
      by (auto split: option.splits prod.splits)
    with Cons.IH [of t r rest] fr show ?thesis by auto
  qed (use Cons.prems d fr in auto)
qed simp

end

interpretation gs: garden_service "destroy_op d" "\<lambda>s. dom (cl_view (fst s))"
  for d :: "('w, 'img, 'task, 'pm) deps"
proof unfold_locales
  fix s :: "('task, 'pm) client \<times> 'w" and h u s' r
  show "destroy_op d s h = Some (Ok u, s') \<Longrightarrow> dom (cl_view (fst s')) = dom (cl_view (fst s)) - {h}"
  proof -
    assume "destroy_op d s h = Some (Ok u, s')"
    then have "client_Destroy d (fst s) h (snd s) = Some (Ok u, fst s', snd s')"
      by (simp add: destroy_op_def)
    then show ?thesis by (rule destroy_cases) (auto simp: destroyed_def)
  qed
  show "destroy_op d s h = Some (r, s') \<Longrightarrow>
     dom (cl_view (fst s)) - {h} \<subseteq> dom (cl_view (fst s')) \<and> dom (cl_view (fst s')) \<subseteq> dom (cl_view (fst s))"
  proof -
    assume "destroy_op d s h = Some (r, s')"
    then have "client_Destroy d (fst s) h (snd s) = Some (r, fst s', snd s')"
      by (simp add: destroy_op_def)
    then show ?thesis by (rule destroy_cases) (auto simp: destroyed_def)
  qed
qed

lemma executorContainers_set:
  assumes "property_laws (d_props d)" "cm_wf (cl_containers c)"
    "state_key = ''garden.state''" "d_OwnerKey d \<noteq> state_key"
  shows "set (executorContainers d c state_key owner) =
     {ct. (\<exists>h. cl_view c h = Some ct) \<and>
        pr_Get (d_props d) (cl_props c) (container_Handle ct) (d_OwnerKey d) = Some owner}"
proof -
  let ?f = "owner_filter (d_OwnerKey d) state_key owner"
  have eff: "effective_filter (Some ?f) = [(d_OwnerKey d, owner)]"
    using assms(3,4) by (simp add: effective_filter_def owner_filter_def gm_put_def gm_delete_def)
  have "set (executorContainers d c state_key owner) =
      {ct \<in> ran (cl_view c). pr_MatchesAll (d_props d) (cl_props c) (container_Handle ct) [(d_OwnerKey d, owner)]}"
    using assms(2) by (auto simp: executorContainers_def Containers_def Let_def eff cm.set_list)
  then show ?thesis by (auto simp: property_lawsD(3) [OF assms(1)] ran_def)
qed

end
