(* ===== verification/ExecutorInit.thy ===== *)
theory ExecutorInit
  imports Executor
begin

section \<open>Initialize (pkg/executor/init.go)\<close>

text \<open>
  \<open>Initialize\<close> in the stages of the code, each a call that may not return (\<open>None\<close>), on the
  state of the calls made so far and the world: what it asks of the environment, in which order,
  what each failure does, and the client, the container store, the reporters and the members of
  the process group it builds. The manager, the garden client, the removal of stray containers,
  the TLS configuration and the credential manager are the definitions of their own sections;
  \<open>waitForGarden\<close> is modelled as a state machine in WaitGarden, and an argument here.
\<close>

subsection \<open>Calls that may not return\<close>

type_synonym ('s, 'a) pact = "'s \<Rightarrow> ('a res \<times> 's) option"

definition returns :: "('s, 'a) act \<Rightarrow> ('s, 'a) pact" where
  "returns m s = Some (m s)"

definition continue_with :: "('s, 'a) pact \<Rightarrow> ('a \<Rightarrow> ('s, 'b) pact) \<Rightarrow> ('s, 'b) pact" where
  "continue_with m f s =
     (case m s of
        None \<Rightarrow> None
      | Some (Ok a, s') \<Rightarrow> f a s'
      | Some (Err e, s') \<Rightarrow> Some (Err e, s')
      | Some (Panic p, s') \<Rightarrow> Some (Panic p, s'))"

definition call_pact :: "'e \<Rightarrow> ('w, 'a) pact \<Rightarrow> (('e, 'w) traced, 'a) pact" where
  "call_pact ev f s = (case f (snd s) of None \<Rightarrow> None | Some (r, w') \<Rightarrow> Some (r, fst s @ [ev], w'))"

text \<open>An error that is logged before the process ends with \<open>os.Exit(1)\<close>.\<close>

definition or_exit :: "('s, 'a) pact \<Rightarrow> ('s, 'a) pact" where
  "or_exit m s =
     (case m s of
        Some (Err e, s') \<Rightarrow> Some (Panic exit_1, s')
      | r \<Rightarrow> r)"

text \<open>The calls another trace records, as calls of this one.\<close>

definition embed :: "('d \<Rightarrow> 'e) \<Rightarrow> (('d, 'w) traced, 'a) act \<Rightarrow> (('e, 'w) traced, 'a) act" where
  "embed tag m s = (case m ([], snd s) of (r, tr, w2) \<Rightarrow> (r, fst s @ map tag tr, w2))"

subsection \<open>The calls\<close>

datatype init_event =
    EvShlexSplit string
  | EvNewManager string
  | EvManagerStart
  | EvWaitForCacheSync
  | EvKubeletHTTPClient
  | EvContainerdNew string string
  | EvNewClient string string
  | EvWaitForGarden
  | EvNewWorkPool i64
  | EvDestroyContainers string
  | EvTLSConfig
  | EvCachedDownloader string i64
  | EvRecoverState
  | EvWorkDir dir_call
  | EvConfigureCapacity string string
  | EvCredManager

subsection \<open>The controller manager and the kubelet client\<close>

text \<open>
  The options of the manager: no leader election, and a cache of the pods of one namespace and
  one node that carry a label.
\<close>

record pod_cache_config =
  pcc_Namespace :: string
  pcc_NodeName :: string
  pcc_LabelExists :: string

record manager_options =
  mo_NeedLeaderElection :: bool
  mo_PodCache :: pod_cache_config

record 'w manager_lib =
  ml_NewRequirement :: "string \<Rightarrow> string res"
  ml_New :: "manager_options \<Rightarrow> ('w, unit) act"
  ml_GetPodInformer :: "('w, unit) act"

definition manager_options_for :: "string \<Rightarrow> string \<Rightarrow> string \<Rightarrow> manager_options" where
  "manager_options_for workloadsNamespace node_name podSelector =
     \<lparr>mo_NeedLeaderElection = False,
      mo_PodCache = \<lparr>pcc_Namespace = workloadsNamespace, pcc_NodeName = node_name, pcc_LabelExists = podSelector\<rparr>\<rparr>"

definition newControllerManager :: "'w manager_lib \<Rightarrow> string \<Rightarrow> string \<Rightarrow> ('w, manager_options) act" where
  "newControllerManager lib node_name workloadsNamespace =
     andthen (\<lambda>w. (ml_NewRequirement lib AppGUIDLabelKey, w)) (\<lambda>podSelector.
       let opts = manager_options_for workloadsNamespace node_name podSelector
       in andthen (ml_New lib opts) (\<lambda>_.
            andthen (ml_GetPodInformer lib) (\<lambda>_. return_ok opts)))"

text \<open>The pods the manager's cache holds; the reads of pods go through it.\<close>

definition cache_selects :: "pod_cache_config \<Rightarrow> pod \<Rightarrow> bool" where
  "cache_selects cfg p \<longleftrightarrow>
     pod_Namespace p = pcc_Namespace cfg \<and> pod_NodeName p = pcc_NodeName cfg \<and>
     gm_has (pod_Labels p) (pcc_LabelExists cfg)"

record rest_config =
  rest_Insecure :: bool
  rest_CAData :: string
  rest_CAFile :: string
  rest_Host :: string

text \<open>The configuration the HTTP client is made from, and the client that uses it.\<close>

definition newKubeletClientFromConfig ::
  "(rest_config \<Rightarrow> ('w, unit) act) \<Rightarrow> rest_config \<Rightarrow> string \<Rightarrow> string \<Rightarrow> ('w, kubelet_client) act" where
  "newKubeletClientFromConfig HTTPClientFor config addr port =
     andthen (HTTPClientFor (config\<lparr>rest_Insecure := True, rest_CAData := [], rest_CAFile := []\<rparr>))
       (\<lambda>_. return_ok (kubelet_NewClient addr port))"

subsection \<open>What Initialize asks of its environment\<close>

text \<open>The arguments of the downloader and of the uploader; timeouts are in nanoseconds.\<close>

record downloader_config =
  dl_requestTimeout :: i64
  dl_maxConcurrentDownloads :: i64
  dl_tls :: tls_config

record uploader_config =
  ul_timeout :: i64
  ul_tls :: tls_config

definition ten_minutes :: i64 where
  "ten_minutes = 600000000000"

definition MaxInt8 :: i64 where
  "MaxInt8 = 127"

record ('w, 'img, 'task, 'pm, 'cap, 'key) init_env =
  ie_Split :: "string \<Rightarrow> string list res"
  ie_WORKLOADS_NAMESPACE :: string
  ie_NODE_NAME :: string
  ie_NODE_IP :: string
  ie_manager :: "'w manager_lib"
  ie_WaitForCacheSync :: "'w \<Rightarrow> bool \<times> 'w"
  ie_rest_config :: rest_config
  ie_HTTPClientFor :: "rest_config \<Rightarrow> ('w, unit) act"
  ie_containerd_New :: "string \<Rightarrow> string \<Rightarrow> ('w, unit) act"
  ie_deps :: "('w, 'img, 'task, 'pm) deps"
  ie_waitForGarden :: "('task, 'pm) client \<Rightarrow> ('w, unit) pact"
  ie_NewWorkPool :: "i64 \<Rightarrow> ('w, unit) act"
  ie_state_key :: string
  ie_schedule :: "string list \<Rightarrow> string list"
  ie_x509 :: "'w x509_lib"
  ie_cachedDownloader :: "downloader_config \<Rightarrow> string \<Rightarrow> i64 \<Rightarrow> ('w, unit) act"
  ie_RecoverState :: "('w, unit) act"
  ie_RemoveAll :: "string \<Rightarrow> 'w \<Rightarrow> goerr option \<times> 'w"
  ie_MkdirAll :: "string \<Rightarrow> nat \<Rightarrow> 'w \<Rightarrow> goerr option \<times> 'w"
  ie_ConfigureCapacity :: "('task, 'pm) client \<Rightarrow> string \<Rightarrow> string \<Rightarrow> u64 \<Rightarrow> i64 \<Rightarrow> bool \<Rightarrow> ('w, 'cap) act"
  ie_SplitList :: "string \<Rightarrow> string list"
  ie_creds :: "'key cred_lib"

subsection \<open>The garden client\<close>

definition workloads_namespace_not_set :: goerr where
  "workloads_namespace_not_set = ErrNew ''workloads-namespace-not-set''"

text \<open>The statements up to \<open>waitForGarden\<close>: the result is the parsed hook and the client.\<close>

definition start_manager ::
  "('w, 'img, 'task, 'pm, 'cap, 'key) init_env \<Rightarrow> ((init_event, 'w) traced, unit) pact" where
  "start_manager env =
     continue_with (or_exit (returns (call (EvNewManager (ie_WORKLOADS_NAMESPACE env))
         (newControllerManager (ie_manager env) (ie_NODE_NAME env) (ie_WORKLOADS_NAMESPACE env))))) (\<lambda>_.
       continue_with (returns (call EvManagerStart (return_ok ()))) (\<lambda>_.
         or_exit (returns (call EvWaitForCacheSync
           (\<lambda>w. (case ie_WaitForCacheSync env w of
                   (True, w') \<Rightarrow> (Ok (), w')
                 | (False, w') \<Rightarrow> (Err (ErrNew ''failed-to-wait-for-cache-sync''), w')))))))"

definition make_garden_client ::
  "('w, 'img, 'task, 'pm, 'cap, 'key) init_env \<Rightarrow> executor_config \<Rightarrow> string \<Rightarrow>
   ((init_event, 'w) traced, ('task, 'pm) client) pact" where
  "make_garden_client env config sidecarRootFSPath =
     continue_with (returns (call EvKubeletHTTPClient
         (newKubeletClientFromConfig (ie_HTTPClientFor env) (ie_rest_config env) (ie_NODE_IP env) ''10250''))) (\<lambda>_.
       continue_with (returns (call (EvContainerdNew (ec_GardenAddr config) ''k8s.io'')
           (ie_containerd_New env (ec_GardenAddr config) ''k8s.io''))) (\<lambda>_.
         returns (call (EvNewClient sidecarRootFSPath (ie_WORKLOADS_NAMESPACE env))
           (NewClient (ie_deps env) (ie_NODE_NAME env) (ec_TrustedSystemCertificatesPath config)
              (ec_EnableContainerProxy config) sidecarRootFSPath (ie_WORKLOADS_NAMESPACE env)))))"

definition start_garden ::
  "('w, 'img, 'task, 'pm, 'cap, 'key) init_env \<Rightarrow> executor_config \<Rightarrow> string \<Rightarrow>
   ((init_event, 'w) traced, string list \<times> ('task, 'pm) client) pact" where
  "start_garden env config sidecarRootFSPath =
     continue_with (returns (call (EvShlexSplit (ec_PostSetupHook config)) (\<lambda>w. (ie_Split env (ec_PostSetupHook config), w))))
       (\<lambda>postSetupHook.
          if ie_WORKLOADS_NAMESPACE env = [] then returns (return_err workloads_namespace_not_set)
          else continue_with (start_manager env) (\<lambda>_.
                 continue_with (make_garden_client env config sidecarRootFSPath) (\<lambda>gardenClient.
                   continue_with (call_pact EvWaitForGarden (ie_waitForGarden env gardenClient))
                     (\<lambda>_. returns (return_ok (postSetupHook, gardenClient))))))"

subsection \<open>Work pools and stray containers\<close>

definition make_work_pool ::
  "('w, 'img, 'task, 'pm, 'cap, 'key) init_env \<Rightarrow> i64 \<Rightarrow> ((init_event, 'w) traced, unit) pact" where
  "make_work_pool env size' = returns (call (EvNewWorkPool size') (ie_NewWorkPool env size'))"

definition make_work_pools ::
  "('w, 'img, 'task, 'pm, 'cap, 'key) init_env \<Rightarrow> executor_config \<Rightarrow> ((init_event, 'w) traced, unit) pact" where
  "make_work_pools env config =
     continue_with (make_work_pool env (ec_CreateWorkPoolSize config)) (\<lambda>_.
       continue_with (make_work_pool env (ec_DeleteWorkPoolSize config)) (\<lambda>_.
         continue_with (make_work_pool env (ec_ReadWorkPoolSize config)) (\<lambda>_.
           make_work_pool env (ec_MetricsWorkPoolSize config))))"

text \<open>The removal of the stray containers; the client it leaves is the result.\<close>

definition destroy_strays ::
  "('w, 'img, 'task, 'pm, 'cap, 'key) init_env \<Rightarrow> executor_config \<Rightarrow> ('task, 'pm) client \<Rightarrow>
   ((init_event, 'w) traced, ('task, 'pm) client) pact" where
  "destroy_strays env config gardenClient s =
     (case destroyContainers (ie_deps env) (ie_state_key env) (ec_ContainerOwnerName config) (ie_schedule env)
             (gardenClient, snd s) of
        None \<Rightarrow> None
      | Some (r, received, gardenClient', w') \<Rightarrow>
          Some (case r of Ok _ \<Rightarrow> Ok gardenClient' | Err e \<Rightarrow> Err e | Panic p \<Rightarrow> Panic p,
                fst s @ [EvDestroyContainers (ec_ContainerOwnerName config)], w'))"

subsection \<open>Downloads\<close>

text \<open>
  \<open>make(chan struct{}, uint(n))\<close>: the buffer size as \<open>uint\<close>, which a channel cannot have
  beyond the largest \<open>int\<close>.
\<close>

definition make_chan :: "u64 \<Rightarrow> nat res" where
  "make_chan n = (if unat n < 2 ^ 63 then Ok (unat n) else Panic ''makechan: size out of range'')"

definition downloader_for :: "tls_config \<Rightarrow> downloader_config" where
  "downloader_for assetTLSConfig =
     \<lparr>dl_requestTimeout = ten_minutes, dl_maxConcurrentDownloads = MaxInt8, dl_tls = assetTLSConfig\<rparr>"

text \<open>The uploader and the slots of the download rate limiter.\<close>

definition make_downloads ::
  "('w, 'img, 'task, 'pm, 'cap, 'key) init_env \<Rightarrow> executor_config \<Rightarrow>
   ((init_event, 'w) traced, uploader_config \<times> nat) pact" where
  "make_downloads env config =
     continue_with (make_work_pool env (ec_HealthCheckWorkPoolSize config)) (\<lambda>_.
       continue_with (returns (call EvTLSConfig (TLSConfigFromConfig (ie_x509 env) config))) (\<lambda>assetTLSConfig.
         continue_with (returns (call (EvCachedDownloader (ec_CachePath config) (ec_MaxCacheSizeInBytes config))
             (ie_cachedDownloader env (downloader_for assetTLSConfig) (ec_CachePath config)
               (ec_MaxCacheSizeInBytes config)))) (\<lambda>_.
           continue_with (returns (call EvRecoverState (ie_RecoverState env))) (\<lambda>_.
             continue_with (returns (\<lambda>s. (make_chan (ec_MaxConcurrentDownloads config), s))) (\<lambda>slots.
               returns (return_ok (\<lparr>ul_timeout = ten_minutes, ul_tls = assetTLSConfig\<rparr>, slots)))))))"

subsection \<open>The transformer\<close>

datatype transformer_option =
    WithSidecarRootfs string
  | WithDeclarativeHealthChecks i64
  | WithDeclarativeHealthcheckFailureMetrics
  | WithContainerProxy i64
  | WithProxyLivenessChecks i64
  | WithPostSetupHook string "string list"

record transformer =
  tf_uploader :: uploader_config
  tf_downloadSlots :: nat
  tf_uploadSlots :: nat
  tf_workDir :: string
  tf_healthyMonitoringInterval :: i64
  tf_unhealthyMonitoringInterval :: i64
  tf_gracefulShutdownInterval :: i64
  tf_options :: "transformer_option list"

definition transformer_options ::
  "string \<Rightarrow> i64 \<Rightarrow> bool \<Rightarrow> bool \<Rightarrow> i64 \<Rightarrow> bool \<Rightarrow> i64 \<Rightarrow> string \<Rightarrow> string list \<Rightarrow> transformer_option list" where
  "transformer_options declarativeHealthcheckRootFS declarativeHealthCheckDefaultTimeout emitHealthCheckMetrics
       enableContainerProxy drainWait enableProxyHealthChecks proxyHealthCheckInterval postSetupUser postSetupHook =
     [WithSidecarRootfs declarativeHealthcheckRootFS,
      WithDeclarativeHealthChecks declarativeHealthCheckDefaultTimeout] @
     (if emitHealthCheckMetrics then [WithDeclarativeHealthcheckFailureMetrics] else []) @
     (if enableContainerProxy
      then WithContainerProxy drainWait #
           (if enableProxyHealthChecks then [WithProxyLivenessChecks proxyHealthCheckInterval] else [])
      else []) @
     [WithPostSetupHook postSetupUser postSetupHook]"

definition initializeTransformer ::
  "string \<Rightarrow> nat \<Rightarrow> u64 \<Rightarrow> uploader_config \<Rightarrow> i64 \<Rightarrow> i64 \<Rightarrow> i64 \<Rightarrow> transformer_option list \<Rightarrow> transformer res" where
  "initializeTransformer workDir downloadRateLimiter maxUploads uploader healthyMonitoringInterval
       unhealthyMonitoringInterval gracefulShutdownInterval options =
     (case make_chan maxUploads of
        Ok n \<Rightarrow> Ok \<lparr>tf_uploader = uploader, tf_downloadSlots = downloadRateLimiter, tf_uploadSlots = n,
            tf_workDir = workDir,
            tf_healthyMonitoringInterval = healthyMonitoringInterval,
            tf_unhealthyMonitoringInterval = unhealthyMonitoringInterval,
            tf_gracefulShutdownInterval = gracefulShutdownInterval, tf_options = options\<rparr>
      | Err e \<Rightarrow> Err e
      | Panic p \<Rightarrow> Panic p)"

definition maxConcurrentUploads :: u64 where
  "maxConcurrentUploads = 5"

definition make_transformer ::
  "('w, 'img, 'task, 'pm, 'cap, 'key) init_env \<Rightarrow> executor_config \<Rightarrow> string \<Rightarrow> string list \<Rightarrow> uploader_config \<Rightarrow> nat \<Rightarrow>
   ((init_event, 'w) traced, transformer) pact" where
  "make_transformer env config sidecarRootFSPath postSetupHook uploader downloadRateLimiter =
     continue_with (returns (embed EvWorkDir (setupWorkDir (ie_RemoveAll env) (ie_MkdirAll env) (ec_TempDir config))))
       (\<lambda>workDir. returns (\<lambda>s.
          (initializeTransformer workDir downloadRateLimiter maxConcurrentUploads uploader
             (ec_HealthyMonitoringInterval config) (ec_UnhealthyMonitoringInterval config)
             (ec_GracefulShutdownInterval config)
             (transformer_options sidecarRootFSPath (ec_DeclarativeHealthCheckDefaultTimeout config)
                (ec_EnableHealtcheckMetrics config) (ec_EnableContainerProxy config) (ec_EnvoyDrainTimeout config)
                (ec_EnableContainerProxyHealthChecks config) (ec_ProxyHealthCheckInterval config)
                (ec_PostSetupUser config) postSetupHook), s)))"

subsection \<open>Capacity, container store, proxy and credentials\<close>

definition fetchCapacity ::
  "('w, 'img, 'task, 'pm, 'cap, 'key) init_env \<Rightarrow> executor_config \<Rightarrow> ('task, 'pm) client \<Rightarrow> ('w, 'cap) act" where
  "fetchCapacity env config gardenClient =
     ie_ConfigureCapacity env gardenClient (ec_MemoryMB config) (ec_DiskMB config)
       (ec_MaxCacheSizeInBytes config) (ec_AutoDiskOverheadMB config) (ec_UseSchedulableDiskSize config)"

record container_config =
  ccf_OwnerName :: string
  ccf_INodeLimit :: u64
  ccf_MaxCPUShares :: u64
  ccf_SetCPUWeight :: bool
  ccf_ReservedExpirationTime :: i64
  ccf_ReapInterval :: i64
  ccf_MaxLogLinesPerSecond :: i64
  ccf_MetricReportInterval :: i64

definition container_config_for :: "executor_config \<Rightarrow> container_config" where
  "container_config_for config =
     \<lparr>ccf_OwnerName = ec_ContainerOwnerName config,
      ccf_INodeLimit = ec_ContainerInodeLimit config,
      ccf_MaxCPUShares = ec_ContainerMaxCpuShares config,
      ccf_SetCPUWeight = ec_SetCPUWeight config,
      ccf_ReservedExpirationTime = ec_ReservedExpirationTime config,
      ccf_ReapInterval = ec_ContainerReapInterval config,
      ccf_MaxLogLinesPerSecond = ec_MaxLogLinesPerSecond config,
      ccf_MetricReportInterval = ec_ContainerMetricsReportInterval config\<rparr>"

record proxy_config =
  px_ProxyPath :: string
  px_ConfigPath :: string
  px_TrustedCACerts :: "string list"
  px_VerifySubjectAltName :: "string list"
  px_RequireClientCerts :: bool
  px_ReloadDuration :: i64
  px_ADSServers :: "string list"
  px_EnableHttp2 :: bool

datatype proxy_handler = NoopProxyConfigHandler | ProxyConfigHandler proxy_config

definition proxy_handler_for :: "executor_config \<Rightarrow> proxy_handler" where
  "proxy_handler_for config =
     (if ec_EnableContainerProxy config
      then ProxyConfigHandler
        \<lparr>px_ProxyPath = ec_ContainerProxyPath config, px_ConfigPath = ec_ContainerProxyConfigPath config,
         px_TrustedCACerts = ec_ContainerProxyTrustedCACerts config,
         px_VerifySubjectAltName = ec_ContainerProxyVerifySubjectAltName config,
         px_RequireClientCerts = ec_ContainerProxyRequireClientCerts config,
         px_ReloadDuration = ec_EnvoyConfigReloadDuration config,
         px_ADSServers = ec_ContainerProxyADSServers config,
         px_EnableHttp2 = ec_ProxyEnableHttp2 config\<rparr>
      else NoopProxyConfigHandler)"

subsection \<open>The garden client factory and the root file system sizes\<close>

record ('task, 'pm) garden_client_factory =
  fac_client :: "('task, 'pm) client"

definition NewFactory :: "('task, 'pm) client \<Rightarrow> ('task, 'pm) garden_client_factory" where
  "NewFactory c = \<lparr>fac_client = c\<rparr>"

definition NewGardenClient :: "('task, 'pm) garden_client_factory \<Rightarrow> string \<Rightarrow> ('task, 'pm) client" where
  "NewGardenClient f traceID = fac_client f"

definition RootFSSizeFromPath :: "string \<Rightarrow> u64" where
  "RootFSSizeFromPath path = 0"

subsection \<open>What Initialize builds\<close>

record ('task, 'pm, 'cap, 'key) container_store =
  sto_containerConfig :: container_config
  sto_totalCapacity :: 'cap
  sto_gardenClientFactory :: "('task, 'pm) garden_client_factory"
  sto_downloadSlots :: nat
  sto_volmanDriverPaths :: "string list"
  sto_credManager :: "'key cred_manager"
  sto_instanceIdentity :: "string \<times> string"
  sto_transformer :: transformer
  sto_trustedCertificatesPath :: string
  sto_rootFSSize :: "string \<Rightarrow> u64"
  sto_declarativeHealthcheckPath :: string
  sto_proxyConfigHandler :: proxy_handler
  sto_cellID :: string
  sto_enableUnproxiedPortMappings :: bool
  sto_advertisePreference :: bool
  sto_volumeMountedFiles :: "string \<times> string"

definition make_container_store ::
  "('w, 'img, 'task, 'pm, 'cap, 'key) init_env \<Rightarrow> executor_config \<Rightarrow> string \<Rightarrow> ('task, 'pm) client \<Rightarrow> 'cap \<Rightarrow>
   nat \<Rightarrow> transformer \<Rightarrow> 'key cred_manager \<Rightarrow> ('task, 'pm, 'cap, 'key) container_store" where
  "make_container_store env config cellID gardenClient totalCapacity downloadRateLimiter tf credManager =
     \<lparr>sto_containerConfig = container_config_for config,
      sto_totalCapacity = totalCapacity,
      sto_gardenClientFactory = NewFactory gardenClient,
      sto_downloadSlots = downloadRateLimiter,
      sto_volmanDriverPaths = ie_SplitList env (ec_VolmanDriverPaths config),
      sto_credManager = credManager,
      sto_instanceIdentity = (ec_InstanceIdentityCredDir config, ''/etc/cf-instance-credentials''),
      sto_transformer = tf,
      sto_trustedCertificatesPath = ec_TrustedSystemCertificatesPath config,
      sto_rootFSSize = RootFSSizeFromPath,
      sto_declarativeHealthcheckPath = ec_DeclarativeHealthcheckPath config,
      sto_proxyConfigHandler = proxy_handler_for config,
      sto_cellID = cellID,
      sto_enableUnproxiedPortMappings = ec_EnableUnproxiedPortMappings config,
      sto_advertisePreference = ec_AdvertisePreferenceForInstanceAddress config,
      sto_volumeMountedFiles = (ec_VolumeMountedFiles config, ''/etc/cf-service-bindings'')\<rparr>"

record ('task, 'pm, 'cap, 'key) depot_client =
  dep_totalCapacity :: 'cap
  dep_containerStore :: "('task, 'pm, 'cap, 'key) container_store"
  dep_gardenClient :: "('task, 'pm) client"
  dep_workPools :: "i64 \<times> i64 \<times> i64 \<times> i64"

record stats_reporter =
  sr_enableContainerProxy :: bool
  sr_proxyMemoryAllocation :: f64

definition megabytesToBytes :: i64 where
  "megabytesToBytes = 1024 * 1024"

definition metricsReportInterval :: i64 where
  "metricsReportInterval = 60000000000"

definition make_stats_reporter :: "executor_config \<Rightarrow> stats_reporter" where
  "make_stats_reporter config =
     \<lparr>sr_enableContainerProxy = ec_EnableContainerProxy config,
      sr_proxyMemoryAllocation = f64_of_int (sint (ec_ProxyMemoryAllocationMB config * megabytesToBytes))\<rparr>"

datatype init_runner =
    VolmanDriverSyncer "string list"
  | MetricsReporter i64 string
  | HubCloser
  | ReportersRunner i64
  | RegistryPruner
  | ContainerReaper

definition executor_members ::
  "('w, 'img, 'task, 'pm, 'cap, 'key) init_env \<Rightarrow> executor_config \<Rightarrow> string \<Rightarrow> (string \<times> init_runner) list" where
  "executor_members env config zone =
     [(''volman-driver-syncer'', VolmanDriverSyncer (ie_SplitList env (ec_VolmanDriverPaths config))),
      (''metrics-reporter'', MetricsReporter metricsReportInterval zone),
      (''hub-closer'', HubCloser),
      (''container-metrics-reporter'', ReportersRunner (ec_ContainerMetricsReportInterval config)),
      (''registry-pruner'', RegistryPruner),
      (''container-reaper'', ContainerReaper)]"

record ('task, 'pm, 'cap, 'key) initialized =
  in_depotClient :: "('task, 'pm, 'cap, 'key) depot_client"
  in_statsReporter :: stats_reporter
  in_members :: "(string \<times> init_runner) list"

text \<open>From the event hub to the return: capacity, credentials, store, depot client, members.\<close>

definition finish_initialize ::
  "('w, 'img, 'task, 'pm, 'cap, 'key) init_env \<Rightarrow> executor_config \<Rightarrow> string \<Rightarrow> string \<Rightarrow> ('task, 'pm) client \<Rightarrow>
   nat \<Rightarrow> transformer \<Rightarrow> ((init_event, 'w) traced, ('task, 'pm, 'cap, 'key) initialized) pact" where
  "finish_initialize env config cellID zone gardenClient downloadRateLimiter tf =
     continue_with (returns (call (EvConfigureCapacity (ec_MemoryMB config) (ec_DiskMB config))
         (fetchCapacity env config gardenClient))) (\<lambda>totalCapacity.
       continue_with (returns (call EvCredManager (CredManagerFromConfig (ie_x509 env) (ie_creds env) config)))
         (\<lambda>credManager. returns (return_ok
            \<lparr>in_depotClient =
               \<lparr>dep_totalCapacity = totalCapacity,
                dep_containerStore = make_container_store env config cellID gardenClient totalCapacity
                  downloadRateLimiter tf credManager,
                dep_gardenClient = gardenClient,
                dep_workPools = (ec_CreateWorkPoolSize config, ec_DeleteWorkPoolSize config,
                  ec_ReadWorkPoolSize config, ec_MetricsWorkPoolSize config)\<rparr>,
             in_statsReporter = make_stats_reporter config,
             in_members = executor_members env config zone\<rparr>)))"

definition Initialize ::
  "('w, 'img, 'task, 'pm, 'cap, 'key) init_env \<Rightarrow> executor_config \<Rightarrow> string \<Rightarrow> string \<Rightarrow> string \<Rightarrow>
   ((init_event, 'w) traced, ('task, 'pm, 'cap, 'key) initialized) pact" where
  "Initialize env config cellID zone sidecarRootFSPath =
     continue_with (start_garden env config sidecarRootFSPath) (\<lambda>(postSetupHook, gardenClient).
       continue_with (make_work_pools env config) (\<lambda>_.
         continue_with (destroy_strays env config gardenClient) (\<lambda>gardenClient.
           continue_with (make_downloads env config) (\<lambda>(uploader, downloadRateLimiter).
             continue_with (make_transformer env config sidecarRootFSPath postSetupHook uploader downloadRateLimiter) (\<lambda>tf.
               finish_initialize env config cellID zone gardenClient downloadRateLimiter tf)))))"

end
