(* ===== verification/ClientProps.thy ===== *)
theory ClientProps
  imports Sample Executor
begin

section \<open>Start-up and queries of the garden client\<close>

text \<open>
  What \<open>NewClient\<close> restores from the pods of the node and what a restart does to owners and
  ports, what \<open>Containers\<close> returns, and the well-formedness of the client from its start on.
\<close>

subsection \<open>Labels\<close>

lemma map_of_copy_label:
  "map_of (copy_label ps k l m) = (case map_of ps k of Some v \<Rightarrow> (map_of m)(l \<mapsto> v) | None \<Rightarrow> map_of m)"
  by (simp add: copy_label_def split: option.split)

lemma label_keys_distinct:
  "distinct [AppGUIDLabelKey, OrgGUIDLabelKey, SpaceGUIDLabel, WorkloadTypeKey, OwnerNameLabelKey]"
  by (simp add: AppGUIDLabelKey_def OrgGUIDLabelKey_def SpaceGUIDLabel_def WorkloadTypeKey_def
      OwnerNameLabelKey_def)

lemma map_of_podLabels:
  "map_of (podLabels owner_key ps) OwnerNameLabelKey = map_of ps owner_key"
  "map_of (podLabels owner_key ps) WorkloadTypeKey = map_of ps ''network.container_workload''"
  "map_of (podLabels owner_key ps) SpaceGUIDLabel = map_of ps ''network.space_id''"
  "map_of (podLabels owner_key ps) OrgGUIDLabelKey = map_of ps ''network.org_id''"
  "map_of (podLabels owner_key ps) AppGUIDLabelKey = map_of ps ''network.app_id''"
  using label_keys_distinct
  by (auto simp: podLabels_def map_of_copy_label split: option.split)

subsection \<open>Restoring the containers\<close>

lemma map_add_cons:
  assumes "distinct (map pod_Name (p # ps))"
  shows "m(pod_Name p \<mapsto> f p) ++ map_of (map (\<lambda>p. (pod_Name p, f p)) ps) =
    m ++ map_of (map (\<lambda>p. (pod_Name p, f p)) (p # ps))"
proof -
  have "pod_Name p \<notin> dom (map_of (map (\<lambda>p. (pod_Name p, f p)) ps))"
    using assms by (simp add: dom_map_of_conv_image_fst image_image)
  from map_add_upd_left [OF this] show ?thesis by simp
qed

lemma restore_loop_Ok:
  assumes "property_laws o'"
  shows "distinct (map pod_Name ps) \<Longrightarrow> pod_Name ` set ps \<inter> dom (cm_view cm) = {} \<Longrightarrow>
     \<exists>cm' pm'. restore_loop o' k ps cm pm = Ok (cm', pm') \<and>
       cm_view cm' = cm_view cm ++ map_of (map (\<lambda>p. (pod_Name p, restored_container p)) ps) \<and>
       (cm_wf cm \<longrightarrow> cm_wf cm') \<and>
       (\<forall>h k'. pr_Get o' pm' h k' =
          (if k' = k then (case map_of (map (\<lambda>p. (pod_Name p, label_or_empty p)) ps) h of
                             Some v \<Rightarrow> Some v | None \<Rightarrow> pr_Get o' pm h k')
           else pr_Get o' pm h k'))"
proof (induction ps arbitrary: cm pm)
  case Nil
  then show ?case by simp
next
  case (Cons p ps)
  let ?pm = "pr_Set o' pm (pod_Name p) k (label_or_empty p)"
  have "cm_view cm (pod_Name p) = None" using Cons.prems(2) by auto
  from cm.add_fresh [OF this] obtain cm1 where
    add: "cm_Add (pod_Name p) (restored_container p) cm = (None, cm1)"
      "cm_view cm1 = (cm_view cm)(pod_Name p \<mapsto> restored_container p)"
    by (metis prod.collapse)
  have wf: "cm_wf cm \<longrightarrow> cm_wf cm1"
    using cm.wf_add [of cm "pod_Name p" "restored_container p"] add(1) by simp
  have "distinct (map pod_Name ps)" "pod_Name ` set ps \<inter> dom (cm_view cm1) = {}"
    using Cons.prems add(2) by auto
  from Cons.IH [OF this, of ?pm] obtain cm' pm' where
    IH: "restore_loop o' k ps cm1 ?pm = Ok (cm', pm')"
      "cm_view cm' = cm_view cm1 ++ map_of (map (\<lambda>p. (pod_Name p, restored_container p)) ps)"
      "cm_wf cm1 \<longrightarrow> cm_wf cm'"
      "\<forall>h k'. pr_Get o' pm' h k' =
          (if k' = k then (case map_of (map (\<lambda>p. (pod_Name p, label_or_empty p)) ps) h of
                             Some v \<Rightarrow> Some v | None \<Rightarrow> pr_Get o' ?pm h k')
           else pr_Get o' ?pm h k')"
    by blast
  have "cm_view cm' = cm_view cm ++ map_of (map (\<lambda>p. (pod_Name p, restored_container p)) (p # ps))"
    using map_add_cons [OF Cons.prems(1)] IH(2) add(2) by metis
  moreover have "restore_loop o' k (p # ps) cm pm = Ok (cm', pm')"
    using IH(1) add(1) by simp
  moreover have none: "map_of (map (\<lambda>p. (pod_Name p, label_or_empty p)) ps) (pod_Name p) = None"
    using Cons.prems(1) by (simp add: map_of_eq_None_iff image_image)
  have "\<forall>h k'. pr_Get o' pm' h k' =
          (if k' = k then (case map_of (map (\<lambda>p. (pod_Name p, label_or_empty p)) (p # ps)) h of
                             Some v \<Rightarrow> Some v | None \<Rightarrow> pr_Get o' pm h k')
           else pr_Get o' pm h k')"
    using IH(4) none by (auto simp: property_lawsD(2) [OF assms] split: option.split)
  ultimately show ?case using IH(3) wf by blast
qed

lemma NewClient_Ok:
  fixes d :: "('w, 'img, 'task, 'pm) deps"
  assumes "property_laws (d_props d)" "k8s_GetNode (d_k8s d) node_name w = (Ok n, w1)"
    "k8s_ListPods (d_k8s d) ns w1 = (Ok pods, w2)" "distinct (map pod_Name pods)"
  obtains c where "NewClient d node_name certs proxy rootfs ns w = (Ok c, w2)"
    "cl_view c = map_of (map (\<lambda>p. (pod_Name p, restored_container p)) pods)"
    "cm_wf (cl_containers c)" "cl_ports c = newPortManager"
    "\<And>h k. pr_Get (d_props d) (cl_props c) h k =
       (if k = d_OwnerKey d then map_of (map (\<lambda>p. (pod_Name p, label_or_empty p)) pods) h else None)"
proof -
  let ?new = "newContainerMap :: 'task container container_map"
  have "pod_Name ` set pods \<inter> dom (cm_view ?new) = {}"
    by (simp add: cm.view_empty)
  from restore_loop_Ok [OF assms(1,4) this, of "d_OwnerKey d" "pr_New (d_props d)"] obtain cm pm where
    r: "restore_loop (d_props d) (d_OwnerKey d) pods ?new (pr_New (d_props d)) = Ok (cm, pm)"
      "cm_view cm = cm_view ?new ++ map_of (map (\<lambda>p. (pod_Name p, restored_container p)) pods)"
      "cm_wf ?new \<longrightarrow> cm_wf cm"
      "\<forall>h k. pr_Get (d_props d) pm h k =
        (if k = d_OwnerKey d then (case map_of (map (\<lambda>p. (pod_Name p, label_or_empty p)) pods) h of
             Some v \<Rightarrow> Some v | None \<Rightarrow> pr_Get (d_props d) (pr_New (d_props d)) h k)
         else pr_Get (d_props d) (pr_New (d_props d)) h k)"
    by blast
  have view: "cm_view cm = map_of (map (\<lambda>p. (pod_Name p, restored_container p)) pods)" "cm_wf cm"
    using r(2,3) by (simp_all add: cm.view_empty cm.wf_empty)
  have own: "pr_Get (d_props d) pm h k =
      (if k = d_OwnerKey d then map_of (map (\<lambda>p. (pod_Name p, label_or_empty p)) pods) h else None)" for h k
    using r(4) by (simp add: property_lawsD(1) [OF assms(1)] split: option.split)
  have "wrapping ''failed to list existing pods: %w'' [] (k8s_ListPods (d_k8s d) ns) w1 = (Ok pods, w2)"
    using assms(3) by simp
  then have "containerRestoreInfo d ns w1 = (Ok (cm, pm), w2)"
    by (simp add: containerRestoreInfo_def r(1))
  moreover have "wrapping ''failed to get node %s: %w'' [node_name] (k8s_GetNode (d_k8s d) node_name) w = (Ok n, w1)"
    using assms(2) by simp
  ultimately have "\<exists>c. NewClient d node_name certs proxy rootfs ns w = (Ok c, w2) \<and>
      cl_containers c = cm \<and> cl_ports c = newPortManager \<and> cl_props c = pm"
    by (simp add: NewClient_def return_ok_def)
  then obtain c where "NewClient d node_name certs proxy rootfs ns w = (Ok c, w2)"
    "cl_containers c = cm" "cl_ports c = newPortManager" "cl_props c = pm" by blast
  note c = this
  show thesis
    by (rule that [OF c(1)]) (use c(2-4) view own in simp_all)
qed

subsection \<open>What a restarted client knows\<close>

definition restored_world :: world where
  "restored_world = \<lparr>wd_now = 0, wd_pods = [(''cf-workloads'', ''old'')]\<rparr>"

text \<open>C12: Starting the client on a node restores the registry from the pods the API server lists:
  one container per pod, under the pod's name, owned by what the pod's owner label says and
  with no other property; no port is recorded as allocated.\<close>

theorem restart_restores:
  fixes d :: "('w, 'img, 'task, 'pm) deps"
  assumes "property_laws (d_props d)" and "k8s_GetNode (d_k8s d) node_name w = (Ok n, w1)"
    and "k8s_ListPods (d_k8s d) ns w1 = (Ok pods, w2)" and "distinct (map pod_Name pods)"
  shows "\<exists>c :: ('task, 'pm) client. NewClient d node_name certs proxy rootfs ns w = (Ok c, w2) \<and>
     cl_view c = map_of (map (\<lambda>p. (pod_Name p, restored_container p)) pods) \<and>
     length (cm_List (cl_containers c)) = length pods \<and> cl_held c = {} \<and>
     pr_Get (d_props d) (cl_props c) h k =
       (if k = d_OwnerKey d then map_of (map (\<lambda>p. (pod_Name p, label_or_empty p)) pods) h else None)"
proof (rule NewClient_Ok [OF assms, of certs proxy rootfs])
  fix c assume c: "NewClient d node_name certs proxy rootfs ns w = (Ok c, w2)"
    "cl_view c = map_of (map (\<lambda>p. (pod_Name p, restored_container p)) pods)"
    "cm_wf (cl_containers c)" "cl_ports c = newPortManager"
    "\<And>h k. pr_Get (d_props d) (cl_props c) h k =
       (if k = d_OwnerKey d then map_of (map (\<lambda>p. (pod_Name p, label_or_empty p)) pods) h else None)"
  have "length (cm_List (cl_containers c)) = card (dom (cl_view c))" by (rule cm.length_list [OF c(3)])
  also have "\<dots> = card (set (map pod_Name pods))"
    by (simp add: c(2) dom_map_of_conv_image_fst image_image)
  also have "\<dots> = length pods" using distinct_card [OF assms(4)] by simp
  finally show ?thesis using c by (auto simp: newPortManager_def)
qed

lemma sample_list:
  "k8s_GetNode (d_k8s sample_deps) ''node'' restored_world =
     (Ok (cfg_node sample_client_config\<lparr>node_Name := ''node''\<rparr>), restored_world)"
  "k8s_ListPods (d_k8s sample_deps) ''cf-workloads'' restored_world =
     (Ok [listed_pod (''cf-workloads'', ''old'')], restored_world)"
  by (simp_all add: sample_deps_def sample_k8s_def restored_world_def sample_client_config_def return_ok_def)

theorem restart_restores_witness:
  "\<exists>c. NewClient sample_deps ''node'' ''/certs'' True ''sidecar.tar'' ''cf-workloads'' restored_world =
       (Ok c, restored_world) \<and>
     cl_view c ''old'' = Some (restored_container (listed_pod (''cf-workloads'', ''old''))) \<and>
     pr_Get (d_props sample_deps) (cl_props c) ''old'' (d_OwnerKey sample_deps) = Some ''executor''"
proof -
  have "distinct (map pod_Name [listed_pod (''cf-workloads'', ''old'')])" by simp
  from restart_restores [OF sample_property_laws sample_list this, of "''/certs''" True "''sidecar.tar''"
      "''old''" "d_OwnerKey sample_deps"]
  show ?thesis by (auto simp: listed_pod_def label_or_empty_def)
qed

text \<open>A container restored at the start cannot be used: running a process in it and streaming
  in or out panic, whatever the arguments, because it has no logger, no task and no user
  lookup.\<close>

theorem restored_container_unusable:
  "container_Run ops (restored_container p) spec w = (Panic nil_dereference, w) \<and>
   container_StreamIn ops (restored_container p) path user tar w = (Panic nil_dereference, w) \<and>
   container_StreamOut ops (restored_container p) path user w = (Panic nil_dereference, w)"
  by (simp add: restored_container_def NewContainer_def container_Run_def container_StreamIn_def
      container_StreamOut_def)

lemma NewClient_free:
  fixes d :: "('w, 'img, 'task, 'pm) deps"
  assumes "NewClient d node_name certs proxy rootfs ns w = (Ok c, w')"
  shows "cl_ports c = newPortManager"
  using assms by (auto simp: NewClient_def andthen_Ok_iff return_ok_def)

lemma alloc_first:
  assumes "alloc_ports pm_Next nis newPortManager = (Ok ports, nis', pm)" "nis = ni # rest" "ni_HostPort ni = 0"
  shows "\<exists>nis''. nis' = ni\<lparr>ni_HostPort := startPort\<rparr> # nis''"
proof -
  have "pm_Next newPortManager = (Ok startPort, \<lparr>allocated = {startPort}\<rparr>)"
    by (simp add: newPortManager_def pm_Next_def first_free_unfold startPort_def MaxUint16_def)
  with assms show ?thesis by (auto split: prod.splits res.splits)
qed

lemma sample_restart:
  obtains c where
    "NewClient sample_deps ''node'' ''/certs'' True ''sidecar.tar'' ''cf-workloads'' restored_world =
       (Ok c, restored_world)"
    "cl_view c = map_of (map (\<lambda>p. (pod_Name p, restored_container p)) [listed_pod (''cf-workloads'', ''old'')])"
    "cl_ports c = newPortManager"
proof -
  have "distinct (map pod_Name [listed_pod (''cf-workloads'', ''old'')])" by simp
  from NewClient_Ok [OF sample_property_laws sample_list this, of "''/certs''" True "''sidecar.tar''" thesis] that
  show thesis by blast
qed

text \<open>C14: The ports of the pods that survive a restart of the client are not reserved: the first
  container created afterwards gets the first port of the window even when a restored pod
  claims it.\<close>

theorem restart_shares_port:
  assumes "k8s_keeps (d_k8s d)" and "NewClient d node_name certs proxy rootfs ns w = (Ok c, w1)"
    and "client_Create d c spec w2 = Some (Ok ct, nis, c', w3)"
    and "spec_NetIn spec = ni # rest" and "ni_HostPort ni = 0"
    and "cl_view c h = Some old" and "startPort \<in> set (pod_host_ports (ct_pod old))"
  shows "\<exists>old' ct'. cl_view c' h = Some old' \<and> cl_view c' (spec_Handle spec) = Some ct' \<and>
     h \<noteq> spec_Handle spec \<and>
     startPort \<in> set (pod_host_ports (ct_pod old')) \<inter> set (pod_host_ports (ct_pod ct'))"
proof -
  from create_Ok [OF assms(1,3)] have reg: "create_registered spec nis ct c c'" ..
  then obtain ports where "alloc_ports pm_Next (spec_NetIn spec) newPortManager = (Ok ports, nis, cl_ports c')"
    using NewClient_free [OF assms(2)] by (auto simp: create_registered_def)
  from alloc_first [OF this assms(4,5)] have "startPort \<in> set (pod_host_ports (ct_pod ct))"
    by (auto simp: registered_host_ports [OF reg])
  moreover have "cl_view c (spec_Handle spec) = None" "cl_view c' = (cl_view c)(spec_Handle spec \<mapsto> ct)"
    using reg by (simp_all add: create_registered_def)
  moreover then have "h \<noteq> spec_Handle spec" using assms(6) by auto
  ultimately show ?thesis using assms(6,7) by simp
qed

theorem restart_shares_port_witness:
  "\<exists>c c' w' ct old.
     NewClient sample_deps ''node'' ''/certs'' True ''sidecar.tar'' ''cf-workloads'' restored_world =
       (Ok c, restored_world) \<and>
     client_Create sample_deps c (sample_spec ''h1'' [auto_rule]) restored_world =
       Some (Ok ct, [auto_rule\<lparr>ni_HostPort := startPort\<rparr>], c', w') \<and>
     cl_view c' ''old'' = Some old \<and> startPort \<in> set (pod_host_ports (ct_pod old))"
proof (rule sample_restart)
  fix c assume c: "NewClient sample_deps ''node'' ''/certs'' True ''sidecar.tar'' ''cf-workloads'' restored_world =
       (Ok c, restored_world)"
    "cl_view c = map_of (map (\<lambda>p. (pod_Name p, restored_container p)) [listed_pod (''cf-workloads'', ''old'')])"
    "cl_ports c = newPortManager"
  have ns: "cfg_workloadsNamespace (cl_config c) = ''cf-workloads''"
    using c(1) by (auto simp: NewClient_def andthen_Ok_iff return_ok_def)
  have old: "cl_view c ''old'' = Some (restored_container (listed_pod (''cf-workloads'', ''old'')))"
    "startPort \<in> set (pod_host_ports (ct_pod (restored_container (listed_pod (''cf-workloads'', ''old'')))))"
    by (simp_all add: c(2) listed_pod_def restored_container_def NewContainer_def pod_host_ports_def pod_ports_def
        container_port_of_def)
  have next_port: "pm_Next (cl_ports c) = (Ok startPort, \<lparr>allocated = {startPort}\<rparr>)"
    by (simp add: c(3) newPortManager_def pm_Next_def first_free_unfold startPort_def MaxUint16_def)
  have free: "cl_view c ''h1'' = None" by (simp add: c(2) listed_pod_def)
  have new_key: "(cfg_workloadsNamespace (cl_config c), ''h1'') \<notin> set (wd_pods restored_world)"
    by (simp add: ns restored_world_def)
  obtain ct c' w' where cr: "client_Create sample_deps c (sample_spec ''h1'' [auto_rule]) restored_world =
       Some (Ok ct, [auto_rule\<lparr>ni_HostPort := startPort\<rparr>], c', w')"
    using sample_create [OF free next_port new_key] by blast
  have "spec_NetIn (sample_spec ''h1'' [auto_rule]) = auto_rule # []" "ni_HostPort auto_rule = 0"
    by (simp_all add: sample_spec_def auto_rule_def)
  from restart_shares_port [OF sample_keeps c(1) cr this old] c(1) cr show ?thesis by blast
qed

subsection \<open>The owner of a container over a restart\<close>

lemma prepare_labels:
  assumes "prepare d c spec w = (Ok (p, ct), nis, c1, w1)"
  shows "pod_Name p = spec_Handle spec \<and> pod_Labels p = podLabels (d_OwnerKey d) (spec_Properties spec)"
proof (rule prepare_Ok [OF assms])
  fix ports img sz w0
  assume "build_pod (cl_config c) (d_OwnerKey d) (d_IntOutOfRange d) (d_IntN d) spec
       (cpu_assignment (cl_config c) spec) ports img sz w0 = (p, w1)"
  then show ?thesis by (metis fst_conv pod_Name_build pod_Labels_build)
qed

text \<open>C13: The owner property of a container survives a restart of the client: if the pod built for
  a spec is listed with its name and labels when the client starts again, the new client gives
  the container the owner the spec gave it, so that owner's stray containers include it.\<close>

theorem owner_survives_restart:
  fixes d :: "('w, 'img, 'task, 'pm) deps"
  assumes "prepare d c spec w = (Ok (p, ct), nis, c1, w1)"
    and "map_of (spec_Properties spec) (d_OwnerKey d) = Some owner"
    and "property_laws (d_props d)" and "k8s_GetNode (d_k8s d) node_name w2 = (Ok n, w3)"
    and "k8s_ListPods (d_k8s d) ns w3 = (Ok pods, w4)" and "distinct (map pod_Name pods)"
    and "q \<in> set pods" and "pod_Name q = pod_Name p" and "pod_Labels q = pod_Labels p"
    and "d_OwnerKey d \<noteq> ''garden.state''"
  shows "\<exists>c' :: ('task, 'pm) client. NewClient d node_name certs proxy rootfs ns w2 = (Ok c', w4) \<and>
     restored_container q \<in> set (executorContainers d c' ''garden.state'' owner)"
proof (rule NewClient_Ok [OF assms(3-6), of certs proxy rootfs])
  fix c' :: "('task, 'pm) client"
  assume c: "NewClient d node_name certs proxy rootfs ns w2 = (Ok c', w4)"
    "cl_view c' = map_of (map (\<lambda>p. (pod_Name p, restored_container p)) pods)"
    "cm_wf (cl_containers c')"
    "\<And>h k. pr_Get (d_props d) (cl_props c') h k =
       (if k = d_OwnerKey d then map_of (map (\<lambda>p. (pod_Name p, label_or_empty p)) pods) h else None)"
  have listed: "map_of (map (\<lambda>p. (pod_Name p, f p)) pods) (pod_Name q) = Some (f q)" for f :: "pod \<Rightarrow> 'x"
    using assms(6,7) by (auto simp: comp_def intro: map_of_is_SomeI)
  have "label_or_empty q = owner"
    using assms(2,8,9) prepare_labels [OF assms(1)] by (simp add: label_or_empty_def map_of_podLabels)
  then have "pr_Get (d_props d) (cl_props c') (pod_Name q) (d_OwnerKey d) = Some owner"
    "cl_view c' (pod_Name q) = Some (restored_container q)"
    unfolding c(2,4) by (simp_all add: listed)
  then have "restored_container q \<in> set (executorContainers d c' ''garden.state'' owner)"
    unfolding executorContainers_set [OF assms(3) c(3) refl assms(10)]
    by (auto simp: restored_container_def NewContainer_def container_Handle_def)
  with c(1) show ?thesis by blast
qed

lemma prepare_no_k8s: "prepare (d\<lparr>d_k8s := k\<rparr>) c spec w = prepare d c spec w"
proof -
  have "d_ctrd (d\<lparr>d_k8s := k\<rparr>) = d_ctrd d" "d_ImageName (d\<lparr>d_k8s := k\<rparr>) = d_ImageName d"
    "d_ImageEnv (d\<lparr>d_k8s := k\<rparr>) = d_ImageEnv d" "d_props (d\<lparr>d_k8s := k\<rparr>) = d_props d"
    "d_IntN (d\<lparr>d_k8s := k\<rparr>) = d_IntN d" "d_OwnerKey (d\<lparr>d_k8s := k\<rparr>) = d_OwnerKey d"
    "d_IntOutOfRange (d\<lparr>d_k8s := k\<rparr>) = d_IntOutOfRange d"
    by simp_all
  note other = this
  show ?thesis
    unfolding prepare_def resolve_image_def resolve_docker_def register_def other by (rule refl)
qed

theorem owner_survives_restart_witness:
  "\<exists>p ct nis c1 c'. prepare (sample_deps\<lparr>d_k8s := sample_k8s\<lparr>k8s_ListPods := \<lambda>ns. return_ok [p]\<rparr>\<rparr>) sample_client
       (sample_spec ''h1'' [auto_rule]) sample_world = (Ok (p, ct), nis, c1, sample_world) \<and>
     restored_container p \<in> set (executorContainers
       (sample_deps\<lparr>d_k8s := sample_k8s\<lparr>k8s_ListPods := \<lambda>ns. return_ok [p]\<rparr>\<rparr>) c' ''garden.state'' ''executor'')"
proof -
  let ?k = "\<lambda>p. sample_k8s\<lparr>k8s_ListPods := \<lambda>ns. return_ok [p]\<rparr>"
  have free: "cl_view sample_client ''h1'' = None" by (simp add: sample_client_def cm.view_empty)
  have "pm_Next (cl_ports sample_client) = (Ok 62000, \<lparr>allocated = {62000}\<rparr>)"
    by (simp add: sample_client_def newPortManager_def pm_Next_def first_free_unfold startPort_def MaxUint16_def)
  note prep = sample_prepare [OF free this, of _ sample_world]
  from prep [of sample_k8s] obtain p ct c1 where "prepare (sample_deps\<lparr>d_k8s := sample_k8s\<rparr>) sample_client
       (sample_spec ''h1'' [auto_rule]) sample_world = (Ok (p, ct), [auto_rule\<lparr>ni_HostPort := 62000\<rparr>], c1, sample_world)"
    by blast
  then have p: "prepare (sample_deps\<lparr>d_k8s := ?k p\<rparr>) sample_client
       (sample_spec ''h1'' [auto_rule]) sample_world = (Ok (p, ct), [auto_rule\<lparr>ni_HostPort := 62000\<rparr>], c1, sample_world)"
    unfolding prepare_no_k8s .
  have nd: "k8s_GetNode (d_k8s (sample_deps\<lparr>d_k8s := ?k p\<rparr>)) ''node'' sample_world =
     (Ok (cfg_node sample_client_config\<lparr>node_Name := ''node''\<rparr>), sample_world)"
    "k8s_ListPods (d_k8s (sample_deps\<lparr>d_k8s := ?k p\<rparr>)) ns sample_world = (Ok [p], sample_world)" for ns
    by (simp_all add: sample_k8s_def sample_client_config_def return_ok_def)
  have laws: "property_laws (d_props (sample_deps\<lparr>d_k8s := ?k p\<rparr>))" using sample_property_laws by simp
  have own: "map_of (spec_Properties (sample_spec ''h1'' [auto_rule])) (d_OwnerKey (sample_deps\<lparr>d_k8s := ?k p\<rparr>)) =
      Some ''executor''" "d_OwnerKey (sample_deps\<lparr>d_k8s := ?k p\<rparr>) \<noteq> ''garden.state''"
    by (simp_all add: sample_spec_def sample_deps_def)
  have "distinct (map pod_Name [p])" "p \<in> set [p]" by simp_all
  from owner_survives_restart [OF p own(1) laws nd this refl refl own(2)] p show ?thesis by blast
qed

subsection \<open>Which containers are listed\<close>

lemma Containers_set:
  assumes "property_laws (d_props d)" "cm_wf (cl_containers c)"
  shows "set (fst (Containers d c ps)) = {ct. (\<exists>h. cl_view c h = Some ct) \<and>
     (\<forall>(k, v) \<in> set (effective_filter ps). pr_Get (d_props d) (cl_props c) (container_Handle ct) k = Some v)}"
  using assms(2)
  by (auto simp: Containers_def Let_def cm.set_list property_lawsD(3) [OF assms(1)] ran_def)

lemma finish_start_Ok_state:
  "finish_start d h ct p c w = (Ok x, c', w') \<Longrightarrow>
   \<exists>pm. cl_props c' = pr_Set (d_props d) pm (container_Handle x) ''garden.state'' ''created''"
  by (auto simp: finish_start_def container_SetProperty_def Let_def split: prod.splits res.splits)

lemma create_Ok_state:
  assumes "client_Create d c spec w = Some (Ok ct, nis, c', w')"
  shows "\<exists>pm. cl_props c' = pr_Set (d_props d) pm (container_Handle ct) ''garden.state'' ''created''"
  using assms
  by (auto simp: client_Create_def launch_def intro: finish_start_Ok_state
      split: prod.splits res.splits option.splits)

text \<open>C18: A container whose creation succeeded is found by its handle and is listed by a call of
  \<open>Containers\<close> without a filter, which lists exactly the registered containers whose creation
  completed.\<close>

theorem created_is_listed:
  assumes "k8s_keeps (d_k8s d)" and "property_laws (d_props d)" and "cm_wf (cl_containers c)"
    and "client_Create d c spec w = Some (Ok ct, nis, c', w')"
  shows "Lookup c' (spec_Handle spec) = Ok ct \<and> ct \<in> set (fst (Containers d c' None)) \<and>
     set (fst (Containers d c' None)) = {x. (\<exists>h. cl_view c' h = Some x) \<and>
       pr_Get (d_props d) (cl_props c') (container_Handle x) ''garden.state'' = Some ''created''}"
proof -
  from create_Ok [OF assms(1,4)] assms(3) have
    view: "cl_view c' (spec_Handle spec) = Some ct" and wf: "cm_wf (cl_containers c')"
    by (simp_all add: create_registered_def)
  from create_Ok_state [OF assms(4)] have
    st: "pr_Get (d_props d) (cl_props c') (container_Handle ct) ''garden.state'' = Some ''created''"
    by (auto simp: property_lawsD(2) [OF assms(2)])
  have all: "set (fst (Containers d c' None)) = {x. (\<exists>h. cl_view c' h = Some x) \<and>
       pr_Get (d_props d) (cl_props c') (container_Handle x) ''garden.state'' = Some ''created''}"
    by (simp add: Containers_set [OF assms(2) wf] effective_filter_def gm_put_def)
  have "Lookup c' (spec_Handle spec) = Ok ct" by (simp add: Lookup_def cm.get_eq view)
  with view st all show ?thesis by blast
qed

theorem created_is_listed_witness:
  "\<exists>ct c'. Lookup c' ''h1'' = Ok ct \<and> ct \<in> set (fst (Containers sample_deps c' None)) \<and>
     pod_host_ports (ct_pod ct) = [62000]"
proof (rule sample_first)
  fix ct c
  assume 1: "client_Create sample_deps sample_client (sample_spec ''h1'' [auto_rule]) sample_world =
     Some (Ok ct, [auto_rule\<lparr>ni_HostPort := 62000\<rparr>], c, \<lparr>wd_now = 0, wd_pods = [(''cf-workloads'', ''h1'')]\<rparr>)"
  have "cm_wf (cl_containers sample_client)" by (simp add: sample_client_def cm.wf_empty)
  note listed = created_is_listed [OF sample_keeps sample_property_laws this 1]
  have "spec_Handle (sample_spec ''h1'' [auto_rule]) = ''h1''" by (simp add: sample_spec_def)
  with listed have "Lookup c ''h1'' = Ok ct" "ct \<in> set (fst (Containers sample_deps c None))"
    by metis+
  moreover have "pod_host_ports (ct_pod ct) = [62000]"
    using registered_host_ports [OF create_Ok [OF sample_keeps 1, THEN conjunct1]] by simp
  ultimately show ?thesis by blast
qed

text \<open>C20: \<open>Containers\<close> writes into the filter it is given: a filter that asks for every state
  loses that entry, so a second call with the same map lists only the containers of the first
  result whose creation completed.\<close>

theorem filter_is_consumed:
  assumes "property_laws (d_props d)" and "cm_wf (cl_containers c)" and "gm_wf ps"
    and "map_of ps ''garden.state'' = Some ''all''"
    and "Containers d c (Some ps) = (first, ps')" and "Containers d c ps' = (second, ps'')"
  shows "set first = {x. (\<exists>h. cl_view c h = Some x) \<and> (\<forall>k v. k \<noteq> ''garden.state'' \<longrightarrow>
       map_of ps k = Some v \<longrightarrow> pr_Get (d_props d) (cl_props c) (container_Handle x) k = Some v)} \<and>
     set second = {x \<in> set first.
       pr_Get (d_props d) (cl_props c) (container_Handle x) ''garden.state'' = Some ''created''}"
proof -
  let ?st = "''garden.state''"
  have eff1: "effective_filter (Some ps) = gm_delete ?st ps"
    using assms(4) by (simp add: effective_filter_def)
  then have ps': "ps' = Some (gm_delete ?st ps)"
    using assms(5) by (auto simp: Containers_def Let_def)
  have eff2: "effective_filter ps' = gm_put ?st ''created'' (gm_delete ?st ps)"
    by (simp add: ps' effective_filter_def)
  have entry: "(\<forall>(k, v) \<in> set m. P k v) \<longleftrightarrow> (\<forall>k v. map_of m k = Some v \<longrightarrow> P k v)"
    if "gm_wf m" for m :: garden_properties and P
  proof -
    have "(\<forall>(k, v) \<in> set m. P k v) \<longleftrightarrow> (\<forall>k v. (k, v) \<in> set m \<longrightarrow> P k v)" by auto
    then show ?thesis by (simp only: gm_entry_iff [OF that])
  qed
  have "set first = set (fst (Containers d c (Some ps)))" "set second = set (fst (Containers d c ps'))"
    using assms(5,6) by simp_all
  note s = this [unfolded Containers_set [OF assms(1,2)] eff1 eff2
      entry [OF gm_wf_delete [OF assms(3)]] entry [OF gm_wf_put [OF gm_wf_delete [OF assms(3)]]]]
  show ?thesis unfolding s by auto
qed

theorem filter_is_consumed_witness:
  "\<exists>c ps'. cl_view c ''old'' \<noteq> None \<and> Containers sample_deps c (Some [(''garden.state'', ''all'')]) \<noteq> ([], ps') \<and>
     Containers sample_deps c (Some []) = ([], Some [(''garden.state'', ''created'')]) \<and>
     snd (Containers sample_deps c (Some [(''garden.state'', ''all'')])) = Some []"
proof (rule sample_restart)
  fix c :: "(string, sample_properties) client"
  let ?old = "restored_container (listed_pod (''cf-workloads'', ''old''))" and ?all = "[(''garden.state'', ''all'')]"
  assume c: "NewClient sample_deps ''node'' ''/certs'' True ''sidecar.tar'' ''cf-workloads'' restored_world =
       (Ok c, restored_world)"
    "cl_view c = map_of (map (\<lambda>p. (pod_Name p, restored_container p)) [listed_pod (''cf-workloads'', ''old'')])"
  have "distinct (map pod_Name [listed_pod (''cf-workloads'', ''old'')])" by simp
  from NewClient_Ok [OF sample_property_laws sample_list this, of "''/certs''" True "''sidecar.tar''"] c(1)
  have wf: "cm_wf (cl_containers c)" and
    none: "pr_Get (d_props sample_deps) (cl_props c) h ''garden.state'' = None" for h
    by (force simp: sample_deps_def)+
  obtain l1 p1 where 1: "Containers sample_deps c (Some ?all) = (l1, p1)" by (metis prod.exhaust)
  obtain l2 p2 where 2: "Containers sample_deps c p1 = (l2, p2)" by (metis prod.exhaust)
  have p1: "p1 = Some []"
    using 1 by (auto simp: Containers_def Let_def effective_filter_def gm_delete_def)
  then have p2: "p2 = Some [(''garden.state'', ''created'')]"
    using 2 by (auto simp: Containers_def Let_def effective_filter_def gm_put_def)
  have "gm_wf ?all" "map_of ?all ''garden.state'' = Some ''all''" by (simp_all add: gm_wf_def)
  note r = filter_is_consumed [OF sample_property_laws wf this 1 2]
  have "?old \<in> set l1" unfolding r [THEN conjunct1] by (auto simp: c(2) listed_pod_def)
  moreover have "set l2 = {}" unfolding r [THEN conjunct2] by (simp add: none)
  ultimately show ?thesis
    using 1 2 p1 p2 c(2) by (intro exI [of _ c] exI [of _ p1]) (auto simp: listed_pod_def)
qed

subsection \<open>Every successful start\<close>

lemma restore_loop_distinct:
  "restore_loop o' k ps cm pm = Ok x \<Longrightarrow>
   distinct (map pod_Name ps) \<and> pod_Name ` set ps \<inter> dom (cm_view cm) = {}"
proof (induction ps arbitrary: cm pm)
  case (Cons p ps)
  show ?case
  proof (cases "cm_view cm (pod_Name p)")
    case None
    from cm.add_fresh [OF None, of "restored_container p"] obtain cm1 where
      add: "cm_Add (pod_Name p) (restored_container p) cm = (None, cm1)"
        "cm_view cm1 = (cm_view cm)(pod_Name p \<mapsto> restored_container p)"
      by (metis prod.collapse)
    with Cons.prems have "restore_loop o' k ps cm1 (pr_Set o' pm (pod_Name p) k (label_or_empty p)) = Ok x"
      by (simp add: Let_def)
    from Cons.IH [OF this] add(2) None show ?thesis by auto
  next
    case (Some c)
    from cm.add_taken [OF this, of "restored_container p"] Cons.prems show ?thesis by (simp add: Let_def)
  qed
qed simp

lemma NewClient_starts:
  fixes d :: "('w, 'img, 'task, 'pm) deps"
  assumes "NewClient d node_name certs proxy rootfs ns w = (Ok c, w2)" and "property_laws (d_props d)"
  obtains n w1 pods where "k8s_GetNode (d_k8s d) node_name w = (Ok n, w1)"
    "k8s_ListPods (d_k8s d) ns w1 = (Ok pods, w2)" "distinct (map pod_Name pods)"
    "cl_view c = map_of (map (\<lambda>p. (pod_Name p, restored_container p)) pods)" "cm_wf (cl_containers c)"
    "\<And>h k. pr_Get (d_props d) (cl_props c) h k =
       (if k = d_OwnerKey d then map_of (map (\<lambda>p. (pod_Name p, label_or_empty p)) pods) h else None)"
proof -
  from assms(1) obtain n w1 where
    node: "wrapping ''failed to get node %s: %w'' [node_name] (k8s_GetNode (d_k8s d) node_name) w = (Ok n, w1)" and
    rest: "\<exists>x. containerRestoreInfo d ns w1 = (Ok x, w2)"
    unfolding NewClient_def by (auto simp: andthen_Ok_iff return_ok_def)
  from node have n: "k8s_GetNode (d_k8s d) node_name w = (Ok n, w1)"
    by (auto simp: wrapping_def split: prod.splits)
  from rest obtain pods and x :: "'task container container_map \<times> 'pm" where
    pods: "wrapping ''failed to list existing pods: %w'' [] (k8s_ListPods (d_k8s d) ns) w1 = (Ok pods, w2)"
      "restore_loop (d_props d) (d_OwnerKey d) pods newContainerMap (pr_New (d_props d)) = Ok x"
    unfolding containerRestoreInfo_def by (auto simp: andthen_Ok_iff)
  from pods(1) have l: "k8s_ListPods (d_k8s d) ns w1 = (Ok pods, w2)"
    by (auto simp: wrapping_def split: prod.splits)
  from restore_loop_distinct [OF pods(2)] have dist: "distinct (map pod_Name pods)" by simp
  show thesis
  proof (rule NewClient_Ok [OF assms(2) n l dist, of certs proxy rootfs])
    fix c' assume c': "NewClient d node_name certs proxy rootfs ns w = (Ok c', w2)"
      "cl_view c' = map_of (map (\<lambda>p. (pod_Name p, restored_container p)) pods)" "cm_wf (cl_containers c')"
      "\<And>h k. pr_Get (d_props d) (cl_props c') h k =
         (if k = d_OwnerKey d then map_of (map (\<lambda>p. (pod_Name p, label_or_empty p)) pods) h else None)"
    then have "c' = c" using assms(1) by simp
    from that [OF n l dist c'(2-4) [unfolded this]] show thesis .
  qed
qed

subsection \<open>The registry stays well-formed\<close>

lemma NewClient_wf:
  assumes "NewClient d node_name certs proxy rootfs ns w = (Ok c, w2)" and "property_laws (d_props d)"
  shows "client_wf c"
proof (rule NewClient_starts [OF assms])
  fix pods
  assume "cl_view c = map_of (map (\<lambda>p. (pod_Name p, restored_container p)) pods)" "cm_wf (cl_containers c)"
  with NewClient_free [OF assms(1)] show ?thesis
    by (auto simp: client_wf_def newPortManager_def restored_container_def NewContainer_def container_Handle_def
        dest!: map_of_SomeD)
qed

text \<open>C17: From the start of the client on, whatever pods it restored and whatever specs it is given,
  its registry has one entry per handle, every container is stored under its own handle, so
  that \<open>Lookup\<close> answers with a container of that handle or with a not-found error, and the
  allocated ports are all from the window.\<close>

theorem client_stays_wf:
  assumes "NewClient d node_name certs proxy rootfs ns w = (Ok c0, w0)" and "property_laws (d_props d)"
    and "k8s_keeps (d_k8s d)" and "client_run d ok (c0, w1) (c, w2)"
  shows "cm_wf (cl_containers c) \<and> cl_held c \<subseteq> port_window \<and>
     (case Lookup c h of Ok ct \<Rightarrow> container_Handle ct = h | Err e \<Rightarrow> e = ContainerNotFoundError h | Panic p \<Rightarrow> False)"
proof -
  have "client_wf c" using run_keeps_wf [OF assms(4,3)] NewClient_wf [OF assms(1,2)] by simp
  then show ?thesis by (auto simp: client_wf_def Lookup_def cm.get_eq split: option.split)
qed

theorem client_stays_wf_witness:
  "\<exists>c ct. NewClient sample_deps ''node'' ''/certs'' True ''sidecar.tar'' ''cf-workloads'' restored_world =
       (Ok c, restored_world) \<and> Lookup c ''old'' = Ok ct \<and> container_Handle ct = ''old''"
proof (rule sample_restart)
  fix c assume c: "NewClient sample_deps ''node'' ''/certs'' True ''sidecar.tar'' ''cf-workloads'' restored_world =
       (Ok c, restored_world)"
    "cl_view c = map_of (map (\<lambda>p. (pod_Name p, restored_container p)) [listed_pod (''cf-workloads'', ''old'')])"
  have "Lookup c ''old'' = Ok (restored_container (listed_pod (''cf-workloads'', ''old'')))"
    by (simp add: Lookup_def cm.get_eq c(2) listed_pod_def)
  with client_stays_wf [OF c(1) sample_property_laws sample_keeps run_refl, where h = "''old''"] c(1)
  show ?thesis by force
qed

end
