(* ===== verification/BuildProps.thy ===== *)
theory BuildProps
  imports Sample
begin

section \<open>The pod of a container, its image and its metrics\<close>

text \<open>
  What the pod that \<open>Create\<close> builds claims and limits: the image and the disk it leaves, which
  container of the pod exposes the ports, the mounts, the host ports that the caller chose, and
  what \<open>BulkMetrics\<close> returns.
\<close>

subsection \<open>The image and the disk limit\<close>

lemma docker_cases:
  assumes "ctrd_Pull (d_ctrd d) (docker_ref img) (ref_Username (spec_Image spec))
      (ref_Password (spec_Image spec)) w = (Ok (i, sz), w1)"
  shows "spec_DiskByteHard spec \<le> sz \<Longrightarrow>
      \<exists>es. resolve_docker d spec img w = (Err (ErrJoin (image_too_large sz (spec_DiskByteHard spec) # es)),
        snd (ctrd_Delete (d_ctrd d) i w1))"
    and "\<not> spec_DiskByteHard spec \<le> sz \<Longrightarrow> resolve_docker d spec img w = (Ok (img', env, sz'), w') \<Longrightarrow>
      sz' = sz \<and> img' = d_ImageName d i"
  using assms
  by (auto simp: resolve_docker_def errors_Join_def andthen_Ok_iff return_ok_def andthen_simps
      wrapping_simps split: prod.split option.split list.split)

text \<open>The first container of the pod and its limit.\<close>

lemma nth_add_bind_mounts:
  "pod_Containers p \<noteq> [] \<Longrightarrow>
   pc_EphemeralStorageLimit (hd (pod_Containers (fst (add_bind_mounts cfg intn ms p w)))) =
     pc_EphemeralStorageLimit (hd (pod_Containers p))"
  by (induction cfg intn ms p w rule: add_bind_mounts.induct)
    (auto simp: Let_def add_bind_mount_def hd_map split: prod.split)

lemma build_limit:
  "pc_EphemeralStorageLimit (hd (pod_Containers (fst (build_pod cfg ok oor intn spec cpu ports img sz w)))) =
     Some (DecimalSI (sint (spec_DiskByteHard spec - sz)))"
  unfolding build_pod_def
  by (subst nth_add_bind_mounts)
    (simp_all add: add_sidecar_def base_pod_def app_container_def byteToQuantity_def Let_def)

text \<open>The \<open>int64\<close> a number of bytes is converted to.\<close>

lemma unat_less_63: "unat (x :: u64) < 2 ^ 63 \<longleftrightarrow> uint x < 2 ^ 63"
  by (simp add: nat_less_iff flip: nat_uint_eq)

lemma sint_of_unat:
  "sint (x :: u64) = (if unat x < 2 ^ 63 then int (unat x) else int (unat x) - 2 ^ 64)"
proof -
  have less: "uint x < 2 ^ 64" using unsigned_less [of x, where ?'a = int] by simp
  have "sint x = (uint x + 2 ^ 63) mod 2 ^ 64 - 2 ^ 63"
    by (simp add: sint_uint signed_take_bit_eq_take_bit_shift take_bit_eq_mod)
  also have "(uint x + 2 ^ 63) mod 2 ^ 64 = (if uint x < 2 ^ 63 then uint x + 2 ^ 63 else uint x - 2 ^ 63)"
  proof (cases "uint x < 2 ^ 63")
    case True
    then show ?thesis by (simp add: mod_pos_pos_trivial)
  next
    case False
    have "uint x + 2 ^ 63 = (uint x - 2 ^ 63) + 2 ^ 64" by simp
    then have "(uint x + 2 ^ 63) mod 2 ^ 64 = (uint x - 2 ^ 63) mod 2 ^ 64" by (simp only: mod_add_self2)
    also have "\<dots> = uint x - 2 ^ 63" using False less by (simp add: mod_pos_pos_trivial)
    finally show ?thesis using False by simp
  qed
  finally show ?thesis using unat_less_63 [of x] by simp
qed

text \<open>C22: An image that leaves no disk under the container's limit is refused and deleted again;
  otherwise the app container's ephemeral storage limit is set from what the image leaves, and the
  unsigned subtraction does not wrap around. The limit is that number when it is below 2^63 bytes;
  from there on the conversion to \<open>int64\<close> makes it negative: the number less 2^64.\<close>

theorem disk_limit:
  assumes "CutPrefix (ref_URI (spec_Image spec)) ''docker:'' = (img, True)"
    and "ctrd_Pull (d_ctrd d) (docker_ref img) (ref_Username (spec_Image spec))
      (ref_Password (spec_Image spec)) w = (Ok (i, sz), w1)"
    and "cl_view c (spec_Handle spec) = None"
    and "prepare d c spec w = (r, nis, c1, w')"
  shows "(spec_DiskByteHard spec \<le> sz \<longrightarrow> (\<forall>x. r \<noteq> Ok x) \<and>
       snd (resolve_image d spec w) = snd (ctrd_Delete (d_ctrd d) i w1)) \<and>
     (\<forall>p ct. r = Ok (p, ct) \<longrightarrow> (\<exists>left limit. int (unat (spec_DiskByteHard spec)) = int (unat sz) + left \<and> 0 < left \<and>
       pc_EphemeralStorageLimit (hd (pod_Containers p)) = Some (DecimalSI limit) \<and>
       (left < 2 ^ 63 \<and> limit = left \<or> 2 ^ 63 \<le> left \<and> limit = left - 2 ^ 64 \<and> limit < 0)))"
proof -
  have res: "resolve_image d spec w = resolve_docker d spec img w"
    by (simp add: resolve_image_def assms(1))
  note cases = docker_cases [OF assms(2)]
  have ok: "\<not> spec_DiskByteHard spec \<le> sz \<and>
      pc_EphemeralStorageLimit (hd (pod_Containers p)) = Some (DecimalSI (sint (spec_DiskByteHard spec - sz)))"
    if "r = Ok (p, ct)" for p ct
    using assms(4) [unfolded that]
  proof (rule prepare_Ok)
    fix ports img' sz' w0 and env :: "string list"
    assume r: "resolve_image d spec w = (Ok (img', env, sz'), w0)"
      and bp: "build_pod (cl_config c) (d_OwnerKey d) (d_IntOutOfRange d) (d_IntN d) spec
        (cpu_assignment (cl_config c) spec) ports img' sz' w0 = (p, w')"
    from r cases(1) have le: "\<not> spec_DiskByteHard spec \<le> sz" by (auto simp: res)
    with r cases(2) have "sz' = sz" by (simp add: res)
    with bp build_limit le show ?thesis by (metis fst_conv)
  qed
  have "\<exists>left. int (unat (spec_DiskByteHard spec)) = int (unat sz) + left \<and> 0 < left \<and>
      (left < 2 ^ 63 \<and> sint (spec_DiskByteHard spec - sz) = left \<or>
       2 ^ 63 \<le> left \<and> sint (spec_DiskByteHard spec - sz) = left - 2 ^ 64 \<and> sint (spec_DiskByteHard spec - sz) < 0)"
    if "\<not> spec_DiskByteHard spec \<le> sz"
  proof (intro exI [of _ "int (unat (spec_DiskByteHard spec - sz))"] conjI)
    have sub: "unat (spec_DiskByteHard spec - sz) = unat (spec_DiskByteHard spec) - unat sz"
      "unat sz < unat (spec_DiskByteHard spec)"
      using that by (simp_all add: unat_sub_if' word_le_nat_alt)
    have ints: "int (a - b) + int b = int a" "0 < int (a - b)" if "b < a" for a b :: nat
      using that by simp_all
    show "int (unat (spec_DiskByteHard spec)) = int (unat sz) + int (unat (spec_DiskByteHard spec - sz))"
      "0 < int (unat (spec_DiskByteHard spec - sz))"
      unfolding sub(1) using ints [OF sub(2)] by linarith+
    have "int (unat (spec_DiskByteHard spec - sz)) < 2 ^ 64"
      using unsigned_less [of "spec_DiskByteHard spec - sz", where ?'a = int] by simp
    then show "int (unat (spec_DiskByteHard spec - sz)) < 2 ^ 63 \<and>
        sint (spec_DiskByteHard spec - sz) = int (unat (spec_DiskByteHard spec - sz)) \<or>
      2 ^ 63 \<le> int (unat (spec_DiskByteHard spec - sz)) \<and>
        sint (spec_DiskByteHard spec - sz) = int (unat (spec_DiskByteHard spec - sz)) - 2 ^ 64 \<and>
        sint (spec_DiskByteHard spec - sz) < 0"
      using unat_less_63 [of "spec_DiskByteHard spec - sz"] by (auto simp: sint_of_unat)
  qed
  with ok have "\<forall>p ct. r = Ok (p, ct) \<longrightarrow> (\<exists>left limit. int (unat (spec_DiskByteHard spec)) = int (unat sz) + left \<and> 0 < left \<and>
       pc_EphemeralStorageLimit (hd (pod_Containers p)) = Some (DecimalSI limit) \<and>
       (left < 2 ^ 63 \<and> limit = left \<or> 2 ^ 63 \<le> left \<and> limit = left - 2 ^ 64 \<and> limit < 0))" by blast
  moreover have "\<forall>x. r \<noteq> Ok x" if "spec_DiskByteHard spec \<le> sz"
    using ok that by (metis prod.exhaust)
  moreover have "snd (resolve_image d spec w) = snd (ctrd_Delete (d_ctrd d) i w1)" if "spec_DiskByteHard spec \<le> sz"
    using cases(1) [OF that] by (auto simp: res)
  ultimately show ?thesis by blast
qed

lemma sample_docker:
  "\<exists>p ct nis c1. prepare sample_deps sample_client
     ((sample_spec ''h1'' [])\<lparr>spec_Image := \<lparr>ref_URI = ''docker:///busybox'', ref_Username = [], ref_Password = []\<rparr>\<rparr>)
     sample_world = (Ok (p, ct), nis, c1, sample_world)"
proof -
  let ?spec = "(sample_spec ''h1'' [])\<lparr>spec_Image := \<lparr>ref_URI = ''docker:///busybox'', ref_Username = [], ref_Password = []\<rparr>\<rparr>"
  have ref: "docker_ref ''///busybox'' = ''busybox''" by code_simp
  have res: "resolve_image sample_deps ?spec sample_world = (Ok (''busybox'', [''PATH=/bin''], 5000), sample_world)"
    by (simp add: resolve_image_def CutPrefix_def resolve_docker_def ref sample_deps_def sample_ctrd_def
        return_ok_def andthen_def wrapping_def sample_spec_def)
  have flds: "spec_NetIn ?spec = []" "spec_BindMounts ?spec = []" "spec_Handle ?spec = ''h1''"
    by (simp_all add: sample_spec_def)
  have free: "cl_view sample_client (spec_Handle ?spec) = None" by (simp add: sample_client_def cm.view_empty)
  have alloc: "alloc_ports pm_Next (spec_NetIn ?spec) (cl_ports sample_client) = (Ok [], [], cl_ports sample_client)"
    by (simp add: flds(1))
  obtain p w1 where bp: "build_pod (cl_config sample_client) (d_OwnerKey sample_deps) (d_IntOutOfRange sample_deps)
      (d_IntN sample_deps) ?spec (cpu_assignment (cl_config sample_client) ?spec) [] ''busybox'' 5000 sample_world = (p, w1)"
    by (metis prod.exhaust)
  then have "w1 = sample_world" by (simp add: build_pod_def flds(2))
  with prepare_reaches [OF free alloc res bp] show ?thesis by blast
qed

theorem disk_limit_witness:
  "\<exists>p ct nis c1 limit. prepare sample_deps sample_client
     ((sample_spec ''h1'' [])\<lparr>spec_Image := \<lparr>ref_URI = ''docker:///busybox'', ref_Username = [], ref_Password = []\<rparr>\<rparr>)
     sample_world = (Ok (p, ct), nis, c1, sample_world) \<and> limit = 995000 \<and>
     pc_EphemeralStorageLimit (hd (pod_Containers p)) = Some (DecimalSI limit)"
proof -
  let ?spec = "(sample_spec ''h1'' [])\<lparr>spec_Image := \<lparr>ref_URI = ''docker:///busybox'', ref_Username = [], ref_Password = []\<rparr>\<rparr>"
  obtain p ct nis c1 where prep: "prepare sample_deps sample_client ?spec sample_world = (Ok (p, ct), nis, c1, sample_world)"
    using sample_docker by blast
  have cut: "CutPrefix (ref_URI (spec_Image ?spec)) ''docker:'' = (''///busybox'', True)"
    by (simp add: CutPrefix_def)
  have pull: "ctrd_Pull (d_ctrd sample_deps) (docker_ref ''///busybox'') (ref_Username (spec_Image ?spec))
      (ref_Password (spec_Image ?spec)) sample_world = (Ok (docker_ref ''///busybox'', 5000), sample_world)"
  proof -
    have "docker_ref ''///busybox'' = ''busybox''" by code_simp
    then show ?thesis by (simp add: sample_deps_def sample_ctrd_def return_ok_def)
  qed
  have free: "cl_view sample_client (spec_Handle ?spec) = None" by (simp add: sample_client_def cm.view_empty)
  from conjunct2 [OF disk_limit [OF cut pull free prep]] obtain left limit where
    left: "int (unat (spec_DiskByteHard ?spec)) = int (unat (5000 :: u64)) + left" and
    limit: "pc_EphemeralStorageLimit (hd (pod_Containers p)) = Some (DecimalSI limit)"
      "left < 2 ^ 63 \<and> limit = left \<or> 2 ^ 63 \<le> left \<and> limit = left - 2 ^ 64 \<and> limit < 0" by blast
  from left have "left = 995000" by (simp add: sample_spec_def)
  with limit prep show ?thesis by auto
qed

text \<open>A docker image is pulled by a reference that contains no \<open>#\<close> and does not start with a
  slash, so the tag separator of the URI reaches containerd as a colon.\<close>

theorem docker_ref_shape:
  "CHR ''#'' \<notin> set (docker_ref img) \<and> (\<forall>c s. docker_ref img = c # s \<longrightarrow> c \<noteq> CHR ''/'') \<and>
   (\<forall>name tag. img = ''///'' @ name @ ''#'' @ tag \<longrightarrow> name \<noteq> [] \<longrightarrow> hd name \<noteq> CHR ''/'' \<longrightarrow>
      CHR ''#'' \<notin> set (name @ tag) \<longrightarrow> docker_ref img = name @ '':'' @ tag)"
proof -
  have "CHR ''#'' \<notin> set (docker_ref img)"
    unfolding docker_ref_def using set_TrimLeft ReplaceAll_notin [of "CHR ''#''" "CHR '':''" img] by fastforce
  moreover have "c \<noteq> CHR ''/''" if "docker_ref img = c # s" for c s
    using that TrimLeft_hd [of "CHR ''/''" "ReplaceAll (CHR ''#'') (CHR '':'') img"]
    unfolding docker_ref_def by simp
  moreover have "docker_ref (''///'' @ name @ ''#'' @ tag) = name @ '':'' @ tag"
    if n: "name \<noteq> []" "hd name \<noteq> CHR ''/''" "CHR ''#'' \<notin> set (name @ tag)" for name tag :: string
  proof -
    have same: "ReplaceAll (CHR ''#'') (CHR '':'') s = s" if "CHR ''#'' \<notin> set s" for s
      unfolding ReplaceAll_def using that by (auto intro: map_idI)
    obtain c s where "name = c # s" using n(1) by (cases name) auto
    with n same [of name] same [of tag] show ?thesis
      by (auto simp: docker_ref_def ReplaceAll_def TrimLeft_def)
  qed
  ultimately show ?thesis by blast
qed

theorem docker_ref_shape_witness:
  "docker_ref ''///cloudfoundry/test#latest'' = ''cloudfoundry/test:latest''"
  using docker_ref_shape [of "''///'' @ ''cloudfoundry/test'' @ ''#'' @ ''latest''", THEN conjunct2, THEN conjunct2,
      rule_format, of "''cloudfoundry/test''" "''latest''"] by simp

subsection \<open>Which container exposes the ports\<close>

lemma pc_Ports_add_bind_mounts:
  "map pc_Ports (pod_Containers (fst (add_bind_mounts cfg intn ms p w))) = map pc_Ports (pod_Containers p)"
  "map pc_Name (pod_Containers (fst (add_bind_mounts cfg intn ms p w))) = map pc_Name (pod_Containers p)"
  by (induction cfg intn ms p w rule: add_bind_mounts.induct)
    (auto simp: Let_def add_bind_mount_def split: prod.split)

text \<open>The pod of a spec has the app container first; an app workload also gets the sidecar.
  The ports are exposed once: by the sidecar when the container proxy is on and there is a
  sidecar, by the app container otherwise.\<close>

theorem who_exposes_ports:
  "map (\<lambda>ctr. (pc_Name ctr, pc_Ports ctr))
       (pod_Containers (fst (build_pod cfg ok oor intn spec cpu ports img sz w))) =
     (if \<not> runs_app_workload spec then [(appContainerName, ports)]
      else if cfg_enableContainerProxy cfg then [(appContainerName, []), (sidecarContainerName, ports)]
      else [(appContainerName, ports), (sidecarContainerName, [])])"
proof -
  have pair: "map (\<lambda>ctr. (pc_Name ctr, pc_Ports ctr)) cs = zip (map pc_Name cs) (map pc_Ports cs)" for cs
    by (simp add: zip_map_map zip_same_conv_map)
  show ?thesis
    unfolding build_pod_def pair pc_Ports_add_bind_mounts
    by (simp add: add_sidecar_def base_pod_def app_container_def sidecar_container_def Let_def)
qed

subsection \<open>Bind mounts\<close>

definition volume_of :: "client_config \<Rightarrow> string \<Rightarrow> bind_mount \<Rightarrow> volume" where
  "volume_of cfg name m = \<lparr>vol_Name = name, vol_Source = bind_volume_source cfg m\<rparr>"

definition mount_of :: "string \<Rightarrow> bind_mount \<Rightarrow> volume_mount" where
  "mount_of name m = \<lparr>vm_Name = name, vm_MountPath = bm_DstPath m, vm_ReadOnly = (bm_Mode m = BindMountModeRO)\<rparr>"

definition volume_name :: "string \<Rightarrow> bool" where
  "volume_name name \<longleftrightarrow> length name = 14 \<and> take 4 name = ''vol-'' \<and> set (drop 4 name) \<subseteq> set alphanum"

text \<open>\<open>rand.IntN(n)\<close> returns a number below \<open>n\<close>.\<close>

definition IntN_bounded :: "(nat \<Rightarrow> 'w \<Rightarrow> nat \<times> 'w) \<Rightarrow> bool" where
  "IntN_bounded intn \<longleftrightarrow> (\<forall>n w. 0 < n \<longrightarrow> fst (intn n w) < n)"

lemma randSeq_alphanum:
  assumes "IntN_bounded intn"
  shows "length (fst (randSeq intn k w)) = k \<and> set (fst (randSeq intn k w)) \<subseteq> set alphanum"
proof (induction k arbitrary: w)
  case (Suc k)
  have "fst (intn (length alphanum) w) < length alphanum"
    using assms by (simp add: IntN_bounded_def alphanum_def)
  then have "alphanum ! fst (intn (length alphanum) w) \<in> set alphanum" by (rule nth_mem)
  with Suc show ?case by (simp add: Let_def case_prod_beta)
qed simp

text \<open>The first \<open>k\<close> numbers drawn below \<open>n\<close>, and the world after them.\<close>

primrec draws :: "(nat \<Rightarrow> 'w \<Rightarrow> nat \<times> 'w) \<Rightarrow> nat \<Rightarrow> nat \<Rightarrow> 'w \<Rightarrow> nat list" where
  "draws intn n 0 w = []"
| "draws intn n (Suc k) w = fst (intn n w) # draws intn n k (snd (intn n w))"

text \<open>The j-th ten of the numbers drawn below 36.\<close>

definition tenth :: "(nat \<Rightarrow> 'w \<Rightarrow> nat \<times> 'w) \<Rightarrow> nat \<Rightarrow> 'w \<Rightarrow> nat list" where
  "tenth intn j w = drop (10 * j) (draws intn 36 (10 * j + 10) w)"

lemma draws_add:
  "draws intn n (j + k) w = draws intn n j w @ draws intn n k (((\<lambda>w. snd (intn n w)) ^^ j) w)"
  by (induction j arbitrary: w) (simp_all add: funpow_Suc_right del: funpow.simps(2))

lemma length_draws [simp]: "length (draws intn n k w) = k"
  by (induction k arbitrary: w) simp_all

lemma draws_bounded: "IntN_bounded intn \<Longrightarrow> 0 < n \<Longrightarrow> list_all (\<lambda>r. r < n) (draws intn n k w)"
  by (induction k arbitrary: w) (simp_all add: IntN_bounded_def)

lemma randSeq_draws:
  "randSeq intn k w = (map ((!) alphanum) (draws intn 36 k w), ((\<lambda>w. snd (intn 36 w)) ^^ k) w)"
proof -
  have "length alphanum = 36" by (simp add: alphanum_def)
  then show ?thesis
    by (induction k arbitrary: w) (simp_all add: Let_def case_prod_beta funpow_Suc_right del: funpow.simps(2))
qed

lemma tenth_eq: "tenth intn j w = draws intn 36 10 (((\<lambda>w. snd (intn 36 w)) ^^ (10 * j)) w)"
  by (simp add: tenth_def draws_add)

lemma tenth_Suc: "tenth intn (Suc j) w = tenth intn j (((\<lambda>w. snd (intn 36 w)) ^^ 10) w)"
proof -
  have "10 * Suc j = 10 * j + 10" by simp
  then show ?thesis by (simp only: tenth_eq funpow_add comp_apply)
qed

text \<open>Ten letters and digits tell the ten numbers.\<close>

lemma tenth_inject:
  assumes "IntN_bounded intn"
  shows "map ((!) alphanum) (tenth intn i w) = map ((!) alphanum) (tenth intn j w) \<longleftrightarrow>
     tenth intn i w = tenth intn j w"
proof (rule inj_on_map_eq_map)
  have "distinct alphanum" "length alphanum = 36" by (simp_all add: alphanum_def)
  then have "inj_on ((!) alphanum) {..<36}" by (intro inj_on_nth) auto
  moreover have "set (tenth intn k w) \<subseteq> {..<36}" for k
    using draws_bounded [OF assms, of 36 10] by (auto simp: tenth_eq list_all_iff)
  ultimately show "inj_on ((!) alphanum) (set (tenth intn i w) \<union> set (tenth intn j w))"
    by (meson Un_least inj_on_subset)
qed

lemma add_bind_mounts_result:
  assumes "IntN_bounded intn"
  shows "\<exists>names. length names = length ms \<and> list_all volume_name names \<and>
     (\<forall>j < length ms. names ! j = ''vol-'' @ map ((!) alphanum) (tenth intn j w)) \<and>
     pod_Volumes (fst (add_bind_mounts cfg intn ms p w)) = pod_Volumes p @ map2 (volume_of cfg) names ms \<and>
     map pc_VolumeMounts (pod_Containers (fst (add_bind_mounts cfg intn ms p w))) =
       map (\<lambda>ctr. pc_VolumeMounts ctr @ map2 mount_of names ms) (pod_Containers p)"
  using assms
proof (induction cfg intn ms p w rule: add_bind_mounts.induct)
  case (2 cfg intn m ms p w)
  obtain rnd w' where r: "randSeq intn 10 w = (rnd, w')" by (metis prod.exhaust)
  let ?p = "add_bind_mount cfg (''vol-'' @ rnd) m p"
  from "2.IH" [OF r [symmetric] refl "2.prems"] obtain names where
    IH: "length names = length ms" "list_all volume_name names"
      "\<forall>j < length ms. names ! j = ''vol-'' @ map ((!) alphanum) (tenth intn j w')"
      "pod_Volumes (fst (add_bind_mounts cfg intn ms ?p w')) = pod_Volumes ?p @ map2 (volume_of cfg) names ms"
      "map pc_VolumeMounts (pod_Containers (fst (add_bind_mounts cfg intn ms ?p w'))) =
         map (\<lambda>ctr. pc_VolumeMounts ctr @ map2 mount_of names ms) (pod_Containers ?p)"
    by blast
  have "volume_name (''vol-'' @ rnd)"
    using randSeq_alphanum [OF "2.prems", of 10 w] unfolding r by (simp add: volume_name_def)
  moreover have "rnd = map ((!) alphanum) (tenth intn 0 w)" "w' = ((\<lambda>w. snd (intn 36 w)) ^^ 10) w"
    using r unfolding randSeq_draws by (simp_all add: tenth_eq)
  then have "\<forall>j < Suc (length ms). ((''vol-'' @ rnd) # names) ! j = ''vol-'' @ map ((!) alphanum) (tenth intn j w)"
    using IH(3) by (simp add: All_less_Suc2 tenth_Suc del: funpow.simps)
  ultimately show ?case
    using IH(1,2,4,5) r
    by (intro exI [of _ "(''vol-'' @ rnd) # names"])
      (auto simp: Let_def add_bind_mount_def volume_of_def mount_of_def comp_def)
qed simp

lemma volumes_of:
  "length names = length ms \<Longrightarrow> map vol_Name (map2 (volume_of cfg) names ms) = names \<and>
     map vol_Source (map2 (volume_of cfg) names ms) = map (bind_volume_source cfg) ms"
  by (induction names ms rule: list_induct2) (simp_all add: volume_of_def)

text \<open>C23: Every bind mount of the spec becomes one volume of the pod, backed by the config map of
  the trusted certificates exactly when the source is their directory and by the host path
  otherwise, and is mounted under the same name in every container of the pod, the sidecar
  included, at its destination and read-only when the spec says so. The name of the j-th is made
  of the j-th ten numbers drawn from the random source, as lower-case letters and digits, so two
  mounts share a name only when the source repeats its ten numbers.\<close>

theorem bind_mounts_everywhere:
  assumes "IntN_bounded intn"
  shows "\<exists>names. length names = length (spec_BindMounts spec) \<and> list_all volume_name names \<and>
     (\<forall>j < length names. names ! j = ''vol-'' @ map ((!) alphanum) (tenth intn j w)) \<and>
     (\<forall>i j. i < length names \<and> j < length names \<longrightarrow>
        (names ! i = names ! j \<longleftrightarrow> tenth intn i w = tenth intn j w)) \<and>
     map vol_Name (drop 2 (pod_Volumes (fst (build_pod cfg ok oor intn spec cpu ports img sz w)))) = names \<and>
     map vol_Source (drop 2 (pod_Volumes (fst (build_pod cfg ok oor intn spec cpu ports img sz w)))) =
       map (bind_volume_source cfg) (spec_BindMounts spec) \<and>
     map pc_VolumeMounts (pod_Containers (fst (build_pod cfg ok oor intn spec cpu ports img sz w))) =
       ([\<lparr>vm_Name = ''tmp'', vm_MountPath = ''/tmp'', vm_ReadOnly = False\<rparr>, garden_init_mount] @
         map2 mount_of names (spec_BindMounts spec)) #
       (if runs_app_workload spec then [garden_init_mount # map2 mount_of names (spec_BindMounts spec)] else [])"
proof -
  let ?p = "add_sidecar cfg spec ports (base_pod cfg ok oor spec cpu ports img sz)"
  from add_bind_mounts_result [OF assms, where cfg = cfg and ms = "spec_BindMounts spec" and p = ?p and w = w] obtain names where
    n: "length names = length (spec_BindMounts spec)" "list_all volume_name names"
      "\<forall>j < length (spec_BindMounts spec). names ! j = ''vol-'' @ map ((!) alphanum) (tenth intn j w)"
      "pod_Volumes (fst (build_pod cfg ok oor intn spec cpu ports img sz w)) =
         pod_Volumes ?p @ map2 (volume_of cfg) names (spec_BindMounts spec)"
      "map pc_VolumeMounts (pod_Containers (fst (build_pod cfg ok oor intn spec cpu ports img sz w))) =
         map (\<lambda>ctr. pc_VolumeMounts ctr @ map2 mount_of names (spec_BindMounts spec)) (pod_Containers ?p)"
    unfolding build_pod_def by blast
  have vols: "drop 2 (pod_Volumes ?p) = []" "length (pod_Volumes ?p) = 2"
    by (simp_all add: add_sidecar_def base_pod_def Let_def)
  have "map vol_Name (map2 (volume_of cfg) names (spec_BindMounts spec)) = names"
    "map vol_Source (map2 (volume_of cfg) names (spec_BindMounts spec)) =
       map (bind_volume_source cfg) (spec_BindMounts spec)"
    using volumes_of [OF n(1)] by blast+
  moreover have "map (\<lambda>ctr. pc_VolumeMounts ctr @ ms) (pod_Containers ?p) =
      ([\<lparr>vm_Name = ''tmp'', vm_MountPath = ''/tmp'', vm_ReadOnly = False\<rparr>, garden_init_mount] @ ms) #
      (if runs_app_workload spec then [garden_init_mount # ms] else [])" for ms
    by (simp add: add_sidecar_def base_pod_def app_container_def sidecar_container_def Let_def)
  moreover have "names ! i = names ! j \<longleftrightarrow> tenth intn i w = tenth intn j w"
    if "i < length names" "j < length names" for i j
    using that n(1,3) tenth_inject [OF assms] by simp
  ultimately show ?thesis using n vols by (intro exI [of _ names]) simp
qed

theorem bind_mounts_everywhere_witness:
  "\<exists>names. map vol_Source (drop 2 (pod_Volumes (fst (build_pod sample_client_config
       ''executor:owner'' (\<lambda>_. 0) (\<lambda>n w. (w mod n, Suc w)) ((sample_spec ''h1'' [])\<lparr>spec_BindMounts :=
         [\<lparr>bm_SrcPath = ''/certs'', bm_DstPath = ''/etc/certs'', bm_Mode = BindMountModeRO\<rparr>,
          \<lparr>bm_SrcPath = ''/data'', bm_DstPath = ''/d'', bm_Mode = BindMountModeRW\<rparr>]\<rparr>)
       (Fin 0) [] ''img'' 0 5)))) = [ConfigMapRef ''trusted-system-certs'', HostPath ''/data''] \<and>
     map vol_Name (drop 2 (pod_Volumes (fst (build_pod sample_client_config
       ''executor:owner'' (\<lambda>_. 0) (\<lambda>n w. (w mod n, Suc w)) ((sample_spec ''h1'' [])\<lparr>spec_BindMounts :=
         [\<lparr>bm_SrcPath = ''/certs'', bm_DstPath = ''/etc/certs'', bm_Mode = BindMountModeRO\<rparr>,
          \<lparr>bm_SrcPath = ''/data'', bm_DstPath = ''/d'', bm_Mode = BindMountModeRW\<rparr>]\<rparr>)
       (Fin 0) [] ''img'' 0 5)))) = names \<and> length names = 2 \<and>
     names ! 0 = ''vol-fghijklmno'' \<and> names ! 1 = ''vol-pqrstuvwxy''"
proof -
  let ?spec = "(sample_spec ''h1'' [])\<lparr>spec_BindMounts :=
         [\<lparr>bm_SrcPath = ''/certs'', bm_DstPath = ''/etc/certs'', bm_Mode = BindMountModeRO\<rparr>,
          \<lparr>bm_SrcPath = ''/data'', bm_DstPath = ''/d'', bm_Mode = BindMountModeRW\<rparr>]\<rparr>"
  let ?intn = "(\<lambda>n w. (w mod n, Suc w)) :: nat \<Rightarrow> nat \<Rightarrow> nat \<times> nat"
  have "IntN_bounded ?intn" by (simp add: IntN_bounded_def)
  note all = bind_mounts_everywhere [OF this, of ?spec 5 sample_client_config "''executor:owner''" "\<lambda>_. 0" "Fin 0" "[]" "''img''" 0]
  have mounts: "map (bind_volume_source sample_client_config) (spec_BindMounts ?spec) =
      [ConfigMapRef ''trusted-system-certs'', HostPath ''/data'']" "length (spec_BindMounts ?spec) = 2"
    by (simp_all add: bind_volume_source_def sample_client_config_def)
  have names: "''vol-'' @ map ((!) alphanum) (tenth ?intn 0 5) = ''vol-fghijklmno''"
    "''vol-'' @ map ((!) alphanum) (tenth ?intn 1 5) = ''vol-pqrstuvwxy''"
    by code_simp+
  from all [unfolded mounts] obtain names where n: "length names = 2"
    "\<forall>j < length names. names ! j = ''vol-'' @ map ((!) alphanum) (tenth ?intn j 5)"
    "map vol_Name (drop 2 (pod_Volumes (fst (build_pod sample_client_config ''executor:owner'' (\<lambda>_. 0) ?intn ?spec
       (Fin 0) [] ''img'' 0 5)))) = names"
    "map vol_Source (drop 2 (pod_Volumes (fst (build_pod sample_client_config ''executor:owner'' (\<lambda>_. 0) ?intn ?spec
       (Fin 0) [] ''img'' 0 5)))) = [ConfigMapRef ''trusted-system-certs'', HostPath ''/data'']"
    by (elim exE conjE) (rule that, assumption+)
  from n(1,2) have "names ! 0 = ''vol-fghijklmno''" "names ! 1 = ''vol-pqrstuvwxy''"
    using names by simp_all
  with n(1,3,4) show ?thesis by (intro exI [of _ names] conjI)
qed

subsection \<open>Host ports the caller chooses\<close>

text \<open>C24: A host port that the spec names is used as it is and is not reserved: after creating a
  container with such rules only, the port allocator is as it was. If that port is the lowest
  free one, the next container that asks for a port to be chosen gets it too.\<close>

theorem named_port_is_shared:
  assumes "k8s_keeps (d_k8s d)" and "client_Create d c spec w = Some (Ok ct, nis, c1, w1)"
    and "\<forall>ni \<in> set (spec_NetIn spec). ni_HostPort ni \<noteq> 0"
    and "pm_Next (cl_ports c) = (Ok p, pm)" and "p \<in> ni_HostPort ` set (spec_NetIn spec)"
    and "client_Create d c1 spec' w2 = Some (Ok ct', nis', c2, w3)"
    and "spec_NetIn spec' = [ni]" and "ni_HostPort ni = 0"
  shows "cl_ports c1 = cl_ports c \<and> pod_host_ports (ct_pod ct) = map ni_HostPort (spec_NetIn spec) \<and>
     p \<in> set (pod_host_ports (ct_pod ct)) \<inter> set (pod_host_ports (ct_pod ct'))"
proof -
  have kept: "alloc_ports pm_Next ns s = (Ok (map (\<lambda>ni. container_port_of ni (ni_HostPort ni)) ns), ns, s)"
    if "\<forall>ni \<in> set ns. ni_HostPort ni \<noteq> 0" for ns s
    using that by (induction ns) simp_all
  from create_Ok [OF assms(1,2)] have reg: "create_registered spec nis ct c c1" ..
  then have 1: "cl_ports c1 = cl_ports c" "nis = spec_NetIn spec"
    using kept [OF assms(3), of "cl_ports c"] by (auto simp: create_registered_def)
  from create_Ok [OF assms(1,6)] have reg': "create_registered spec' nis' ct' c1 c2" ..
  then have "nis' = [ni\<lparr>ni_HostPort := p\<rparr>]"
    using assms(4,7,8) 1(1) by (auto simp: create_registered_def)
  with 1 assms(5) show ?thesis
    by (auto simp: registered_host_ports [OF reg] registered_host_ports [OF reg'])
qed

lemma sample_named:
  obtains ct c w where
    "client_Create sample_deps sample_client (sample_spec ''h1'' [\<lparr>ni_HostPort = 62000, ni_ContainerPort = 8080\<rparr>])
       sample_world = Some (Ok ct, [\<lparr>ni_HostPort = 62000, ni_ContainerPort = 8080\<rparr>], c, w)"
    "w = \<lparr>wd_now = 0, wd_pods = [(''cf-workloads'', ''h1'')]\<rparr>"
proof -
  let ?ni = "\<lparr>ni_HostPort = 62000, ni_ContainerPort = 8080\<rparr>"
  let ?spec = "sample_spec ''h1'' [?ni]"
  have free: "cl_view sample_client (spec_Handle ?spec) = None" by (simp add: sample_client_def cm.view_empty)
  have alloc: "alloc_ports pm_Next (spec_NetIn ?spec) (cl_ports sample_client) =
      (Ok [container_port_of ?ni 62000], [?ni], cl_ports sample_client)"
    by (simp add: sample_spec_def)
  have res: "resolve_image sample_deps ?spec sample_world = (Ok (''/stacks/cflinuxfs4.tar'', [], 0), sample_world)"
    by (simp add: resolve_image_def sample_spec_def CutPrefix_def return_ok_def)
  have nob: "spec_BindMounts ?spec = []" "spec_Handle ?spec = ''h1''" by (simp_all add: sample_spec_def)
  obtain p w1 where bp: "build_pod (cl_config sample_client) (d_OwnerKey sample_deps) (d_IntOutOfRange sample_deps)
      (d_IntN sample_deps) ?spec (cpu_assignment (cl_config sample_client) ?spec) [container_port_of ?ni 62000]
      ''/stacks/cflinuxfs4.tar'' 0 sample_world = (p, w1)" by (metis prod.exhaust)
  then have w1: "w1 = sample_world" by (simp add: build_pod_def nob)
  from bp have key: "ObjectKey p = (''cf-workloads'', ''h1'')"
    unfolding ObjectKey_def
    by (metis fst_conv pod_Name_build pod_Namespace_build nob(2) sample_client_config_def
        sample_client_def client.select_convs(1) client_config.select_convs(7))
  from prepare_reaches [OF free alloc res bp [unfolded w1]] obtain ct c1 where
    prep: "prepare sample_deps sample_client ?spec sample_world = (Ok (p, ct), [?ni], c1, sample_world)"
      "cl_view c1 ''h1'' = Some ct" by (auto simp: nob(2))
  from sample_launch [OF prep(2), of p sample_world] obtain x c' where
    "launch sample_deps ''h1'' p ct c1 sample_world = Some (Ok x, c', sample_world\<lparr>wd_pods := [ObjectKey p]\<rparr>)"
    by (auto simp: sample_world_def)
  with prep(1) show thesis
    by (intro that [of x c']) (simp_all add: client_Create_def nob(2) key sample_world_def)
qed

theorem named_port_is_shared_witness:
  "\<exists>ct ct' c1 c2 w1 w2 nis nis'. client_Create sample_deps sample_client
       (sample_spec ''h1'' [\<lparr>ni_HostPort = 62000, ni_ContainerPort = 8080\<rparr>]) sample_world = Some (Ok ct, nis, c1, w1) \<and>
     client_Create sample_deps c1 (sample_spec ''h2'' [auto_rule]) w1 = Some (Ok ct', nis', c2, w2) \<and>
     62000 \<in> set (pod_host_ports (ct_pod ct)) \<inter> set (pod_host_ports (ct_pod ct'))"
proof (rule sample_named)
  fix ct c w
  let ?ni = "\<lparr>ni_HostPort = 62000, ni_ContainerPort = 8080\<rparr>"
  assume 1: "client_Create sample_deps sample_client (sample_spec ''h1'' [?ni]) sample_world = Some (Ok ct, [?ni], c, w)"
    and w: "w = \<lparr>wd_now = 0, wd_pods = [(''cf-workloads'', ''h1'')]\<rparr>"
  have nx: "pm_Next (cl_ports sample_client) = (Ok 62000, \<lparr>allocated = {62000}\<rparr>)"
    by (simp add: sample_client_def newPortManager_def pm_Next_def first_free_unfold startPort_def MaxUint16_def)
  from create_Ok [OF sample_keeps 1] have reg: "create_registered (sample_spec ''h1'' [?ni]) [?ni] ct sample_client c" ..
  then have c: "cl_ports c = cl_ports sample_client" "cl_view c ''h2'' = None" "cl_config c = cl_config sample_client"
    by (auto simp: create_registered_def sample_spec_def sample_client_def cm.view_empty)
  have "(cfg_workloadsNamespace (cl_config c), ''h2'') \<notin> set (wd_pods w)" by (simp add: w)
  from sample_create [OF c(2) nx [folded c(1)] this] obtain ct' nis' c2 w2 where
    2: "client_Create sample_deps c (sample_spec ''h2'' [auto_rule]) w = Some (Ok ct', nis', c2, w2)" by blast
  have rules: "\<forall>ni \<in> set (spec_NetIn (sample_spec ''h1'' [?ni])). ni_HostPort ni \<noteq> 0"
    "62000 \<in> ni_HostPort ` set (spec_NetIn (sample_spec ''h1'' [?ni]))"
    "spec_NetIn (sample_spec ''h2'' [auto_rule]) = [auto_rule]" "ni_HostPort auto_rule = 0"
    by (simp_all add: sample_spec_def auto_rule_def)
  from named_port_is_shared [OF sample_keeps 1 rules(1) nx rules(2) 2 rules(3,4)] 1 2 show ?thesis by blast
qed

subsection \<open>Metrics\<close>

lemma bulk_metrics_loop_all:
  "gm_wf ms \<Longrightarrow> (\<forall>h. gm_has ms h \<longrightarrow> cm_view cm h \<noteq> None) \<Longrightarrow>
   \<exists>r. bulk_metrics_loop d cm ms acc = Ok r \<and>
     map_of r = map_of acc ++ (\<lambda>h. map_option (metrics_entry_of d (the (cm_view cm h))) (map_of ms h))"
proof (induction ms arbitrary: acc)
  case Nil
  then show ?case by simp
next
  case (Cons x ms)
  obtain h m where x: "x = (h, m)" by (metis prod.exhaust)
  with Cons.prems(2) have "cm_view cm h \<noteq> None" by (simp add: gm_has_iff_keys)
  then obtain ct where ct: "cm_view cm h = Some ct" by blast
  have "gm_wf ms" "\<forall>h. gm_has ms h \<longrightarrow> cm_view cm h \<noteq> None" "map_of ms h = None"
    using Cons.prems by (auto simp: gm_wf_def gm_has_iff_keys x map_of_eq_None_iff)
  note ms = this
  from Cons.IH [OF ms(1,2), of "gm_put h (metrics_entry_of d ct m) acc", unfolded map_of_gm_put] obtain r where
    r: "bulk_metrics_loop d cm ms (gm_put h (metrics_entry_of d ct m) acc) = Ok r"
      "map_of r = (map_of acc)(h \<mapsto> metrics_entry_of d ct m) ++
        (\<lambda>h. map_option (metrics_entry_of d (the (cm_view cm h))) (map_of ms h))" by blast
  have "map_of r = map_of acc ++ (\<lambda>h. map_option (metrics_entry_of d (the (cm_view cm h))) (map_of (x # ms) h))"
    unfolding r(2) x using ms(3) ct by (auto simp: fun_eq_iff map_add_def split: option.split)
  with r(1) ct show ?case by (simp add: x cm.get_eq)
qed

lemma bulk_metrics_loop_missing:
  "\<exists>h. gm_has ms h \<and> cm_view cm h = None \<Longrightarrow>
   \<exists>h. gm_has ms h \<and> cm_view cm h = None \<and> bulk_metrics_loop d cm ms acc =
     Err (ErrorfW ''failed to get container %s for metrics: %w'' [h] (ContainerNotFoundError h))"
proof (induction ms arbitrary: acc)
  case Nil
  then show ?case by (simp add: gm_has_def)
next
  case (Cons x ms)
  obtain h m where x: "x = (h, m)" by (metis prod.exhaust)
  show ?case
  proof (cases "cm_view cm h")
    case None
    then show ?thesis by (intro exI [of _ h]) (simp add: x cm.get_eq gm_has_def)
  next
    case (Some ct)
    with Cons.prems have "\<exists>h. gm_has ms h \<and> cm_view cm h = None" by (auto simp: x gm_has_iff_keys)
    from Cons.IH [OF this, of "gm_put h (metrics_entry_of d ct m) acc"] obtain h' where
      "gm_has ms h'" "cm_view cm h' = None"
      "bulk_metrics_loop d cm ms (gm_put h (metrics_entry_of d ct m) acc) =
        Err (ErrorfW ''failed to get container %s for metrics: %w'' [h'] (ContainerNotFoundError h'))" by blast
    with Some show ?thesis by (intro exI [of _ h']) (simp add: x cm.get_eq gm_has_iff_keys)
  qed
qed

text \<open>C21: \<open>BulkMetrics\<close> answers for exactly the handles the kubelet reports, each computed from the
  container registered under it, whatever the order of the kubelet's map; one reported handle
  without a registered container makes the whole call fail with that handle's name.\<close>

theorem bulk_metrics_all_or_nothing:
  assumes "d_GetMetrics d handles w = (Ok ms, w')" and "gm_wf ms"
  shows "if \<exists>h. gm_has ms h \<and> cl_view c h = None
     then \<exists>h. gm_has ms h \<and> cl_view c h = None \<and> BulkMetrics d c handles w =
       (Err (ErrorfW ''failed to get container %s for metrics: %w'' [h] (ContainerNotFoundError h)), w')
     else \<exists>r. BulkMetrics d c handles w = (Ok r, w') \<and>
       map_of r = (\<lambda>h. map_option (metrics_entry_of d (the (cl_view c h))) (map_of ms h))"
proof -
  have eq: "BulkMetrics d c handles w = (bulk_metrics_loop d (cl_containers c) ms [], w')"
    unfolding BulkMetrics_def by (subst andthen_simps(1)) (simp_all add: assms(1))
  show ?thesis
  proof (cases "\<exists>h. gm_has ms h \<and> cl_view c h = None")
    case True
    with bulk_metrics_loop_missing [OF True, of d "[]"] show ?thesis by (auto simp: eq)
  next
    case False
    then have "\<forall>h. gm_has ms h \<longrightarrow> cl_view c h \<noteq> None" by auto
    from bulk_metrics_loop_all [OF assms(2) this, of d "[]"] show ?thesis
      unfolding if_not_P [OF False] eq by simp
  qed
qed

definition sample_metrics :: container_metrics where
  "sample_metrics = \<lparr>MemoryUsageInBytes = 10, DiskUsageInBytes = 20,
     TimeSpentInCPU = 50, ContainerAgeInNanoseconds = 60, RxInBytes = None, TxInBytes = None\<rparr>"

theorem bulk_metrics_all_or_nothing_witness:
  "\<exists>e. BulkMetrics (sample_deps\<lparr>d_GetMetrics := \<lambda>hs. return_ok [(''h1'', sample_metrics)]\<rparr>) sample_client [''h1''] sample_world =
     (Err (ErrorfW ''failed to get container %s for metrics: %w'' [''h1''] e), sample_world)"
proof -
  let ?d = "sample_deps\<lparr>d_GetMetrics := \<lambda>hs. return_ok [(''h1'', sample_metrics)]\<rparr>"
  have 1: "d_GetMetrics ?d [''h1''] sample_world = (Ok [(''h1'', sample_metrics)], sample_world)"
    by (simp add: return_ok_def)
  have 2: "gm_wf [(''h1'', sample_metrics)]" by (simp add: gm_wf_def)
  have "cl_view sample_client h = None" for h by (simp add: sample_client_def cm.view_empty)
  with bulk_metrics_all_or_nothing [OF 1 2, of sample_client] show ?thesis
    by (auto simp: gm_has_def split: if_splits)
qed

end
