(* ===== verification/InitOrder.thy ===== *)
theory InitOrder
  imports ExecutorInit
begin

section \<open>The order of the calls of Initialize\<close>

text \<open>
  \<open>Initialize\<close> as a sequence of steps that each succeed or stop it: the calls it makes and the two
  kinds of checks between them (the name space, the sizes of channels). A step has the event of
  its call, or none for a check, and the relation between the states before and after a success.
  \<open>passes\<close> is the contract of a stage: it returns a value only after all of its steps have
  succeeded, and stops at the first that does not.
\<close>

type_synonym ('e, 'x) step = "'e option \<times> ('x \<Rightarrow> 'x \<Rightarrow> bool)"

fun completes :: "('e, 'x) step list \<Rightarrow> 'x \<Rightarrow> 'x \<Rightarrow> bool" where
  "completes [] x y \<longleftrightarrow> x = y"
| "completes (s # ss) x y \<longleftrightarrow> (\<exists>z. snd s x z \<and> completes ss z y)"

fun events :: "('e, 'x) step list \<Rightarrow> 'e list" where
  "events [] = []"
| "events (s # ss) = (case fst s of None \<Rightarrow> events ss | Some e \<Rightarrow> e # events ss)"

text \<open>The steps before the n-th have succeeded and the n-th does not.\<close>

definition stopped_at :: "nat \<Rightarrow> ('e, 'x) step list \<Rightarrow> 'x \<Rightarrow> bool" where
  "stopped_at n ss x \<longleftrightarrow> n < length ss \<and> (\<exists>z. completes (take n ss) x z \<and> (\<nexists>y. snd (ss ! n) z y))"

lemma completes_append: "completes (ss @ ss') x y \<longleftrightarrow> (\<exists>z. completes ss x z \<and> completes ss' z y)"
  by (induction ss arbitrary: x) auto

lemma events_append [simp]: "events (ss @ ss') = events ss @ events ss'"
  by (induction ss) (auto split: option.split)

lemma stopped_append:
  "stopped_at n ss x \<Longrightarrow> stopped_at n (ss @ ss') x"
  by (auto simp: stopped_at_def nth_append)

lemma stopped_later:
  "completes ss x z \<Longrightarrow> stopped_at n ss' z \<Longrightarrow> stopped_at (length ss + n) (ss @ ss') x"
  by (auto simp: stopped_at_def nth_append completes_append)

text \<open>
  The state of a step is the world with what the later steps use of the earlier: \<open>'g\<close>. \<open>P\<close> is what
  the stage needs of it and \<open>Q\<close> what it gives for its value.
\<close>

definition passes ::
  "('g \<Rightarrow> bool) \<Rightarrow> (('e, 'w) traced, 'a) pact \<Rightarrow> ('e, 'g \<times> 'w) step list \<Rightarrow> ('a \<Rightarrow> 'g \<Rightarrow> bool) \<Rightarrow> bool" where
  "passes P m ss Q \<longleftrightarrow> (\<forall>tr w g r tr' w'. P g \<longrightarrow> m (tr, w) = Some (r, tr', w') \<longrightarrow>
     (\<exists>a g'. r = Ok a \<and> tr' = tr @ events ss \<and> completes ss (g, w) (g', w') \<and> Q a g') \<or>
     (\<nexists>a. r = Ok a) \<and> (\<exists>n. stopped_at n ss (g, w) \<and> tr' = tr @ events (take (Suc n) ss)))"

lemma passesI:
  assumes "\<And>tr w g r tr' w'. P g \<Longrightarrow> m (tr, w) = Some (r, tr', w') \<Longrightarrow>
     (\<exists>a g'. r = Ok a \<and> tr' = tr @ events ss \<and> completes ss (g, w) (g', w') \<and> Q a g') \<or>
     (\<nexists>a. r = Ok a) \<and> (\<exists>n. stopped_at n ss (g, w) \<and> tr' = tr @ events (take (Suc n) ss))"
  shows "passes P m ss Q"
  using assms unfolding passes_def by blast

lemma passesE:
  assumes "passes P m ss Q" "m (tr, w) = Some (r, tr', w')" "P g"
  obtains (ok) a g' where "r = Ok a" "tr' = tr @ events ss" "completes ss (g, w) (g', w')" "Q a g'"
  | (stop) n where "\<nexists>a. r = Ok a" "stopped_at n ss (g, w)" "tr' = tr @ events (take (Suc n) ss)"
proof -
  from assms(1) have *: "P g \<longrightarrow> m (tr, w) = Some (r, tr', w') \<longrightarrow>
     (\<exists>a g'. r = Ok a \<and> tr' = tr @ events ss \<and> completes ss (g, w) (g', w') \<and> Q a g') \<or>
     (\<nexists>a. r = Ok a) \<and> (\<exists>n. stopped_at n ss (g, w) \<and> tr' = tr @ events (take (Suc n) ss))"
    unfolding passes_def by (elim allE)
  from mp [OF mp [OF * assms(3)] assms(2)] show thesis
    by (elim disjE exE conjE) (rule ok, assumption+, rule stop, assumption+)
qed

lemma passes_continue:
  assumes m: "passes P m ss Q" and f: "\<And>a. passes (Q a) (f a) ss' Q'"
  shows "passes P (continue_with m f) (ss @ ss') Q'"
proof (rule passesI)
  fix tr w g r tr' w'
  assume P: "P g" and r: "continue_with m f (tr, w) = Some (r, tr', w')"
  then obtain r1 tr1 w1 where r1: "m (tr, w) = Some (r1, tr1, w1)"
    by (auto simp: continue_with_def split: option.splits)
  from m r1 P show "(\<exists>a g'. r = Ok a \<and> tr' = tr @ events (ss @ ss') \<and> completes (ss @ ss') (g, w) (g', w') \<and> Q' a g') \<or>
     (\<nexists>a. r = Ok a) \<and> (\<exists>n. stopped_at n (ss @ ss') (g, w) \<and> tr' = tr @ events (take (Suc n) (ss @ ss')))"
  proof (cases rule: passesE)
    case (ok a g1)
    with r r1 have "f a (tr1, w1) = Some (r, tr', w')" by (simp add: continue_with_def)
    from f this ok(4) show ?thesis
    proof (cases rule: passesE)
      case (ok b g')
      with \<open>completes ss (g, w) (g1, w1)\<close> \<open>tr1 = tr @ events ss\<close> show ?thesis by (auto simp: completes_append)
    next
      case (stop n)
      with \<open>completes ss (g, w) (g1, w1)\<close> have "stopped_at (length ss + n) (ss @ ss') (g, w)" by (intro stopped_later)
      moreover from stop \<open>tr1 = tr @ events ss\<close>
      have "tr' = tr @ events (take (Suc (length ss + n)) (ss @ ss'))" by simp
      ultimately show ?thesis using stop(1) by blast
    qed
  next
    case (stop n)
    then have "tr' = tr1 \<and> (\<nexists>a. r = Ok a)"
      using r r1 by (cases r1) (auto simp: continue_with_def)
    moreover from stop have "Suc n \<le> length ss" by (simp add: stopped_at_def)
    then have "take (Suc n) (ss @ ss') = take (Suc n) ss" by simp
    ultimately show ?thesis
      using stop stopped_append [OF stop(2), of ss'] by (intro disjI2 conjI exI [of _ n]) (simp_all del: take_append)
  qed
qed

lemma passes_continue_eq:
  "passes P m ss Q \<Longrightarrow> (\<And>a. passes (Q a) (f a) ss' Q') \<Longrightarrow> ss'' = ss @ ss' \<Longrightarrow>
   passes P (continue_with m f) ss'' Q'"
  by (simp add: passes_continue)

text \<open>A stage of one step.\<close>

lemma passes_one:
  assumes "\<And>tr w g r tr' w'. P g \<Longrightarrow> m (tr, w) = Some (r, tr', w') \<Longrightarrow> tr' = tr @ events [(e, R)] \<and>
     ((\<exists>a g'. r = Ok a \<and> R (g, w) (g', w') \<and> Q a g') \<or> (\<nexists>a. r = Ok a) \<and> (\<nexists>y. R (g, w) y))"
  shows "passes P m [(e, R)] Q"
proof (rule passesI)
  fix tr w g r tr' w'
  assume "P g" "m (tr, w) = Some (r, tr', w')"
  from assms [OF this]
  show "(\<exists>a g'. r = Ok a \<and> tr' = tr @ events [(e, R)] \<and> completes [(e, R)] (g, w) (g', w') \<and> Q a g') \<or>
     (\<nexists>a. r = Ok a) \<and> (\<exists>n. stopped_at n [(e, R)] (g, w) \<and> tr' = tr @ events (take (Suc n) [(e, R)]))"
    by (auto simp: stopped_at_def)
qed

text \<open>
  A step that succeeds with the value of a call on the world; \<open>upd\<close> keeps of the value what the
  later steps use.
\<close>

definition succeeds_with :: "('g \<Rightarrow> ('w, 'a) act) \<Rightarrow> ('a \<Rightarrow> 'g \<Rightarrow> 'g) \<Rightarrow> 'g \<times> 'w \<Rightarrow> 'g \<times> 'w \<Rightarrow> bool" where
  "succeeds_with f upd x y \<longleftrightarrow> (\<exists>a w'. f (fst x) (snd x) = (Ok a, w') \<and> y = (upd a (fst x), w'))"

definition holds :: "bool \<Rightarrow> 'x \<Rightarrow> 'x \<Rightarrow> bool" where
  "holds b x y \<longleftrightarrow> b \<and> y = x"

abbreviation keep :: "'a \<Rightarrow> 'g \<Rightarrow> 'g" where
  "keep a g \<equiv> g"

lemma passes_call:
  assumes "\<And>g. P g \<Longrightarrow> f g = op" "\<And>a g. P g \<Longrightarrow> Q a (upd a g)"
  shows "passes P (returns (call ev op)) [(Some ev, succeeds_with f upd)] Q"
proof (rule passes_one)
  fix tr w g r tr' w'
  assume P: "P g" and r: "returns (call ev op) (tr, w) = Some (r, tr', w')"
  then have op: "op w = (r, w')" "tr' = tr @ [ev]" by (simp_all add: returns_def call_eq prod_eq_iff)
  with assms P show "tr' = tr @ events [(Some ev, succeeds_with f upd)] \<and>
     ((\<exists>a g'. r = Ok a \<and> succeeds_with f upd (g, w) (g', w') \<and> Q a g') \<or>
      (\<nexists>a. r = Ok a) \<and> (\<nexists>y. succeeds_with f upd (g, w) y))"
    by (cases r) (auto simp: succeeds_with_def)
qed

lemma passes_same:
  "(\<And>a g. P g \<Longrightarrow> Q a g) \<Longrightarrow> passes P (returns (call ev op)) [(Some ev, succeeds_with (\<lambda>g. op) keep)] Q"
  by (rule passes_call) simp_all

lemma passes_ok: "(\<And>g. P g \<Longrightarrow> Q a g) \<Longrightarrow> passes P (returns (return_ok a)) [] Q"
  by (rule passesI) (auto simp: returns_def return_ok_def)

lemma passes_check:
  "(\<And>g a. P g \<Longrightarrow> r = Ok a \<Longrightarrow> Q a g) \<Longrightarrow> b = (\<exists>a. r = Ok a) \<Longrightarrow>
   passes P (returns (\<lambda>s. (r, s))) [(None, holds b)] Q"
  by (rule passes_one) (auto simp: returns_def holds_def)

lemma passes_guard:
  assumes "passes P m ss Q"
  shows "passes P (if b then returns (return_err e) else m) ((None, holds (\<not> b)) # ss) Q"
proof (cases b)
  case True
  have "stopped_at 0 ((None, holds (\<not> b)) # ss) x" for x
    using True by (simp add: stopped_at_def holds_def)
  then show ?thesis
    using True by (intro passesI) (auto simp: returns_def return_err_def intro!: exI [of _ 0])
next
  case False
  have "passes P (returns (return_ok ())) [(None, holds (\<not> b))] (\<lambda>_. P)"
    using False by (intro passes_one) (auto simp: returns_def return_ok_def holds_def)
  from passes_continue [OF this assms] have
    "passes P (continue_with (returns (return_ok ())) (\<lambda>_. m)) ([(None, holds (\<not> b))] @ ss) Q" .
  moreover have "continue_with (returns (return_ok ())) (\<lambda>_. m) = m"
    by (simp add: continue_with_def returns_def return_ok_def fun_eq_iff)
  ultimately show ?thesis using False by simp
qed

lemma passes_exit:
  assumes "passes P m ss Q"
  shows "passes P (or_exit m) ss Q"
proof (rule passesI)
  fix tr w g r tr' w'
  assume P: "P g" and "or_exit m (tr, w) = Some (r, tr', w')"
  then obtain r0 where r0: "m (tr, w) = Some (r0, tr', w')" "r = r0 \<or> (\<exists>e. r0 = Err e) \<and> r = Panic exit_1"
    by (auto simp: or_exit_def split: option.splits prod.splits res.splits)
  from assms r0(1) P show "(\<exists>a g'. r = Ok a \<and> tr' = tr @ events ss \<and> completes ss (g, w) (g', w') \<and> Q a g') \<or>
     (\<nexists>a. r = Ok a) \<and> (\<exists>n. stopped_at n ss (g, w) \<and> tr' = tr @ events (take (Suc n) ss))"
    using r0(2) by (cases rule: passesE) auto
qed


subsection \<open>The steps of Initialize\<close>

text \<open>What later steps use of earlier ones: the garden client and the TLS configuration.\<close>

record ('task, 'pm) progress =
  pg_client :: "('task, 'pm) client option"
  pg_tls :: "tls_config option"

definition no_progress :: "('task, 'pm) progress" where
  "no_progress = \<lparr>pg_client = None, pg_tls = None\<rparr>"

definition has_client :: "('task, 'pm) client \<Rightarrow> ('task, 'pm) progress \<Rightarrow> bool" where
  "has_client c g \<longleftrightarrow> pg_client g = Some c"

type_synonym ('w, 'task, 'pm) init_step = "(init_event, ('task, 'pm) progress \<times> 'w) step"

text \<open>The two waits that may not return, and the removal of the stray containers.\<close>

definition garden_answers ::
  "('w, 'img, 'task, 'pm, 'cap, 'key) init_env \<Rightarrow> ('task, 'pm) progress \<times> 'w \<Rightarrow> ('task, 'pm) progress \<times> 'w \<Rightarrow> bool" where
  "garden_answers env x y \<longleftrightarrow>
     (\<exists>c w'. pg_client (fst x) = Some c \<and> ie_waitForGarden env c (snd x) = Some (Ok (), w') \<and> y = (fst x, w'))"

definition strays_destroyed ::
  "('w, 'img, 'task, 'pm, 'cap, 'key) init_env \<Rightarrow> executor_config \<Rightarrow>
   ('task, 'pm) progress \<times> 'w \<Rightarrow> ('task, 'pm) progress \<times> 'w \<Rightarrow> bool" where
  "strays_destroyed env config x y \<longleftrightarrow>
     (\<exists>c received c' w'. pg_client (fst x) = Some c \<and>
        destroyContainers (ie_deps env) (ie_state_key env) (ec_ContainerOwnerName config) (ie_schedule env)
          (c, snd x) = Some (Ok (), received, c', w') \<and>
        y = ((fst x)\<lparr>pg_client := Some c'\<rparr>, w'))"

definition cache_synced ::
  "('w, 'img, 'task, 'pm, 'cap, 'key) init_env \<Rightarrow> 'g \<times> 'w \<Rightarrow> 'g \<times> 'w \<Rightarrow> bool" where
  "cache_synced env x y \<longleftrightarrow> fst y = fst x \<and> ie_WaitForCacheSync env (snd x) = (True, snd y)"

definition no_error :: "('w \<Rightarrow> goerr option \<times> 'w) \<Rightarrow> 'g \<times> 'w \<Rightarrow> 'g \<times> 'w \<Rightarrow> bool" where
  "no_error f x y \<longleftrightarrow> fst y = fst x \<and> f (snd x) = (None, snd y)"

definition garden_steps ::
  "('w, 'img, 'task, 'pm, 'cap, 'key) init_env \<Rightarrow> executor_config \<Rightarrow> string \<Rightarrow> ('w, 'task, 'pm) init_step list" where
  "garden_steps env config rootfs =
     [(Some (EvShlexSplit (ec_PostSetupHook config)), succeeds_with (\<lambda>g w. (ie_Split env (ec_PostSetupHook config), w)) keep),
      (None, holds (ie_WORKLOADS_NAMESPACE env \<noteq> [])),
      (Some (EvNewManager (ie_WORKLOADS_NAMESPACE env)),
       succeeds_with (\<lambda>g. newControllerManager (ie_manager env) (ie_NODE_NAME env) (ie_WORKLOADS_NAMESPACE env)) keep),
      (Some EvManagerStart, succeeds_with (\<lambda>g. return_ok ()) keep),
      (Some EvWaitForCacheSync, cache_synced env),
      (Some EvKubeletHTTPClient,
       succeeds_with (\<lambda>g. newKubeletClientFromConfig (ie_HTTPClientFor env) (ie_rest_config env) (ie_NODE_IP env) ''10250'') keep),
      (Some (EvContainerdNew (ec_GardenAddr config) ''k8s.io''),
       succeeds_with (\<lambda>g. ie_containerd_New env (ec_GardenAddr config) ''k8s.io'') keep),
      (Some (EvNewClient rootfs (ie_WORKLOADS_NAMESPACE env)),
       succeeds_with (\<lambda>g. NewClient (ie_deps env) (ie_NODE_NAME env) (ec_TrustedSystemCertificatesPath config)
           (ec_EnableContainerProxy config) rootfs (ie_WORKLOADS_NAMESPACE env))
         (\<lambda>c g. g\<lparr>pg_client := Some c\<rparr>)),
      (Some EvWaitForGarden, garden_answers env)]"

definition pool_step ::
  "('w, 'img, 'task, 'pm, 'cap, 'key) init_env \<Rightarrow> i64 \<Rightarrow> ('w, 'task, 'pm) init_step" where
  "pool_step env n = (Some (EvNewWorkPool n), succeeds_with (\<lambda>g. ie_NewWorkPool env n) keep)"

definition pool_steps ::
  "('w, 'img, 'task, 'pm, 'cap, 'key) init_env \<Rightarrow> executor_config \<Rightarrow> ('w, 'task, 'pm) init_step list" where
  "pool_steps env config =
     [pool_step env (ec_CreateWorkPoolSize config), pool_step env (ec_DeleteWorkPoolSize config),
      pool_step env (ec_ReadWorkPoolSize config), pool_step env (ec_MetricsWorkPoolSize config)]"

definition download_steps ::
  "('w, 'img, 'task, 'pm, 'cap, 'key) init_env \<Rightarrow> executor_config \<Rightarrow> ('w, 'task, 'pm) init_step list" where
  "download_steps env config =
     [pool_step env (ec_HealthCheckWorkPoolSize config),
      (Some EvTLSConfig, succeeds_with (\<lambda>g. TLSConfigFromConfig (ie_x509 env) config) (\<lambda>t g. g\<lparr>pg_tls := Some t\<rparr>)),
      (Some (EvCachedDownloader (ec_CachePath config) (ec_MaxCacheSizeInBytes config)),
       succeeds_with (\<lambda>g. ie_cachedDownloader env (downloader_for (the (pg_tls g))) (ec_CachePath config)
           (ec_MaxCacheSizeInBytes config)) keep),
      (Some EvRecoverState, succeeds_with (\<lambda>g. ie_RecoverState env) keep),
      (None, holds (unat (ec_MaxConcurrentDownloads config) < 2 ^ 63))]"

definition transformer_steps ::
  "('w, 'img, 'task, 'pm, 'cap, 'key) init_env \<Rightarrow> executor_config \<Rightarrow> ('w, 'task, 'pm) init_step list" where
  "transformer_steps env config =
     (let workDir = Join [ec_TempDir config, ''executor-work'']
      in [(Some (EvWorkDir (RemoveAll workDir)), no_error (ie_RemoveAll env workDir)),
          (Some (EvWorkDir (MkdirAll workDir 493)), no_error (ie_MkdirAll env workDir 493))])"

definition finish_steps ::
  "('w, 'img, 'task, 'pm, 'cap, 'key) init_env \<Rightarrow> executor_config \<Rightarrow> ('w, 'task, 'pm) init_step list" where
  "finish_steps env config =
     [(Some (EvConfigureCapacity (ec_MemoryMB config) (ec_DiskMB config)),
       succeeds_with (\<lambda>g. fetchCapacity env config (the (pg_client g))) keep),
      (Some EvCredManager, succeeds_with (\<lambda>g. CredManagerFromConfig (ie_x509 env) (ie_creds env) config) keep)]"

text \<open>All of them: first what has to be there before the stray containers are destroyed.\<close>

definition initialize_steps ::
  "('w, 'img, 'task, 'pm, 'cap, 'key) init_env \<Rightarrow> executor_config \<Rightarrow> string \<Rightarrow> ('w, 'task, 'pm) init_step list" where
  "initialize_steps env config rootfs =
     garden_steps env config rootfs @ pool_steps env config @
     [(Some (EvDestroyContainers (ec_ContainerOwnerName config)), strays_destroyed env config)] @
     download_steps env config @ transformer_steps env config @ finish_steps env config"

end
