(* ===== verification/InitProps.thy ===== *)
theory InitProps
  imports InitOrder ClientProps WaitGarden
begin

section \<open>What a successful Initialize guarantees\<close>

text \<open>
  The order of the calls of \<open>Initialize\<close>, with what a failure leaves undone, and the garden
  client the executor starts with: the containers a former executor has left are gone.
\<close>

lemma passes_pool: "passes P (make_work_pool env n) [pool_step env n] (\<lambda>_. P)"
  unfolding make_work_pool_def pool_step_def by (rule passes_same)

lemma passes_pools: "passes P (make_work_pools env config) (pool_steps env config) (\<lambda>_. P)"
  unfolding make_work_pools_def
  by (rule passes_continue_eq [OF passes_pool passes_continue [OF passes_pool passes_continue
        [OF passes_pool passes_pool]]]) (simp add: pool_steps_def)

lemma passes_cache_sync:
  "passes P (or_exit (returns (call EvWaitForCacheSync
      (\<lambda>w. (case ie_WaitForCacheSync env w of
              (True, w') \<Rightarrow> (Ok (), w')
            | (False, w') \<Rightarrow> (Err (ErrNew e), w'))))))
     [(Some EvWaitForCacheSync, cache_synced env)] (\<lambda>_. P)"
  by (intro passes_exit passes_one)
    (auto simp: returns_def call_eq cache_synced_def split: prod.splits bool.splits)

lemma passes_manager:
  "passes P (start_manager env) (take 3 (drop 2 (garden_steps env config rootfs))) (\<lambda>_. P)"
  unfolding start_manager_def
  by (rule passes_continue_eq [OF passes_exit [OF passes_same] passes_continue [OF passes_same passes_cache_sync]])
    (simp_all add: garden_steps_def)

lemma passes_client:
  "passes P (make_garden_client env config rootfs) (take 3 (drop 5 (garden_steps env config rootfs))) has_client"
  unfolding make_garden_client_def
  by (rule passes_continue_eq [OF passes_same [where Q = "\<lambda>_ _. True"] passes_continue
        [OF passes_same [where Q = "\<lambda>_ _. True"] passes_call]])
    (simp_all add: garden_steps_def has_client_def)

lemma passes_wait:
  "passes (has_client c) (call_pact EvWaitForGarden (ie_waitForGarden env c))
     [(Some EvWaitForGarden, garden_answers env)] (\<lambda>_. has_client c)"
  by (rule passes_one)
    (auto simp: call_pact_def garden_answers_def has_client_def split: option.splits prod.splits)

lemma passes_garden:
  "passes P (start_garden env config rootfs) (garden_steps env config rootfs) (\<lambda>x. has_client (snd x))"
proof -
  have "passes (\<lambda>_. True) (continue_with (start_manager env) (\<lambda>_.
                 continue_with (make_garden_client env config rootfs) (\<lambda>gardenClient.
                   continue_with (call_pact EvWaitForGarden (ie_waitForGarden env gardenClient))
                     (\<lambda>_. returns (return_ok (hook :: string list, gardenClient))))))
      (drop 2 (garden_steps env config rootfs)) (\<lambda>x. has_client (snd x))" for hook
    by (rule passes_continue_eq [OF passes_manager passes_continue [OF passes_client passes_continue
          [OF passes_wait passes_ok]]]) (simp_all add: garden_steps_def)
  note rest = passes_guard [OF this]
  show ?thesis
    unfolding start_garden_def
    by (rule passes_continue_eq [OF passes_same [where Q = "\<lambda>_ _. True"] rest]) (simp_all add: garden_steps_def)
qed

lemma passes_strays:
  "passes (has_client c) (destroy_strays env config c)
     [(Some (EvDestroyContainers (ec_ContainerOwnerName config)), strays_destroyed env config)] has_client"
  by (rule passes_one)
    (auto simp: destroy_strays_def strays_destroyed_def has_client_def split: option.splits prod.splits res.splits)

lemma passes_downloads:
  "passes (has_client c) (make_downloads env config) (download_steps env config) (\<lambda>_. has_client c)"
proof -
  have slots: "passes P (continue_with (returns (\<lambda>s. (make_chan n, s))) (\<lambda>slots. returns (return_ok (up, slots))))
      ([(None, holds (unat n < 2 ^ 63))] @ []) (\<lambda>_. P)" for P n and up :: uploader_config
    by (rule passes_continue [OF passes_check passes_ok]) (auto simp: make_chan_def)
  show ?thesis
    unfolding make_downloads_def
    by (rule passes_continue_eq [OF passes_pool passes_continue
          [OF passes_call [where Q = "\<lambda>t g. has_client c g \<and> pg_tls g = Some t"]
            passes_continue [OF passes_call [where Q = "\<lambda>_. has_client c"]
            passes_continue [OF passes_same slots]]]])
      (simp_all add: download_steps_def has_client_def)
qed

lemma passes_work_dir:
  "passes P (returns (embed EvWorkDir (setupWorkDir (ie_RemoveAll env) (ie_MkdirAll env) (ec_TempDir config))))
     (transformer_steps env config) (\<lambda>_. P)"
proof (rule passesI)
  fix tr w g r tr' w'
  let ?dir = "Join [ec_TempDir config, ''executor-work'']"
  let ?rm = "(Some (EvWorkDir (RemoveAll ?dir)), no_error (ie_RemoveAll env ?dir))"
    and ?mk = "(Some (EvWorkDir (MkdirAll ?dir 493)), no_error (ie_MkdirAll env ?dir 493))"
  assume P: "P g" and r: "returns (embed EvWorkDir (setupWorkDir (ie_RemoveAll env) (ie_MkdirAll env)
      (ec_TempDir config))) (tr, w) = Some (r, tr', w')"
  have steps: "transformer_steps env config = [?rm, ?mk]" by (simp add: transformer_steps_def Let_def)
  obtain e1 w1 where 1: "ie_RemoveAll env ?dir w = (e1, w1)" by (metis prod.exhaust)
  obtain e2 w2 where 2: "ie_MkdirAll env ?dir 493 w1 = (e2, w2)" by (metis prod.exhaust)
  note unfolds = returns_def embed_def setupWorkDir_def Let_def call_eq
  consider (first) e where "e1 = Some e" | (second) e where "e1 = None" "e2 = Some e" | (both) "e1 = None" "e2 = None"
    by (cases e1; cases e2) auto
  then show "(\<exists>a g'. r = Ok a \<and> tr' = tr @ events (transformer_steps env config) \<and>
        completes (transformer_steps env config) (g, w) (g', w') \<and> P g') \<or>
     (\<nexists>a. r = Ok a) \<and> (\<exists>n. stopped_at n (transformer_steps env config) (g, w) \<and>
        tr' = tr @ events (take (Suc n) (transformer_steps env config)))"
    unfolding steps
  proof cases
    case first
    then have "stopped_at 0 [?rm, ?mk] (g, w)" using 1 by (simp add: stopped_at_def no_error_def)
    then show "(\<exists>a g'. r = Ok a \<and> tr' = tr @ events [?rm, ?mk] \<and> completes [?rm, ?mk] (g, w) (g', w') \<and> P g') \<or>
       (\<nexists>a. r = Ok a) \<and> (\<exists>n. stopped_at n [?rm, ?mk] (g, w) \<and> tr' = tr @ events (take (Suc n) [?rm, ?mk]))"
      using first r 1 by (intro disjI2 conjI exI [of _ 0]) (auto simp: unfolds)
  next
    case second
    then have "stopped_at 1 [?rm, ?mk] (g, w)" using 1 2 by (simp add: stopped_at_def no_error_def)
    then show "(\<exists>a g'. r = Ok a \<and> tr' = tr @ events [?rm, ?mk] \<and> completes [?rm, ?mk] (g, w) (g', w') \<and> P g') \<or>
       (\<nexists>a. r = Ok a) \<and> (\<exists>n. stopped_at n [?rm, ?mk] (g, w) \<and> tr' = tr @ events (take (Suc n) [?rm, ?mk]))"
      using second r 1 2 by (intro disjI2 conjI exI [of _ 1]) (auto simp: unfolds)
  next
    case both
    then show "(\<exists>a g'. r = Ok a \<and> tr' = tr @ events [?rm, ?mk] \<and> completes [?rm, ?mk] (g, w) (g', w') \<and> P g') \<or>
       (\<nexists>a. r = Ok a) \<and> (\<exists>n. stopped_at n [?rm, ?mk] (g, w) \<and> tr' = tr @ events (take (Suc n) [?rm, ?mk]))"
      using r 1 2 P by (intro disjI1) (auto simp: unfolds no_error_def)
  qed
qed

lemma passes_transformer:
  "passes P (make_transformer env config rootfs hook up n) (transformer_steps env config) (\<lambda>_. P)"
proof -
  have "passes P (returns (\<lambda>s. (initializeTransformer dir n maxConcurrentUploads up h u g opts, s))) [] (\<lambda>_. P)"
    for dir h u g opts
    by (rule passesI) (auto simp: returns_def initializeTransformer_def make_chan_def maxConcurrentUploads_def)
  note pure = this
  show ?thesis
    unfolding make_transformer_def
    by (rule passes_continue_eq [OF passes_work_dir pure]) simp
qed

lemma passes_finish:
  "passes (has_client c) (finish_initialize env config cellID zone c n tf) (finish_steps env config)
     (\<lambda>ini. has_client (dep_gardenClient (in_depotClient ini)))"
  unfolding finish_initialize_def
  by (rule passes_continue_eq [OF passes_call [where Q = "\<lambda>_. has_client c"] passes_continue
        [OF passes_same [where Q = "\<lambda>_. has_client c"] passes_ok]])
    (simp_all add: finish_steps_def has_client_def)

lemma passes_Initialize:
  "passes P (Initialize env config cellID zone rootfs) (initialize_steps env config rootfs)
     (\<lambda>ini. has_client (dep_gardenClient (in_depotClient ini)))"
  unfolding Initialize_def case_prod_beta initialize_steps_def
  by (rule passes_continue [OF passes_garden passes_continue [OF passes_pools passes_continue [OF passes_strays
        passes_continue [OF passes_downloads passes_continue [OF passes_transformer passes_finish]]]]])

lemma initialize_steps_events:
  "events (initialize_steps env config rootfs) =
     [EvShlexSplit (ec_PostSetupHook config), EvNewManager (ie_WORKLOADS_NAMESPACE env), EvManagerStart,
      EvWaitForCacheSync, EvKubeletHTTPClient, EvContainerdNew (ec_GardenAddr config) ''k8s.io'',
      EvNewClient rootfs (ie_WORKLOADS_NAMESPACE env), EvWaitForGarden,
      EvNewWorkPool (ec_CreateWorkPoolSize config), EvNewWorkPool (ec_DeleteWorkPoolSize config),
      EvNewWorkPool (ec_ReadWorkPoolSize config), EvNewWorkPool (ec_MetricsWorkPoolSize config),
      EvDestroyContainers (ec_ContainerOwnerName config), EvNewWorkPool (ec_HealthCheckWorkPoolSize config),
      EvTLSConfig, EvCachedDownloader (ec_CachePath config) (ec_MaxCacheSizeInBytes config), EvRecoverState,
      EvWorkDir (RemoveAll (Join [ec_TempDir config, ''executor-work''])),
      EvWorkDir (MkdirAll (Join [ec_TempDir config, ''executor-work'']) 493),
      EvConfigureCapacity (ec_MemoryMB config) (ec_DiskMB config), EvCredManager]"
  by (simp add: initialize_steps_def garden_steps_def pool_steps_def pool_step_def download_steps_def
      transformer_steps_def finish_steps_def Let_def)

text \<open>What has been done when a call of a later step has been made.\<close>

definition outcome_of ::
  "('e, 'x) step list \<Rightarrow> 'x \<Rightarrow> bool \<Rightarrow> 'e list \<Rightarrow> bool" where
  "outcome_of ss x ok tr \<longleftrightarrow>
     (if ok then tr = events ss \<and> (\<exists>y. completes ss x y)
      else \<exists>n. stopped_at n ss x \<and> tr = events (take (Suc n) ss))"

lemma done_before:
  assumes "outcome_of (ss @ ss') x ok tr" "e \<in> set tr" "e \<notin> set (events ss)"
  shows "\<exists>y. completes ss x y"
proof (cases ok)
  case True
  with assms(1) show ?thesis by (auto simp: outcome_of_def completes_append)
next
  case False
  with assms(1) obtain n where n: "stopped_at n (ss @ ss') x" "tr = events (take (Suc n) (ss @ ss'))"
    by (auto simp: outcome_of_def)
  have "length ss \<le> n"
  proof (rule ccontr)
    assume "\<not> length ss \<le> n"
    then have "take (Suc n) (ss @ ss') = take (Suc n) ss" by simp
    with n(2) have "tr = events (take (Suc n) ss)" by (simp only:)
    moreover have "events ss = events (take (Suc n) ss) @ events (drop (Suc n) ss)"
      by (simp flip: events_append)
    ultimately show False using assms(2,3) by simp
  qed
  then have "take n (ss @ ss') = ss @ take (n - length ss) ss'" by simp
  with n(1) show ?thesis by (auto simp: stopped_at_def completes_append simp del: take_append)
qed

text \<open>C11: \<open>Initialize\<close> takes its steps in one order (the calls of \<open>initialize_steps\<close> and the checks
  between them) and stops at the first that does not succeed: when it returns an executor, every
  step has succeeded, each on the state the one before has left, and its client is the one they
  have made; when it returns otherwise, every step before some one has succeeded, that one has not,
  and no call of a later one was made. So the stray containers are destroyed only
  after the cache has synced, garden has answered and the work pools are made, and the
  downloader is made only after they have been destroyed.\<close>

theorem initialize_order:
  assumes "Initialize env config cellID zone rootfs ([], w) = Some (r, tr, w')"
  shows "((\<exists>ini g. r = Ok ini \<and> tr = events (initialize_steps env config rootfs) \<and>
        completes (initialize_steps env config rootfs) (no_progress, w) (g, w') \<and>
        pg_client g = Some (dep_gardenClient (in_depotClient ini))) \<or>
      (\<nexists>ini. r = Ok ini) \<and> (\<exists>n. stopped_at n (initialize_steps env config rootfs) (no_progress, w) \<and>
        tr = events (take (Suc n) (initialize_steps env config rootfs)))) \<and>
     (EvDestroyContainers (ec_ContainerOwnerName config) \<in> set tr \<longrightarrow>
       (\<exists>y. completes (garden_steps env config rootfs @ pool_steps env config) (no_progress, w) y)) \<and>
     (EvCachedDownloader (ec_CachePath config) (ec_MaxCacheSizeInBytes config) \<in> set tr \<longrightarrow>
       (\<exists>x y. completes (garden_steps env config rootfs @ pool_steps env config) (no_progress, w) x \<and>
          strays_destroyed env config x y))"
proof -
  let ?S = "initialize_steps env config rootfs"
  let ?A = "garden_steps env config rootfs @ pool_steps env config"
    and ?d = "(Some (EvDestroyContainers (ec_ContainerOwnerName config)), strays_destroyed env config)"
  have main: "(\<exists>ini g. r = Ok ini \<and> tr = events ?S \<and> completes ?S (no_progress, w) (g, w') \<and>
        pg_client g = Some (dep_gardenClient (in_depotClient ini))) \<or>
      (\<nexists>ini. r = Ok ini) \<and> (\<exists>n. stopped_at n ?S (no_progress, w) \<and> tr = events (take (Suc n) ?S))"
    using passes_Initialize assms TrueI by (cases rule: passesE) (auto simp: has_client_def)
  then have out: "outcome_of ?S (no_progress, w) (\<exists>ini. r = Ok ini) tr"
    unfolding outcome_of_def by (simp only: split: if_split) blast
  have S: "?S = ?A @ ?d # (download_steps env config @ transformer_steps env config @ finish_steps env config)"
    "?S = (?A @ [?d]) @ (download_steps env config @ transformer_steps env config @ finish_steps env config)"
    by (simp_all add: initialize_steps_def)
  have A: "EvDestroyContainers n \<notin> set (events ?A)" "EvCachedDownloader p k \<notin> set (events (?A @ [?d]))" for n p k
    by (simp_all add: garden_steps_def pool_steps_def pool_step_def)
  have "\<exists>y. completes ?A (no_progress, w) y"
    if "EvDestroyContainers (ec_ContainerOwnerName config) \<in> set tr"
    using done_before [OF out [unfolded S(1)] that A(1)] .
  moreover have "\<exists>x y. completes ?A (no_progress, w) x \<and> strays_destroyed env config x y"
    if "EvCachedDownloader (ec_CachePath config) (ec_MaxCacheSizeInBytes config) \<in> set tr"
    using done_before [OF out [unfolded S(2)] that A(2)] by (auto simp: completes_append)
  ultimately show ?thesis using main by blast
qed

subsection \<open>The containers a former executor has left\<close>

lemma continue_Ok_iff:
  "continue_with m f s = Some (Ok b, s') \<longleftrightarrow>
     (\<exists>a s1. m s = Some (Ok a, s1) \<and> f a s1 = Some (Ok b, s'))"
  by (auto simp: continue_with_def split: option.splits prod.splits res.splits)

lemma call_Ok_iff:
  "returns (call ev f) s = Some (Ok a, s') \<longleftrightarrow> (\<exists>w'. f (snd s) = (Ok a, w') \<and> s' = (fst s @ [ev], w'))"
  by (auto simp: returns_def call_def split: prod.splits)

lemma Initialize_client:
  assumes "Initialize env config cellID zone rootfs s = Some (Ok ini, s')"
  obtains c w1 w2 s2 s3 where
    "NewClient (ie_deps env) (ie_NODE_NAME env) (ec_TrustedSystemCertificatesPath config)
       (ec_EnableContainerProxy config) rootfs (ie_WORKLOADS_NAMESPACE env) w1 = (Ok c, w2)"
    "destroy_strays env config c s2 = Some (Ok (dep_gardenClient (in_depotClient ini)), s3)"
proof -
  from assms obtain hook c s1 s2 c' s3 n s4 tf s5 where
    1: "start_garden env config rootfs s = Some (Ok (hook, c), s1)" and
    2: "destroy_strays env config c s2 = Some (Ok c', s3)" and
    3: "finish_initialize env config cellID zone c' n tf s5 = Some (Ok ini, s')"
    unfolding Initialize_def by (auto simp: continue_Ok_iff case_prod_beta)
  from 3 have "dep_gardenClient (in_depotClient ini) = c'"
    unfolding finish_initialize_def by (auto simp: continue_Ok_iff returns_def return_ok_def)
  moreover from 1 obtain s6 s7 where "make_garden_client env config rootfs s6 = Some (Ok c, s7)"
    unfolding start_garden_def
    by (auto simp: continue_Ok_iff returns_def return_ok_def return_err_def split: if_splits)
  then obtain w1 w2 where "NewClient (ie_deps env) (ie_NODE_NAME env) (ec_TrustedSystemCertificatesPath config)
       (ec_EnableContainerProxy config) rootfs (ie_WORKLOADS_NAMESPACE env) w1 = (Ok c, w2)"
    unfolding make_garden_client_def by (auto simp: continue_Ok_iff call_Ok_iff)
  ultimately show thesis using 2 that by blast
qed

lemma destroy_strays_handles:
  assumes "destroy_strays env config c s = Some (Ok c', s')" and "\<And>hs. set (ie_schedule env hs) = set hs"
  shows "dom (cl_view c') = dom (cl_view c) - container_Handle ` set (executorContainers (ie_deps env) c
     (ie_state_key env) (ec_ContainerOwnerName config))"
proof -
  let ?d = "ie_deps env" and ?own = "ec_ContainerOwnerName config"
  from assms(1) obtain u received w' where
    "destroyContainers ?d (ie_state_key env) ?own (ie_schedule env) (c, snd s) = Some (Ok u, received, c', w')"
    by (auto simp: destroy_strays_def split: option.splits res.splits)
  then have "receive_deletions (destroy_op ?d)
      (ie_schedule env (map container_Handle (executorContainers ?d c (ie_state_key env) ?own))) (c, snd s) =
      Some (Ok u, received, (c', w'))"
    by (simp add: destroyContainers_def)
  from gs.receive_nil [OF this] show ?thesis by (simp add: assms(2))
qed

text \<open>Of the restored containers those of the owner.\<close>

lemma restored_owned:
  assumes "property_laws (d_props d)" and dist: "distinct (map pod_Name pods)"
    and view: "cl_view c = map_of (map (\<lambda>p. (pod_Name p, restored_container p)) pods)"
    and wf: "cm_wf (cl_containers c)"
    and props: "\<And>h k. pr_Get (d_props d) (cl_props c) h k =
       (if k = d_OwnerKey d then map_of (map (\<lambda>p. (pod_Name p, label_or_empty p)) pods) h else None)"
    and "d_OwnerKey d \<noteq> ''garden.state''"
  shows "container_Handle ` set (executorContainers d c ''garden.state'' own) =
     pod_Name ` {p \<in> set pods. label_or_empty p = own}"
proof (rule set_eqI)
  fix h
  have at: "map_of (map (\<lambda>p. (pod_Name p, f p)) pods) (pod_Name p) = Some (f p)" if "p \<in> set pods"
    for f :: "pod \<Rightarrow> 'x" and p
    using dist that by (auto simp: comp_def intro: map_of_is_SomeI)
  have handle: "container_Handle (restored_container p) = pod_Name p" for p
    by (simp add: restored_container_def NewContainer_def container_Handle_def)
  have "h \<in> container_Handle ` set (executorContainers d c ''garden.state'' own) \<longleftrightarrow>
      (\<exists>p \<in> set pods. h = pod_Name p \<and>
         pr_Get (d_props d) (cl_props c) (pod_Name p) (d_OwnerKey d) = Some own)"
    unfolding executorContainers_set [OF assms(1) wf refl assms(6)]
    using at [of _ restored_container] view by (force simp: handle dest: map_of_SomeD)
  then show "h \<in> container_Handle ` set (executorContainers d c ''garden.state'' own) \<longleftrightarrow>
      h \<in> pod_Name ` {p \<in> set pods. label_or_empty p = own}"
    using at [of _ label_or_empty] by (auto simp: props)
qed

text \<open>C6: After a successful \<open>Initialize\<close> the garden client of the executor holds exactly the pods
  the API server listed whose owner label is not the executor's: every container a former
  executor with the same owner name has left is gone, whatever the order in which the
  deletions complete, and no other container is touched.\<close>

theorem initialize_clears_strays:
  assumes "Initialize env config cellID zone rootfs s = Some (Ok ini, s')"
    and "property_laws (d_props (ie_deps env))" and "\<And>hs. set (ie_schedule env hs) = set hs"
    and "ie_state_key env = ''garden.state''" and "d_OwnerKey (ie_deps env) \<noteq> ''garden.state''"
  shows "\<exists>w w' pods. k8s_ListPods (d_k8s (ie_deps env)) (ie_WORKLOADS_NAMESPACE env) w = (Ok pods, w') \<and>
     dom (cl_view (dep_gardenClient (in_depotClient ini))) =
       pod_Name ` {p \<in> set pods. label_or_empty p \<noteq> ec_ContainerOwnerName config}"
proof (rule Initialize_client [OF assms(1)])
  fix c w1 w2 s2 s3
  let ?d = "ie_deps env" and ?own = "ec_ContainerOwnerName config"
  assume new: "NewClient ?d (ie_NODE_NAME env) (ec_TrustedSystemCertificatesPath config)
       (ec_EnableContainerProxy config) rootfs (ie_WORKLOADS_NAMESPACE env) w1 = (Ok c, w2)"
    and strays: "destroy_strays env config c s2 = Some (Ok (dep_gardenClient (in_depotClient ini)), s3)"
  show ?thesis
  proof (rule NewClient_starts [OF new assms(2)])
    fix n w3 pods
    assume list: "k8s_ListPods (d_k8s ?d) (ie_WORKLOADS_NAMESPACE env) w3 = (Ok pods, w2)"
      and dist: "distinct (map pod_Name pods)"
      and view: "cl_view c = map_of (map (\<lambda>p. (pod_Name p, restored_container p)) pods)"
      and wf: "cm_wf (cl_containers c)"
      and props: "\<And>h k. pr_Get (d_props ?d) (cl_props c) h k =
       (if k = d_OwnerKey ?d then map_of (map (\<lambda>p. (pod_Name p, label_or_empty p)) pods) h else None)"
    have "dom (cl_view c) = pod_Name ` set pods"
      by (simp add: view dom_map_of_conv_image_fst image_image)
    then have "dom (cl_view (dep_gardenClient (in_depotClient ini))) =
        pod_Name ` set pods - pod_Name ` {p \<in> set pods. label_or_empty p = ?own}"
      using destroy_strays_handles [OF strays assms(3)] restored_owned [OF assms(2) dist view wf props assms(5)]
      by (simp add: assms(4))
    also have "\<dots> = pod_Name ` {p \<in> set pods. label_or_empty p \<noteq> ?own}"
      using dist by (auto simp: distinct_map inj_on_def)
    finally show ?thesis using list by blast
  qed
qed

subsection \<open>A start that succeeds\<close>

definition sample_executor_config :: executor_config where
  "sample_executor_config = \<lparr>
     ec_AdvertisePreferenceForInstanceAddress = False, ec_AutoDiskOverheadMB = 0, ec_CachePath = [],
     ec_ContainerInodeLimit = 0, ec_ContainerMaxCpuShares = 1024, ec_ContainerMetricsReportInterval = 0,
     ec_ContainerOwnerName = ''executor'', ec_ContainerProxyADSServers = [],
     ec_ContainerProxyConfigPath = [], ec_ContainerProxyPath = [],
     ec_ContainerProxyRequireClientCerts = False, ec_ContainerProxyTrustedCACerts = [],
     ec_ContainerProxyVerifySubjectAltName = [], ec_ContainerReapInterval = 0, ec_CreateWorkPoolSize = 32,
     ec_DeclarativeHealthcheckPath = [], ec_DeleteWorkPoolSize = 32, ec_DiskMB = ''auto'',
     ec_EnableContainerProxy = True, ec_EnableContainerProxyHealthChecks = False,
     ec_DeclarativeHealthCheckDefaultTimeout = 1000000000, ec_EnableHealtcheckMetrics = False,
     ec_EnableUnproxiedPortMappings = False, ec_EnvoyConfigRefreshDelay = 0,
     ec_EnvoyConfigReloadDuration = 0, ec_EnvoyDrainTimeout = 0, ec_ProxyHealthCheckInterval = 0,
     ec_ExportNetworkEnvVars = False, ec_GardenAddr = ''/run/containerd.sock'',
     ec_GardenHealthcheckCommandRetryPause = 0, ec_GardenHealthcheckEmissionInterval = 0,
     ec_GardenHealthcheckInterval = 1000000000, ec_GardenHealthcheckProcessArgs = [],
     ec_GardenHealthcheckProcessDir = [], ec_GardenHealthcheckProcessEnv = [],
     ec_GardenHealthcheckProcessPath = ''ls'', ec_GardenHealthcheckProcessUser = ''vcap'',
     ec_GardenHealthcheckTimeout = 0, ec_GardenNetwork = [], ec_GracefulShutdownInterval = 0,
     ec_HealthCheckContainerOwnerName = [], ec_HealthCheckWorkPoolSize = 64,
     ec_HealthyMonitoringInterval = 30000000000, ec_InstanceIdentityCAPath = [], ec_InstanceIdentityCredDir = [],
     ec_InstanceIdentityPrivateKeyPath = [], ec_InstanceIdentityValidityPeriod = 0,
     ec_MaxCacheSizeInBytes = 0, ec_MaxConcurrentDownloads = 5, ec_MaxLogLinesPerSecond = 0,
     ec_MemoryMB = ''auto'', ec_MetricsWorkPoolSize = 8, ec_PathToCACertsForDownloads = [],
     ec_PathToTLSCACert = [], ec_PathToTLSCert = [], ec_PathToTLSKey = [], ec_PostSetupHook = [],
     ec_PostSetupUser = [], ec_ProxyEnableHttp2 = False, ec_ProxyMemoryAllocationMB = 32,
     ec_ReadWorkPoolSize = 64, ec_ReservedExpirationTime = 0, ec_SetCPUWeight = False,
     ec_SkipCertVerify = False, ec_TempDir = ''/tmp'', ec_TrustedSystemCertificatesPath = ''/certs'',
     ec_UnhealthyMonitoringInterval = 500000000, ec_UseSchedulableDiskSize = False, ec_VolmanDriverPaths = [],
     ec_VolumeMountedFiles = []\<rparr>"

definition sample_env :: "(world, string, string, sample_properties, unit, unit) init_env" where
  "sample_env = \<lparr>ie_Split = (\<lambda>s. Ok []), ie_WORKLOADS_NAMESPACE = ''cf-workloads'', ie_NODE_NAME = ''node'',
     ie_NODE_IP = ''10.0.0.1'',
     ie_manager = \<lparr>ml_NewRequirement = Ok, ml_New = (\<lambda>opts. return_ok ()), ml_GetPodInformer = return_ok ()\<rparr>,
     ie_WaitForCacheSync = (\<lambda>w. (True, w)),
     ie_rest_config = \<lparr>rest_Insecure = False, rest_CAData = [], rest_CAFile = [], rest_Host = []\<rparr>,
     ie_HTTPClientFor = (\<lambda>cfg. return_ok ()), ie_containerd_New = (\<lambda>addr ns. return_ok ()),
     ie_deps = sample_deps, ie_waitForGarden = (\<lambda>c w. Some (Ok (), w)), ie_NewWorkPool = (\<lambda>n. return_ok ()),
     ie_state_key = ''garden.state'', ie_schedule = rev,
     ie_x509 = \<lparr>xl_SystemCertPool = return_ok None, xl_ReadFile = (\<lambda>p. return_ok []),
       xl_AppendCertsFromPEM = (\<lambda>pool s. (pool, True)),
       xl_BuildClient = (\<lambda>crt key pool. return_ok \<lparr>tc_RootCAs = pool, tc_InsecureSkipVerify = False,
         tc_CipherSuites = [], tc_MinVersion = VersionTLS12, tc_Identity = Some (crt, key)\<rparr>)\<rparr>,
     ie_cachedDownloader = (\<lambda>t path n. return_ok ()), ie_RecoverState = return_ok (),
     ie_RemoveAll = (\<lambda>p w. (None, w)), ie_MkdirAll = (\<lambda>p m w. (None, w)),
     ie_ConfigureCapacity = (\<lambda>c m dsk cache over sched. return_ok ()), ie_SplitList = (\<lambda>s. [s]),
     ie_creds = \<lparr>cl_Decode = (\<lambda>s. Some s), cl_ParsePKCS1PrivateKey = (\<lambda>s. Ok ()),
       cl_ParseCertificates = (\<lambda>s. Ok [s])\<rparr>\<rparr>"

lemma continue_call_Ok:
  "call ev m s = (Ok a, s1) \<Longrightarrow> continue_with (returns (call ev m)) f s = f a s1"
  by (simp add: continue_with_def returns_def)

lemma sample_strays:
  assumes "cl_view c = map_of (map (\<lambda>p. (pod_Name p, restored_container p)) [listed_pod (''cf-workloads'', ''old'')])"
    and "executorContainers sample_deps c ''garden.state'' ''executor'' = [restored_container (listed_pod (''cf-workloads'', ''old''))]"
  shows "\<exists>c' w'. destroy_strays sample_env sample_executor_config c (tr, w) =
     Some (Ok c', tr @ [EvDestroyContainers ''executor''], w')"
proof -
  have "cl_view c ''old'' \<noteq> None" by (simp add: assms(1) listed_pod_def)
  then obtain ct where "cl_view c ''old'' = Some ct" by blast
  from sample_destroy [OF this, of w] obtain c' w' where "client_Destroy sample_deps c ''old'' w = Some (Ok (), c', w')"
    by blast
  moreover have "container_Handle (restored_container (listed_pod (''cf-workloads'', ''old'')) :: string container) = ''old''"
    by (simp add: restored_container_def NewContainer_def container_Handle_def listed_pod_def)
  moreover have "ie_deps sample_env = sample_deps" "ie_state_key sample_env = ''garden.state''" "ie_schedule sample_env = rev"
    "ec_ContainerOwnerName sample_executor_config = ''executor''"
    by (simp_all add: sample_env_def sample_executor_config_def)
  ultimately show ?thesis
    by (simp add: destroy_strays_def destroyContainers_def assms(2) destroy_op_def)
qed

lemma sample_restart_owned:
  obtains c where
    "NewClient sample_deps ''node'' ''/certs'' True ''sidecar.tar'' ''cf-workloads'' restored_world =
       (Ok c, restored_world)"
    "cl_view c = map_of (map (\<lambda>p. (pod_Name p, restored_container p)) [listed_pod (''cf-workloads'', ''old'')])"
    "executorContainers sample_deps c ''garden.state'' ''executor'' = [restored_container (listed_pod (''cf-workloads'', ''old''))]"
proof -
  let ?old = "restored_container (listed_pod (''cf-workloads'', ''old'')) :: string container"
  have dist: "distinct (map pod_Name [listed_pod (''cf-workloads'', ''old'')])" by simp
  show thesis
  proof (rule NewClient_Ok [OF sample_property_laws sample_list dist, of "''/certs''" True "''sidecar.tar''"])
    fix c assume c: "NewClient sample_deps ''node'' ''/certs'' True ''sidecar.tar'' ''cf-workloads'' restored_world =
       (Ok c, restored_world)"
      "cl_view c = map_of (map (\<lambda>p. (pod_Name p, restored_container p)) [listed_pod (''cf-workloads'', ''old'')])"
      "cm_wf (cl_containers c)"
      "\<And>h k. pr_Get (d_props sample_deps) (cl_props c) h k = (if k = d_OwnerKey sample_deps
         then map_of (map (\<lambda>p. (pod_Name p, label_or_empty p)) [listed_pod (''cf-workloads'', ''old'')]) h else None)"
    let ?cs = "executorContainers sample_deps c ''garden.state'' ''executor''"
    have name: "pod_Name (listed_pod (''cf-workloads'', ''old'')) = ''old''"
      "label_or_empty (listed_pod (''cf-workloads'', ''old'')) = ''executor''"
      by (simp_all add: listed_pod_def label_or_empty_def)
    have handle: "container_Handle ?old = ''old''"
      by (simp add: restored_container_def NewContainer_def container_Handle_def name)
    have key: "d_OwnerKey sample_deps \<noteq> ''garden.state''" by (simp add: sample_deps_def)
    have "set ?cs = {?old}"
      unfolding executorContainers_set [OF sample_property_laws c(3) refl key] c(2,4)
      by (auto simp: name handle split: if_splits)
    moreover have "length ?cs \<le> length (cm_List (cl_containers c))"
      by (simp add: executorContainers_def Containers_def Let_def)
    moreover have "length (cm_List (cl_containers c)) = 1"
      unfolding cm.length_list [OF c(3)] c(2) by simp
    ultimately have "?cs = [?old]"
      by (cases ?cs) simp_all
    with c(1,2) show thesis by (rule that)
  qed
qed

lemma sample_start_garden:
  assumes c: "NewClient sample_deps ''node'' ''/certs'' True ''sidecar.tar'' ''cf-workloads'' restored_world =
       (Ok c, restored_world)"
  shows "\<exists>tr. start_garden sample_env sample_executor_config ''sidecar.tar'' ([], restored_world) =
     Some (Ok ([], c), tr, restored_world)"
proof -
  have mgr: "start_manager sample_env (tr, w) =
      Some (Ok (), tr @ [EvNewManager ''cf-workloads'', EvManagerStart, EvWaitForCacheSync], w)" for tr w
    by (simp add: start_manager_def continue_with_def or_exit_def returns_def call_def newControllerManager_def
        andthen_def return_ok_def sample_env_def Let_def)
  have client: "make_garden_client sample_env sample_executor_config ''sidecar.tar'' (tr, restored_world) =
      Some (Ok c, tr @ [EvKubeletHTTPClient, EvContainerdNew ''/run/containerd.sock'' ''k8s.io'',
        EvNewClient ''sidecar.tar'' ''cf-workloads''], restored_world)" for tr
    using c
    by (simp add: make_garden_client_def continue_with_def returns_def call_def newKubeletClientFromConfig_def
        andthen_def return_ok_def sample_env_def sample_executor_config_def)
  have env: "ie_Split sample_env x = Ok []" "ie_WORKLOADS_NAMESPACE sample_env = ''cf-workloads''"
    "ie_waitForGarden sample_env c w = Some (Ok (), w)" for x c w
    by (simp_all add: sample_env_def)
  show ?thesis
    by (simp add: start_garden_def continue_with_def returns_def call_def mgr client call_pact_def return_ok_def env)
qed

lemma sample_pool: "make_work_pool sample_env n (tr, w) = Some (Ok (), tr @ [EvNewWorkPool n], w)"
  by (simp add: make_work_pool_def returns_def call_def) (simp add: sample_env_def return_ok_def)

lemma sample_pools: "\<exists>tr'. make_work_pools sample_env sample_executor_config (tr, w) = Some (Ok (), tr', w)"
  by (simp add: make_work_pools_def continue_with_def sample_pool)

lemma sample_downloads:
  "\<exists>tr' up. make_downloads sample_env sample_executor_config (tr, w) = Some (Ok (up, 5), tr', w)"
proof -
  obtain t where "TLSConfigFromConfig (ie_x509 sample_env) sample_executor_config w = (Ok t, w)"
    by (simp add: sample_env_def sample_executor_config_def return_ok_def TLSConfigFromConfig_def SystemCerts_def
        append_if_set_def client_tls_def andthen_def)
  then have "call EvTLSConfig (TLSConfigFromConfig (ie_x509 sample_env) sample_executor_config) (tr, w) =
      (Ok t, tr @ [EvTLSConfig], w)" for tr by (simp add: call_def)
  moreover have "call ev (ie_cachedDownloader sample_env t x y) (tr, w) = (Ok (), tr @ [ev], w)"
    "call ev (ie_RecoverState sample_env) (tr, w) = (Ok (), tr @ [ev], w)"
    for ev :: init_event and t x y tr
    by (simp_all add: call_def sample_env_def return_ok_def)
  moreover have "make_chan (ec_MaxConcurrentDownloads sample_executor_config) = Ok 5"
    by (simp add: sample_executor_config_def make_chan_def)
  ultimately show ?thesis
    by (simp add: make_downloads_def continue_call_Ok) (simp add: continue_with_def sample_pool returns_def return_ok_def)
qed

lemma sample_transformer:
  "\<exists>tf tr'. make_transformer sample_env sample_executor_config ''sidecar.tar'' [] up 5 (tr, w) = Some (Ok tf, tr', w)"
proof -
  have "\<exists>d es. setupWorkDir (ie_RemoveAll sample_env) (ie_MkdirAll sample_env) dir ([], w) = (Ok d, es, w)" for dir
    by (simp add: sample_env_def setupWorkDir_def Let_def call_def)
  then obtain d es where "setupWorkDir (ie_RemoveAll sample_env) (ie_MkdirAll sample_env)
      (ec_TempDir sample_executor_config) ([], w) = (Ok d, es, w)" by blast
  then have "returns (embed EvWorkDir (setupWorkDir (ie_RemoveAll sample_env) (ie_MkdirAll sample_env)
      (ec_TempDir sample_executor_config))) (tr, w) = Some (Ok d, tr @ map EvWorkDir es, w)"
    by (simp add: returns_def embed_def)
  then show ?thesis
    by (simp add: make_transformer_def continue_with_def)
      (simp add: returns_def initializeTransformer_def make_chan_def maxConcurrentUploads_def)
qed

lemma sample_finish:
  "\<exists>ini tr' w'. finish_initialize sample_env sample_executor_config cellID zone c 5 t (tr, w) = Some (Ok ini, tr', w')"
proof -
  have "call ev (fetchCapacity sample_env sample_executor_config c) (tr, w) = (Ok (), tr @ [ev], w)"
    "call ev (CredManagerFromConfig (ie_x509 sample_env) (ie_creds sample_env) sample_executor_config) (tr, w) =
      (Ok NoopCredManager, tr @ [ev], w)" for ev :: init_event and tr w
    by (simp_all add: call_def fetchCapacity_def CredManagerFromConfig_def sample_env_def sample_executor_config_def return_ok_def)
  then show ?thesis
    by (simp add: finish_initialize_def continue_call_Ok) (simp add: returns_def return_ok_def)
qed

lemma sample_Initialize:
  "\<exists>ini tr w. Initialize sample_env sample_executor_config cellID zone ''sidecar.tar'' ([], restored_world) =
     Some (Ok ini, tr, w)"
proof (rule sample_restart_owned)
  fix c
  assume c: "NewClient sample_deps ''node'' ''/certs'' True ''sidecar.tar'' ''cf-workloads'' restored_world =
       (Ok c, restored_world)"
    "cl_view c = map_of (map (\<lambda>p. (pod_Name p, restored_container p)) [listed_pod (''cf-workloads'', ''old'')])"
    "executorContainers sample_deps c ''garden.state'' ''executor'' = [restored_container (listed_pod (''cf-workloads'', ''old''))]"
  obtain tr1 where 1: "start_garden sample_env sample_executor_config ''sidecar.tar'' ([], restored_world) =
      Some (Ok ([], c), tr1, restored_world)" using sample_start_garden [OF c(1)] by blast
  obtain tr2 where 2: "make_work_pools sample_env sample_executor_config (tr1, restored_world) =
      Some (Ok (), tr2, restored_world)" using sample_pools by blast
  obtain c' tr3 w3 where
    3: "destroy_strays sample_env sample_executor_config c (tr2, restored_world) = Some (Ok c', tr3, w3)"
    using sample_strays [OF c(2,3)] by blast
  obtain tr4 up where 4: "make_downloads sample_env sample_executor_config (tr3, w3) = Some (Ok (up, 5), tr4, w3)"
    using sample_downloads by blast
  obtain t tr5 where
    5: "make_transformer sample_env sample_executor_config ''sidecar.tar'' [] up 5 (tr4, w3) = Some (Ok t, tr5, w3)"
    using sample_transformer by blast
  obtain ini tr6 w6 where
    6: "finish_initialize sample_env sample_executor_config cellID zone c' 5 t (tr5, w3) = Some (Ok ini, tr6, w6)"
    using sample_finish by blast
  show ?thesis
    unfolding Initialize_def
    by (simp add: continue_with_def 1 2 3 4 5 6)
qed

theorem initialize_order_witness:
  "\<exists>ini tr w g x y. Initialize sample_env sample_executor_config ''cell-1'' ''z1'' ''sidecar.tar'' ([], restored_world) =
       Some (Ok ini, tr, w) \<and> length tr = 21 \<and>
     completes (initialize_steps sample_env sample_executor_config ''sidecar.tar'') (no_progress, restored_world) (g, w) \<and>
     completes (garden_steps sample_env sample_executor_config ''sidecar.tar'' @ pool_steps sample_env sample_executor_config)
       (no_progress, restored_world) x \<and> strays_destroyed sample_env sample_executor_config x y"
proof -
  obtain ini tr w where 1: "Initialize sample_env sample_executor_config ''cell-1'' ''z1'' ''sidecar.tar'' ([], restored_world) =
       Some (Ok ini, tr, w)" using sample_Initialize by blast
  note all = initialize_order [OF 1]
  from conjunct1 [OF all] obtain g where
    2: "tr = events (initialize_steps sample_env sample_executor_config ''sidecar.tar'')"
      "completes (initialize_steps sample_env sample_executor_config ''sidecar.tar'') (no_progress, restored_world) (g, w)"
    by blast
  from 2(1) have "length tr = 21" "EvCachedDownloader (ec_CachePath sample_executor_config)
      (ec_MaxCacheSizeInBytes sample_executor_config) \<in> set tr"
    by (simp_all add: initialize_steps_events)
  with 1 2(2) conjunct2 [OF conjunct2 [OF all]] show ?thesis by blast
qed

theorem initialize_clears_strays_witness:
  "\<exists>ini s' pods w w'. Initialize sample_env sample_executor_config ''cell-1'' ''z1'' ''sidecar.tar'' ([], restored_world) =
       Some (Ok ini, s') \<and>
     k8s_ListPods (d_k8s sample_deps) ''cf-workloads'' w = (Ok pods, w') \<and>
     dom (cl_view (dep_gardenClient (in_depotClient ini))) =
       pod_Name ` {p \<in> set pods. label_or_empty p \<noteq> ''executor''}"
proof -
  have env: "ie_deps sample_env = sample_deps" "ie_state_key sample_env = ''garden.state''"
    "ie_WORKLOADS_NAMESPACE sample_env = ''cf-workloads''" "ec_ContainerOwnerName sample_executor_config = ''executor''"
    by (simp_all add: sample_env_def sample_executor_config_def)
  have laws: "property_laws (d_props (ie_deps sample_env))" "d_OwnerKey (ie_deps sample_env) \<noteq> ''garden.state''"
    unfolding env(1) by (rule sample_property_laws) (simp add: sample_deps_def)
  have sched: "set (ie_schedule sample_env hs) = set hs" for hs by (simp add: sample_env_def)
  obtain ini s' where 1: "Initialize sample_env sample_executor_config ''cell-1'' ''z1'' ''sidecar.tar'' ([], restored_world) =
       Some (Ok ini, s')" using sample_Initialize by blast
  from initialize_clears_strays [OF 1 laws(1) sched env(2) laws(2)] 1 show ?thesis
    unfolding env by blast
qed

subsection \<open>Which pods the executor can see\<close>

text \<open>C39: The reads of pods go through the manager's cache: of the pods \<open>Create\<close> builds it holds
  exactly those of the watched namespace and node whose spec names an application; the pod of
  a spec without \<open>network.app_id\<close> is never seen running and never restored.\<close>

theorem cache_sees_labelled:
  assumes "newControllerManager lib node_name ns w = (Ok opts, w')"
    and "ml_NewRequirement lib AppGUIDLabelKey = Ok AppGUIDLabelKey"
  shows "mo_NeedLeaderElection opts = False \<and>
     (cache_selects (mo_PodCache opts) (fst (build_pod cfg ok oor intn spec cpu ports img sz w2)) \<longleftrightarrow>
       cfg_workloadsNamespace cfg = ns \<and> node_Name (cfg_node cfg) = node_name \<and>
       gm_has (spec_Properties spec) ''network.app_id'')"
proof -
  have "opts = manager_options_for ns node_name AppGUIDLabelKey"
    using assms by (auto simp: newControllerManager_def andthen_Ok_iff Let_def return_ok_def)
  moreover have "gm_has (podLabels ok (spec_Properties spec)) AppGUIDLabelKey \<longleftrightarrow>
      gm_has (spec_Properties spec) ''network.app_id''"
    by (simp add: gm_has_def map_of_podLabels)
  ultimately show ?thesis
    by (simp add: manager_options_for_def cache_selects_def)
qed

theorem cache_sees_labelled_witness:
  "\<exists>opts. newControllerManager (ie_manager sample_env) ''node'' ''cf-workloads'' sample_world = (Ok opts, sample_world) \<and>
     cache_selects (mo_PodCache opts) (fst (build_pod sample_client_config ''executor:owner'' (\<lambda>_. 0) (\<lambda>n w. (0, w))
       (sample_spec ''h1'' [auto_rule]) (Fin 0) [] ''img'' 0 ())) \<and>
     \<not> cache_selects (mo_PodCache opts) (fst (build_pod sample_client_config ''executor:owner'' (\<lambda>_. 0) (\<lambda>n w. (0, w))
       ((sample_spec ''h1'' [auto_rule])\<lparr>spec_Properties := []\<rparr>) (Fin 0) [] ''img'' 0 ()))"
proof -
  let ?opts = "manager_options_for ''cf-workloads'' ''node'' AppGUIDLabelKey"
  have m: "newControllerManager (ie_manager sample_env) ''node'' ''cf-workloads'' sample_world = (Ok ?opts, sample_world)"
    "ml_NewRequirement (ie_manager sample_env) AppGUIDLabelKey = Ok AppGUIDLabelKey"
    by (simp_all add: sample_env_def newControllerManager_def andthen_def Let_def return_ok_def)
  have "cfg_workloadsNamespace sample_client_config = ''cf-workloads''" "node_Name (cfg_node sample_client_config) = ''node''"
    "gm_has (spec_Properties (sample_spec ''h1'' [auto_rule])) ''network.app_id''"
    "\<not> gm_has (spec_Properties ((sample_spec ''h1'' [auto_rule])\<lparr>spec_Properties := []\<rparr>)) ''network.app_id''"
    by (simp_all add: sample_client_config_def sample_spec_def gm_has_def sample_k8s_def return_ok_def)
  then show ?thesis
    using m(1) by (intro exI [of _ ?opts]) (simp add: cache_sees_labelled [OF m, THEN conjunct2])
qed

subsection \<open>The TLS configuration of the downloads\<close>

lemma tls_config_shape:
  assumes "TLSConfigFromConfig lib config w = (Ok t, w')"
  shows "(ec_PathToTLSKey config = [] \<longleftrightarrow> ec_PathToTLSCert config = []) \<and>
     tc_InsecureSkipVerify t = ec_SkipCertVerify config \<and> tc_CipherSuites t = [] \<and>
     (ec_PathToTLSKey config = [] \<longrightarrow> tc_MinVersion t = VersionTLS12 \<and> tc_Identity t = None)"
  using assms
  by (auto simp: TLSConfigFromConfig_def client_tls_def andthen_Ok_iff return_ok_def return_err_def split: if_splits)

lemma cred_manager_result:
  assumes "ec_InstanceIdentityCredDir config \<noteq> []"
    and "read_key lib cl (ec_InstanceIdentityPrivateKeyPath config) w = (Ok key, w1)"
    and "read_ca lib cl (ec_InstanceIdentityCAPath config) w1 = (Ok certs, w2)"
  shows "CredManagerFromConfig lib cl config w =
     (if sint (ec_InstanceIdentityValidityPeriod config) \<le> 0
      then Err (ErrNew ''instance ID validity period needs to be set and positive'')
      else if certs = [] then Panic index_out_of_range
      else Ok (CredManager (ec_InstanceIdentityValidityPeriod config) (hd certs) key), w2)"
  using assms by (cases certs) (simp_all add: CredManagerFromConfig_def return_err_def index_def)

end
