(* ===== verification/RepStart.thy ===== *)
theory RepStart
  imports RepMain InitProps
begin

section \<open>main of the rep command (cmd/rep/main.go)\<close>

text \<open>
  \<open>main\<close> from the parsing of the configuration to the end of the process group, over the
  decisions of RepMain and the \<open>Initialize\<close> of ExecutorInit. \<open>logger.Fatal\<close> panics; a panic
  after the deferred \<open>Cleanup\<close> has been registered still runs it, \<open>os.Exit\<close> never does.
\<close>

subsection \<open>What the configuration file holds besides\<close>

record rep_setup =
  rs_config :: rep_config
  rs_executor :: executor_config
  rs_PreloadedRootFS :: stack_path_map
  rs_SidecarRootFSPath :: string
  rs_SidecarRootFS :: string
  rs_BBSAddress :: string
  rs_BBSClientSessionCacheSize :: i64
  rs_BBSMaxIdleConnsPerHost :: i64
  rs_CommunicationTimeout :: i64
  rs_CellIndex :: i64
  rs_EvacuationTimeout :: i64
  rs_EvacuationPollingInterval :: i64
  rs_PollingInterval :: i64
  rs_ReportInterval :: i64
  rs_LayeringMode :: string

record bbs_config =
  bbs_URL :: string
  bbs_IsTLS :: bool
  bbs_CAFile :: string
  bbs_CertFile :: string
  bbs_KeyFile :: string
  bbs_ClientSessionCacheSize :: i64
  bbs_MaxIdleConnsPerHost :: i64
  bbs_RequestTimeout :: i64

definition bbs_config_for :: "rep_setup \<Rightarrow> bbs_config" where
  "bbs_config_for rs =
     \<lparr>bbs_URL = rs_BBSAddress rs, bbs_IsTLS = True, bbs_CAFile = rc_CaCertFile (rs_config rs),
      bbs_CertFile = rc_CertFile (rs_config rs), bbs_KeyFile = rc_KeyFile (rs_config rs),
      bbs_ClientSessionCacheSize = rs_BBSClientSessionCacheSize rs,
      bbs_MaxIdleConnsPerHost = rs_BBSMaxIdleConnsPerHost rs,
      bbs_RequestTimeout = rs_CommunicationTimeout rs\<rparr>"

text \<open>The client is the configuration it was made from.\<close>

definition initializeBBSClient :: "(bbs_config \<Rightarrow> goerr option) \<Rightarrow> rep_setup \<Rightarrow> bbs_config res" where
  "initializeBBSClient NewClientWithConfig rs =
     (case NewClientWithConfig (bbs_config_for rs) of
        Some e \<Rightarrow> Panic ''failed-to-configure-secure-BBS-client''
      | None \<Rightarrow> Ok (bbs_config_for rs))"

text \<open>The goroutine that emits the runtime metrics is started only with a client.\<close>

datatype metron_call = EmitterRun

definition initializeMetron :: "'c res \<Rightarrow> 'c res \<times> metron_call list" where
  "initializeMetron newIngressClient =
     (case newIngressClient of
        Ok client \<Rightarrow> (Ok client, [EmitterRun])
      | Err e \<Rightarrow> (Err e, [])
      | Panic p \<Rightarrow> (Panic p, []))"

subsection \<open>The environment of main\<close>

record ('w, 'img, 'task, 'pm, 'cap, 'key) main_env =
  me_init :: "('w, 'img, 'task, 'pm, 'cap, 'key) init_env"
  me_ingress :: "unit res"
  me_walk :: "(string \<times> goerr option) list"
  me_StackVersionList :: "stack_path_map \<Rightarrow> string list"
  me_bbs :: "bbs_config \<Rightarrow> goerr option"
  me_LocalIP :: "string res"
  me_locketErr :: "goerr option"
  me_newGuid :: "string res"
  me_totalResources :: "'cap \<Rightarrow> (i64 \<times> i64 \<times> i64) res"
  me_Marshal :: "cell_presence \<Rightarrow> string res"
  me_tls :: tls_lib

subsection \<open>Up to the executor\<close>

definition override_zone :: "string \<Rightarrow> rep_setup \<Rightarrow> rep_setup" where
  "override_zone zoneOverride rs =
     (if zoneOverride \<noteq> [] then rs\<lparr>rs_config := (rs_config rs)\<lparr>rc_Zone := zoneOverride\<rparr>\<rparr> else rs)"

text \<open>The checks of the configuration: an error exits the process, a panic is \<open>Fatal\<close>.\<close>

definition check_setup :: "('w, 'img, 'task, 'pm, 'cap, 'key) main_env \<Rightarrow> rep_setup \<Rightarrow> unit res" where
  "check_setup env rs =
     (if \<not> fst (Validate (rs_executor rs)) then Panic ''failed-to-configure-executor''
      else if rc_CellID (rs_config rs) = [] then Panic exit_1
      else case fst (initializeMetron (me_ingress env)) of
             Ok client \<Rightarrow> Ok ()
           | Err e \<Rightarrow> Panic exit_1
           | Panic p \<Rightarrow> Panic p)"

definition main_executor ::
  "('w, 'img, 'task, 'pm, 'cap, 'key) main_env \<Rightarrow> rep_setup res \<Rightarrow> string \<Rightarrow>
   ((init_event, 'w) traced, rep_setup \<times> string \<times> rootfs_maps \<times> ('task, 'pm, 'cap, 'key) initialized) pact" where
  "main_executor env newRepConfig zoneOverride =
     (case newRepConfig of
        Err e \<Rightarrow> returns (\<lambda>s. (Panic ''config'', s))
      | Panic p \<Rightarrow> returns (\<lambda>s. (Panic p, s))
      | Ok rs0 \<Rightarrow>
          let rs = override_zone zoneOverride rs0
          in continue_with (returns (\<lambda>s. (check_setup env rs, s))) (\<lambda>_.
               case select_rootfs (rs_SidecarRootFSPath rs) (rs_SidecarRootFS rs) (rs_PreloadedRootFS rs) (me_walk env) of
                 None \<Rightarrow> returns (\<lambda>s. (Panic exit_1, s))
               | Some (sidecarRootFSPath, maps) \<Rightarrow>
                   continue_with (or_exit (Initialize (me_init env) (rs_executor rs) (rc_CellID (rs_config rs))
                       (rc_Zone (rs_config rs)) sidecarRootFSPath))
                     (\<lambda>ini. returns (return_ok (rs, sidecarRootFSPath, maps, ini)))))"

subsection \<open>The services of the cell\<close>

record auction_cell_rep =
  acr_cellID :: string
  acr_cellIndex :: i64
  acr_url :: string
  acr_rootFSMap :: stack_path_map
  acr_statsReporter :: stats_reporter
  acr_supportedProviders :: "string list"
  acr_zone :: string
  acr_placementTags :: "string list"
  acr_optionalPlacementTags :: "string list"
  acr_proxyMemoryAllocationMB :: i64
  acr_enableContainerProxy :: bool

definition make_auction_cell_rep ::
  "rep_setup \<Rightarrow> string \<Rightarrow> stack_path_map \<Rightarrow> stats_reporter \<Rightarrow> auction_cell_rep" where
  "make_auction_cell_rep rs url rootFSMap statsReporter =
     \<lparr>acr_cellID = rc_CellID (rs_config rs), acr_cellIndex = rs_CellIndex rs, acr_url = url,
      acr_rootFSMap = rootFSMap, acr_statsReporter = statsReporter,
      acr_supportedProviders = rc_SupportedProviders (rs_config rs), acr_zone = rc_Zone (rs_config rs),
      acr_placementTags = rc_PlacementTags (rs_config rs),
      acr_optionalPlacementTags = rc_OptionalPlacementTags (rs_config rs),
      acr_proxyMemoryAllocationMB = ec_ProxyMemoryAllocationMB (rs_executor rs),
      acr_enableContainerProxy = ec_EnableContainerProxy (rs_executor rs)\<rparr>"

record op_generator =
  og_cellID :: string
  og_zone :: string
  og_rootFSMap :: stack_path_map
  og_layeringMode :: string

definition make_op_generator :: "rep_setup \<Rightarrow> stack_path_map \<Rightarrow> op_generator" where
  "make_op_generator rs rootFSMap =
     \<lparr>og_cellID = rc_CellID (rs_config rs), og_zone = rc_Zone (rs_config rs), og_rootFSMap = rootFSMap,
      og_layeringMode = rs_LayeringMode rs\<rparr>"

text \<open>The runners of the process group, each with what it is made from.\<close>

datatype rep_runner =
    Presence presence_lock
  | TLSServer string auction_cell_rep
  | EvacuationCleanup string i64 i64
  | Bulker i64 i64 op_generator
  | EventConsumer op_generator
  | Evacuator string i64 i64
  | RequestMetricsNotifier i64 "string list"
  | DebugServer string
  | ExecutorMember init_runner

definition request_types :: "string list" where
  "request_types = [''State'', ''ContainerMetrics'', ''Perform'', ''Reset'', ''UpdateLRPInstance'', ''StopLRPInstance'',
     ''CancelTask'']"

definition evacuator_for :: "rep_setup \<Rightarrow> rep_runner" where
  "evacuator_for rs =
     Evacuator (rc_CellID (rs_config rs)) (rs_EvacuationTimeout rs) (rs_EvacuationPollingInterval rs)"

definition evacuation_cleanup_for :: "rep_setup \<Rightarrow> rep_runner" where
  "evacuation_cleanup_for rs =
     EvacuationCleanup (rc_CellID (rs_config rs)) (ec_GracefulShutdownInterval (rs_executor rs))
       (ec_EnvoyConfigReloadDuration (rs_executor rs))"

definition bulker_for :: "rep_setup \<Rightarrow> op_generator \<Rightarrow> rep_runner" where
  "bulker_for rs opGenerator = Bulker (rs_PollingInterval rs) (rs_EvacuationPollingInterval rs) opGenerator"

definition cell_runners ::
  "rep_setup \<Rightarrow> auction_cell_rep \<Rightarrow> op_generator \<Rightarrow> presence_lock \<Rightarrow> string \<Rightarrow> string \<Rightarrow> (string \<times> rep_runner) list" where
  "cell_runners rs acr opGenerator presence httpAddr httpsAddr =
     [(''presence'', Presence presence), (''http_server'', TLSServer httpAddr acr),
      (''https_server'', TLSServer httpsAddr acr), (''evacuation-cleanup'', evacuation_cleanup_for rs),
      (''bulker'', bulker_for rs opGenerator), (''event-consumer'', EventConsumer opGenerator),
      (''evacuator'', evacuator_for rs),
      (''request-metrics-notifier'', RequestMetricsNotifier (rs_ReportInterval rs) request_types)]"

definition group_runners ::
  "rep_setup \<Rightarrow> (string \<times> init_runner) list \<Rightarrow> (string \<times> rep_runner) list \<Rightarrow> (string \<times> rep_runner) list" where
  "group_runners rs executorMembers cell =
     (let members = map (\<lambda>(n, r). (n, ExecutorMember r)) executorMembers @ cell
      in if rc_DebugAddress (rs_config rs) \<noteq> []
         then (''debug-server'', DebugServer (rc_DebugAddress (rs_config rs))) # members else members)"

record rep_services =
  sv_url :: string
  sv_address :: string
  sv_bbs :: bbs_config
  sv_presence :: presence_lock
  sv_httpAddr :: string
  sv_httpsAddr :: string
  sv_members :: "(string \<times> rep_runner) list"

text \<open>A server that is not built, because the check of its certificate does not return, is \<open>None\<close>.\<close>

definition main_servers :: "tls_lib \<Rightarrow> rep_config \<Rightarrow> (string \<times> string) res option" where
  "main_servers lib config =
     (case initializeServer lib config False of
        None \<Rightarrow> None
      | Some (Err e) \<Rightarrow> Some (Err e)
      | Some (Panic p) \<Rightarrow> Some (Panic p)
      | Some (Ok httpAddr) \<Rightarrow>
          (case initializeServer lib config True of
             None \<Rightarrow> None
           | Some (Err e) \<Rightarrow> Some (Err e)
           | Some (Panic p) \<Rightarrow> Some (Panic p)
           | Some (Ok httpsAddr) \<Rightarrow> Some (Ok (httpAddr, httpsAddr))))"

definition main_presence ::
  "('w, 'img, 'task, 'pm, 'cap, 'key) main_env \<Rightarrow> rep_setup \<Rightarrow> rootfs_maps \<Rightarrow> ('task, 'pm, 'cap, 'key) initialized \<Rightarrow>
   (bbs_config \<times> string \<times> string \<times> presence_lock) res" where
  "main_presence env rs maps ini =
     (case initializeBBSClient (me_bbs env) rs of
        Ok bbs \<Rightarrow>
          (case repURL (ie_NODE_IP (me_init env)) (rs_config rs) of
             Ok url \<Rightarrow>
               (case repAddress (me_LocalIP env) (rs_config rs) of
                  Ok address \<Rightarrow>
                    (case initializeCellPresence (me_locketErr env) (me_newGuid env)
                         (me_totalResources env (dep_totalCapacity (in_depotClient ini))) (me_Marshal env)
                         (rs_config rs) address url (me_StackVersionList env (rm_preloaded maps))
                         (me_StackVersionList env (rm_extra maps)) of
                       Ok presence \<Rightarrow> Ok (bbs, url, address, presence)
                     | Err e \<Rightarrow> Err e
                     | Panic p \<Rightarrow> Panic p)
                | Err e \<Rightarrow> Err e
                | Panic p \<Rightarrow> Panic p)
           | Err e \<Rightarrow> Err e
           | Panic p \<Rightarrow> Panic p)
      | Err e \<Rightarrow> Err e
      | Panic p \<Rightarrow> Panic p)"

definition main_services ::
  "('w, 'img, 'task, 'pm, 'cap, 'key) main_env \<Rightarrow> rep_setup \<Rightarrow> rootfs_maps \<Rightarrow> ('task, 'pm, 'cap, 'key) initialized \<Rightarrow>
   rep_services res option" where
  "main_services env rs maps ini =
     (case main_presence env rs maps ini of
        Err e \<Rightarrow> Some (Err e)
      | Panic p \<Rightarrow> Some (Panic p)
      | Ok (bbs, url, address, presence) \<Rightarrow>
          (case main_servers (me_tls env) (rs_config rs) of
             None \<Rightarrow> None
           | Some (Err e) \<Rightarrow> Some (Err e)
           | Some (Panic p) \<Rightarrow> Some (Panic p)
           | Some (Ok (httpAddr, httpsAddr)) \<Rightarrow>
               Some (Ok \<lparr>sv_url = url, sv_address = address, sv_bbs = bbs, sv_presence = presence,
                         sv_httpAddr = httpAddr, sv_httpsAddr = httpsAddr,
                         sv_members = group_runners rs (in_members ini)
                           (cell_runners rs (make_auction_cell_rep rs url (rm_all maps) (in_statsReporter ini))
                              (make_op_generator rs (rm_all maps)) presence httpAddr httpsAddr)\<rparr>)))"

subsection \<open>The end of main\<close>

datatype main_exit = MainReturned | MainExited nat | MainPanicked string

definition ends_with :: "string \<Rightarrow> main_exit" where
  "ends_with p = (if p = exit_1 then MainExited 1 else MainPanicked p)"

text \<open>
  How the process ends and whether the deferred \<open>Cleanup\<close> of the executor has run, with the
  services that were started, if any. \<open>groupErr\<close> is what the process group ends with.
\<close>

definition rep_main ::
  "('w, 'img, 'task, 'pm, 'cap, 'key) main_env \<Rightarrow> rep_setup res \<Rightarrow> string \<Rightarrow> (rep_services \<Rightarrow> goerr option) \<Rightarrow>
   (init_event, 'w) traced \<Rightarrow> (main_exit \<times> bool \<times> rep_services option \<times> (init_event, 'w) traced) option" where
  "rep_main env newRepConfig zoneOverride groupErr s =
     (case main_executor env newRepConfig zoneOverride s of
        None \<Rightarrow> None
      | Some (Err e, s') \<Rightarrow> Some (ends_with exit_1, False, None, s')
      | Some (Panic p, s') \<Rightarrow> Some (ends_with p, False, None, s')
      | Some (Ok (rs, sidecar, maps, ini), s') \<Rightarrow>
          (case main_services env rs maps ini of
             None \<Rightarrow> None
           | Some (Err e) \<Rightarrow> Some (ends_with exit_1, False, None, s')
           | Some (Panic p) \<Rightarrow> Some (ends_with p, p \<noteq> exit_1, None, s')
           | Some (Ok sv) \<Rightarrow>
               (case groupErr sv of
                  Some e \<Rightarrow> Some (MainExited 1, False, Some sv, s')
                | None \<Rightarrow> Some (MainReturned, True, Some sv, s'))))"

subsection \<open>What main guarantees\<close>

lemma or_exit_Ok_iff: "or_exit m t = Some (Ok a, t') \<longleftrightarrow> m t = Some (Ok a, t')"
  by (auto simp: or_exit_def split: option.splits prod.splits res.splits)

lemma main_executor_Ok:
  assumes "main_executor env newRepConfig zoneOverride s = Some (Ok (rs, sidecar, maps, ini), s')"
  obtains rs0 where "newRepConfig = Ok rs0" "rs = override_zone zoneOverride rs0"
    "check_setup env rs = Ok ()"
    "select_rootfs (rs_SidecarRootFSPath rs) (rs_SidecarRootFS rs) (rs_PreloadedRootFS rs) (me_walk env) =
       Some (sidecar, maps)"
    "Initialize (me_init env) (rs_executor rs) (rc_CellID (rs_config rs)) (rc_Zone (rs_config rs)) sidecar s =
       Some (Ok ini, s')"
  using assms
  by (auto simp: main_executor_def Let_def continue_Ok_iff returns_def return_ok_def or_exit_Ok_iff
      split: res.splits option.splits intro: that)

lemma Validate_override [simp]: "rs_executor (override_zone z rs) = rs_executor rs"
  "rc_CellID (rs_config (override_zone z rs)) = rc_CellID (rs_config rs)"
  "rc_DebugAddress (rs_config (override_zone z rs)) = rc_DebugAddress (rs_config rs)"
  by (simp_all add: override_zone_def)

lemma Initialize_Ok_facts:
  assumes "Initialize env config cellID zone rootfs ([], w) = Some (Ok ini, tr, w')"
  shows "length tr = 21 \<and> map fst (in_members ini) = [''volman-driver-syncer'', ''metrics-reporter'', ''hub-closer'',
     ''container-metrics-reporter'', ''registry-pruner'', ''container-reaper'']"
proof -
  have "length tr = 21"
    using passes_Initialize assms TrueI
    by (cases rule: passesE) (simp_all add: initialize_steps_events)
  moreover from assms obtain c n tf s s' where "finish_initialize env config cellID zone c n tf s = Some (Ok ini, s')"
    unfolding Initialize_def by (auto simp: continue_Ok_iff case_prod_beta)
  then have "in_members ini = executor_members env config zone"
    unfolding finish_initialize_def by (auto simp: continue_Ok_iff returns_def return_ok_def)
  ultimately show ?thesis by (simp add: executor_members_def)
qed

lemma main_services_members:
  "main_services env rs maps ini = Some (Ok sv) \<Longrightarrow>
   map fst (sv_members sv) = group_members (rs_config rs) (map fst (in_members ini))"
  by (auto simp: main_services_def group_runners_def cell_runners_def group_members_def rep_members_def Let_def
      split: res.splits option.splits prod.splits)

lemma rep_main_cases:
  assumes "rep_main env newRepConfig zoneOverride groupErr s = Some (x, cleanup, sv, s')"
  obtains (before) p where "x = ends_with p" "sv = None" "cleanup \<longrightarrow> p \<noteq> exit_1"
  | (started) rs sidecar maps ini svc where "sv = Some svc"
      "main_executor env newRepConfig zoneOverride s = Some (Ok (rs, sidecar, maps, ini), s')"
      "main_services env rs maps ini = Some (Ok svc)"
      "x = (case groupErr svc of None \<Rightarrow> MainReturned | Some e \<Rightarrow> MainExited 1)"
      "cleanup \<longleftrightarrow> groupErr svc = None"
proof -
  from assms obtain r where r: "main_executor env newRepConfig zoneOverride s = Some (r, s')"
    by (auto simp: rep_main_def split: option.splits res.splits prod.splits)
  show thesis
  proof (cases r)
    case (Ok a)
    obtain rs sidecar maps ini where a: "a = (rs, sidecar, maps, ini)" by (metis prod.exhaust)
    obtain sr where sr: "main_services env rs maps ini = Some sr"
      using assms by (cases "main_services env rs maps ini") (auto simp: rep_main_def r Ok a)
    show thesis
    proof (cases sr)
      case svc: (Ok svc)
      with assms r Ok a sr show thesis
        by (intro started [of svc rs sidecar maps ini]) (auto simp: rep_main_def split: option.splits)
    next
      case (Err e)
      with assms r Ok a sr show thesis by (intro before [of exit_1]) (simp_all add: rep_main_def)
    next
      case (Panic p)
      with assms r Ok a sr show thesis by (intro before [of p]) (simp_all add: rep_main_def)
    qed
  next
    case (Err e)
    with assms r show thesis by (intro before [of exit_1]) (simp_all add: rep_main_def)
  next
    case (Panic p)
    with assms r show thesis by (intro before [of p]) (simp_all add: rep_main_def)
  qed
qed

text \<open>C38: The rep command returns normally only when the executor was initialised with every call
  made, the configuration is valid, all services were built and the process group ended
  without an error, and the executor's cleanup has then run; when the process ends with
  \<open>os.Exit\<close> the cleanup has not run. The group starts the executor's members before the
  cell's presence and servers.\<close>

theorem rep_main_ends:
  assumes "rep_main env newRepConfig zoneOverride groupErr ([], w) = Some (x, cleanup, sv, tr, w')"
  shows "(x = MainReturned \<longleftrightarrow> (\<exists>s. sv = Some s \<and> groupErr s = None)) \<and>
     (x = MainReturned \<longrightarrow> cleanup) \<and> ((\<exists>n. x = MainExited n) \<longrightarrow> \<not> cleanup) \<and>
     (\<forall>s. sv = Some s \<longrightarrow> length tr = 21 \<and> (\<exists>rs. newRepConfig = Ok rs \<and> fst (Validate (rs_executor rs)) \<and>
        rc_CellID (rs_config rs) \<noteq> [] \<and>
        map fst (sv_members s) = (if rc_DebugAddress (rs_config rs) \<noteq> [] then [''debug-server''] else []) @
          [''volman-driver-syncer'', ''metrics-reporter'', ''hub-closer'', ''container-metrics-reporter'',
           ''registry-pruner'', ''container-reaper''] @ rep_members))"
  using assms
proof (cases rule: rep_main_cases)
  case (before p)
  then show ?thesis by (auto simp: ends_with_def)
next
  case (started rs sidecar maps ini svc)
  from started(2) obtain rs0 where
    rs: "newRepConfig = Ok rs0" "rs = override_zone zoneOverride rs0" "check_setup env rs = Ok ()"
    and ini: "Initialize (me_init env) (rs_executor rs) (rc_CellID (rs_config rs)) (rc_Zone (rs_config rs)) sidecar ([], w) =
       Some (Ok ini, tr, w')" by (rule main_executor_Ok)
  from rs(3) have "fst (Validate (rs_executor rs0))" "rc_CellID (rs_config rs0) \<noteq> []"
    by (simp_all add: check_setup_def rs(2) split: if_splits)
  moreover have "map fst (sv_members svc) = (if rc_DebugAddress (rs_config rs0) \<noteq> [] then [''debug-server''] else []) @
      map fst (in_members ini) @ rep_members"
    using main_services_members [OF started(3)] by (simp add: group_members_def Let_def rs(2))
  ultimately show ?thesis
    using Initialize_Ok_facts [OF ini] started(1,4,5) rs(1) by (auto split: option.splits)
qed

definition sample_setup :: rep_setup where
  "sample_setup = \<lparr>rs_config = sample_config, rs_executor = sample_executor_config, rs_PreloadedRootFS = [],
     rs_SidecarRootFSPath = ''sidecar.tar'', rs_SidecarRootFS = [], rs_BBSAddress = ''https://bbs:8889'',
     rs_BBSClientSessionCacheSize = 0, rs_BBSMaxIdleConnsPerHost = 0, rs_CommunicationTimeout = 10000000000, rs_CellIndex = 0,
     rs_EvacuationTimeout = 600000000000, rs_EvacuationPollingInterval = 10000000000, rs_PollingInterval = 30000000000,
     rs_ReportInterval = 60000000000, rs_LayeringMode = ''single-layer''\<rparr>"

definition sample_main :: "(world, string, string, sample_properties, unit, unit) main_env" where
  "sample_main = \<lparr>me_init = sample_env, me_ingress = Ok (), me_walk = [], me_StackVersionList = map fst,
     me_bbs = (\<lambda>cfg. None), me_LocalIP = Ok ''10.0.0.1'', me_locketErr = None, me_newGuid = Ok ''guid'',
     me_totalResources = (\<lambda>cap. Ok (1024, 2048, 250)), me_Marshal = (\<lambda>p. Ok ''payload''),
     me_tls = \<lparr>tl_router = (\<lambda>b. None), tl_certFile = Ok ''AB'',
       tl_pem = \<lparr>pem_Decode = (\<lambda>s. (Some s, [])),
         pem_ParseCertificates = (\<lambda>s. Ok [\<lparr>crt_IPAddresses = [[127, 0, 0, 1]]\<rparr>])\<rparr>,
       tl_serverConfig = (\<lambda>c k ca. None)\<rparr>\<rparr>"

lemma sample_servers: "main_servers (me_tls sample_main) sample_config = Some (Ok (''0.0.0.0:1800'', ''0.0.0.0:1801''))"
proof -
  have "verifyCertificate (tl_pem (me_tls sample_main)) (tl_certFile (me_tls sample_main)) = Some (Ok None)"
    by (simp add: verifyCertificate_def sample_main_def pem_blocks.simps check_san_def index_def ip_Equal_loopback)
  then have "initializeServer (me_tls sample_main) sample_config False = Some (Ok (listen_address sample_config False))"
    by (simp add: initializeServer_def Let_def) (simp add: sample_main_def)
  moreover have "initializeServer (me_tls sample_main) sample_config True = Some (Ok (listen_address sample_config True))"
    by (simp add: initializeServer_def Let_def) (simp add: sample_main_def)
  ultimately show ?thesis
    by (simp add: main_servers_def) (simp add: listen_address_def sample_config_def)
qed

lemma sample_presence:
  "\<exists>x. main_presence sample_main sample_setup maps ini = Ok x"
proof -
  have "port_of_address ''0.0.0.0:1800'' = Ok ''1800''" "port_of_address ''0.0.0.0:1801'' = Ok ''1801''"
    using port_of_host_port [of "''0.0.0.0''" "''1800''"] port_of_host_port [of "''0.0.0.0''" "''1801''"] by simp_all
  then show ?thesis
    by (simp add: main_presence_def initializeBBSClient_def repURL_def repAddress_def initializeCellPresence_def
        sample_main_def sample_setup_def sample_config_def)
qed

lemma sample_rep_main:
  "\<exists>sv tr w. rep_main sample_main (Ok sample_setup) [] (\<lambda>s. None) ([], restored_world) =
     Some (MainReturned, True, Some sv, tr, w)"
proof -
  let ?init = "Initialize (me_init sample_main) (rs_executor sample_setup) (rc_CellID (rs_config sample_setup))
     (rc_Zone (rs_config sample_setup)) ''sidecar.tar'' ([], restored_world)"
  have ov: "override_zone [] sample_setup = sample_setup" by (simp add: override_zone_def)
  have valid: "fst (Validate sample_executor_config)"
    by (simp add: Validate_def check_def sample_executor_config_def)
  have chk: "check_setup sample_main sample_setup = Ok ()"
    by (simp add: check_setup_def sample_setup_def valid initializeMetron_def sample_main_def)
      (simp add: sample_config_def)
  have "\<exists>maps. select_rootfs (rs_SidecarRootFSPath sample_setup) (rs_SidecarRootFS sample_setup)
      (rs_PreloadedRootFS sample_setup) (me_walk sample_main) = Some (''sidecar.tar'', maps)"
    by (simp add: select_rootfs_def sample_setup_def sample_main_def default_sidecar_def choose_sidecar_def)
  then obtain maps where sel: "select_rootfs (rs_SidecarRootFSPath sample_setup) (rs_SidecarRootFS sample_setup)
      (rs_PreloadedRootFS sample_setup) (me_walk sample_main) = Some (''sidecar.tar'', maps)" by blast
  have "me_init sample_main = sample_env" "rs_executor sample_setup = sample_executor_config"
    by (simp_all add: sample_main_def sample_setup_def)
  then obtain ini tr w where ini: "?init = Some (Ok ini, tr, w)"
    using sample_Initialize by metis
  have ex: "main_executor sample_main (Ok sample_setup) [] ([], restored_world) =
      Some (Ok (sample_setup, ''sidecar.tar'', maps, ini), tr, w)"
    by (simp add: main_executor_def ov chk sel continue_with_def or_exit_def ini returns_def return_ok_def)
  have "rs_config sample_setup = sample_config" by (simp add: sample_setup_def)
  moreover obtain bbs url address presence where
    "main_presence sample_main sample_setup maps ini = Ok (bbs, url, address, presence)"
    using sample_presence by (metis prod.exhaust)
  ultimately obtain sv where "main_services sample_main sample_setup maps ini = Some (Ok sv)"
    using sample_servers by (simp add: main_services_def)
  with ex show ?thesis by (simp add: rep_main_def)
qed

theorem rep_main_ends_witness:
  "\<exists>sv tr w. rep_main sample_main (Ok sample_setup) [] (\<lambda>s. None) ([], restored_world) =
     Some (MainReturned, True, Some sv, tr, w) \<and> length tr = 21"
proof -
  obtain sv tr w where 1: "rep_main sample_main (Ok sample_setup) [] (\<lambda>s. None) ([], restored_world) =
     Some (MainReturned, True, Some sv, tr, w)" using sample_rep_main by blast
  from rep_main_ends [OF 1] 1 show ?thesis by blast
qed

end
