(* ===== verification/RunProps.thy ===== *)
theory RunProps
  imports ClientProps
begin

section \<open>Running processes in containers\<close>

text \<open>
  From \<open>Create\<close> through the registry to \<open>Run\<close>: what the container that \<open>Create\<close> returns
  holds, which task of the pod a process is started in, when \<open>Run\<close> panics, and what the
  process is given.
\<close>

lemma finish_start_Ok:
  "finish_start d h ct p c w = (Ok x, c', w') \<Longrightarrow>
   \<exists>w1. ctrd_LoadTasks (d_ctrd d) (pod_ContainerStatuses (ct_pod x)) w = (Ok (ct_taskMap x), w1) \<and>
     x = ct\<lparr>ct_pod := p, ct_taskMap := ct_taskMap x\<rparr>"
  by (auto simp: finish_start_def Let_def split: prod.splits res.splits option.splits)

lemma launch_Ok:
  assumes "launch d h p ct c w = Some (Ok x, c', w')"
  shows "\<exists>w1 w2 p'. ctrd_LoadTasks (d_ctrd d) (pod_ContainerStatuses (ct_pod x)) w1 = (Ok (ct_taskMap x), w2) \<and>
     x = ct\<lparr>ct_pod := p', ct_taskMap := ct_taskMap x\<rparr>"
  using assms by (auto simp: launch_def split: prod.splits option.splits res.splits dest!: finish_start_Ok)

text \<open>The container of a successful \<open>Create\<close>: its services are there, and its tasks are the ones
  containerd has loaded for the statuses of its pod.\<close>

lemma create_Ok_container:
  assumes "client_Create d c spec w = Some (Ok ct, nis, c', w')"
  shows "ct_log ct = Impl \<and> ct_userLookupper ct = Impl \<and> ct_nstar ct = Impl \<and>
     (\<exists>dockerEnv. ct_env ct = dockerEnv @ spec_Env spec) \<and>
     (\<exists>w1 w2. ctrd_LoadTasks (d_ctrd d) (pod_ContainerStatuses (ct_pod ct)) w1 = (Ok (ct_taskMap ct), w2))"
proof -
  obtain p ct0 nis1 c1 w1 where prep: "prepare d c spec w = (Ok (p, ct0), nis1, c1, w1)"
    and lau: "launch d (spec_Handle spec) p ct0 c1 w1 = Some (Ok ct, c', w')"
    using assms by (auto simp: client_Create_def split: prod.splits res.splits option.splits)
  obtain env cpu sz where ct0: "ct0 = NewContainer Impl p (env @ spec_Env spec) cpu Impl Impl sz []"
    using prep by (rule prepare_Ok) blast
  from launch_Ok [OF lau] obtain w2 w3 p' where
    "ctrd_LoadTasks (d_ctrd d) (pod_ContainerStatuses (ct_pod ct)) w2 = (Ok (ct_taskMap ct), w3)"
    and ct: "ct = ct0\<lparr>ct_pod := p', ct_taskMap := ct_taskMap ct\<rparr>" by blast
  moreover have "ct_log ct = Impl" "ct_userLookupper ct = Impl" "ct_nstar ct = Impl" "ct_env ct = env @ spec_Env spec"
    by (subst ct, simp add: ct0 NewContainer_def)+
  ultimately show ?thesis by blast
qed

text \<open>C19: In a container that \<open>Create\<close> has returned, \<open>Run\<close> starts a process of the sidecar when
  the spec names an image and of the app otherwise; it panics exactly when the running pod
  reported no status of that name, and otherwise, once the user is found, returns a process of
  that task with the identifier, the arguments, the directory and the environment of its spec.
  In a container restored at the start it always panics.\<close>

theorem who_can_run:
  fixes ops :: "('v, 'task, 'tar, 'stream) container_ops"
  assumes "client_Create d c spec w = Some (Ok ct, nis, c', w')"
    and "task_loader (ctrd_LoadTasks (d_ctrd d))"
  shows "((\<nexists>st. st \<in> set (pod_ContainerStatuses (ct_pod ct)) \<and> cs_Name st = (if ps_ImageURI ps = [] then ''app'' else ''sidecar'')) \<and>
       container_Run ops ct ps v = (Panic nil_dereference, v) \<or>
     (\<exists>st task. st \<in> set (pod_ContainerStatuses (ct_pod ct)) \<and> cs_Name st = (if ps_ImageURI ps = [] then ''app'' else ''sidecar'') \<and>
        map_of (ct_taskMap ct) (cs_Name st) = Some task \<and>
        (case co_Lookup ops (proc_root (co_Pid ops task)) (ps_User ps) v of
           (Err e, v') \<Rightarrow> container_Run ops ct ps v = (Err (ErrorfW ''get user %q: %w'' [ps_User ps] e) :: ('task, 'proc) process res, v')
         | (Panic m, v') \<Rightarrow> container_Run ops ct ps v = (Panic m :: ('task, 'proc) process res, v')
         | (Ok u, v') \<Rightarrow>
             (\<exists>p v''. container_Run ops ct ps v = (Ok p, v'') \<and> process_Task p = task \<and>
                (if ps_ID ps = [] then co_NewUUID ops v' = (process_ID p, v'') else process_ID p = ps_ID ps \<and> v'' = v') \<and>
                oci_Args (process_Spec p) = ps_Path ps # ps_Args ps \<and>
                oci_Cwd (process_Spec p) = (if ps_Dir ps = [] then eu_Home u else ps_Dir ps) \<and>
                oci_Env (process_Spec p) = co_UnixEnvFor ops (base_process ct ps u) ps (eu_Uid u) @ ps_Env ps \<and>
                (\<exists>dockerEnv. oci_Env (base_process ct ps u) = dockerEnv @ spec_Env spec) \<and>
                oci_NoNewPrivileges (process_Spec p) = False \<and> p_process p = (None :: 'proc option))))) \<and>
     container_Run ops (restored_container pd) ps v = (Panic nil_dereference, v)"
proof -
  let ?sts = "pod_ContainerStatuses (ct_pod ct)" and ?n = "target_container ps"
  from create_Ok_container [OF assms(1)] obtain dockerEnv w1 w2 where
    impl: "ct_log ct = Impl" "ct_userLookupper ct = Impl" and env: "ct_env ct = dockerEnv @ spec_Env spec"
    and load: "ctrd_LoadTasks (d_ctrd d) ?sts w1 = (Ok (ct_taskMap ct), w2)" by blast
  note dom = task_loader.loaded_names [OF assms(2) load]
  have restored: "container_Run ops (restored_container pd) ps v = (Panic nil_dereference, v)"
    by (simp add: restored_container_def NewContainer_def container_Run_def)
  have name: "(if ps_ImageURI ps = [] then ''app'' else ''sidecar'') = ?n"
    by (simp add: target_container_def)
  show ?thesis
  proof (cases "map_of (ct_taskMap ct) ?n")
    case None
    then have "?n \<notin> cs_Name ` set ?sts" using dom by blast
    then have "\<nexists>st. st \<in> set ?sts \<and> cs_Name st = ?n" by (metis imageI)
    with None impl restored show ?thesis unfolding name by (simp add: container_Run_def)
  next
    case (Some task)
    then obtain st where st: "st \<in> set ?sts" "cs_Name st = ?n" using dom by (metis domI imageE)
    obtain lr v' where lookup: "co_Lookup ops (proc_root (co_Pid ops task)) (ps_User ps) v = (lr, v')"
      by (metis prod.exhaust)
    obtain pid v'' where pid: "(if ps_ID ps = [] then co_NewUUID ops v' else (ps_ID ps, v')) = (pid, v'')"
      by (metis prod.exhaust)
    have res: "container_Run ops ct ps v = (case lr of
        Err e \<Rightarrow> (Err (ErrorfW ''get user %q: %w'' [ps_User ps] e), v') | Panic m \<Rightarrow> (Panic m, v')
      | Ok u \<Rightarrow> (Ok (NewProcess pid (run_process ops ct ps u) task :: ('task, 'proc) process), v''))"
      using impl Some lookup pid by (auto simp: container_Run_def split: res.split)
    have spec: "oci_Args (run_process ops ct ps u) = ps_Path ps # ps_Args ps"
      "oci_Cwd (run_process ops ct ps u) = (if ps_Dir ps = [] then eu_Home u else ps_Dir ps)"
      "oci_Env (run_process ops ct ps u) = co_UnixEnvFor ops (base_process ct ps u) ps (eu_Uid u) @ ps_Env ps"
      "oci_Env (base_process ct ps u) = dockerEnv @ spec_Env spec"
      "oci_NoNewPrivileges (run_process ops ct ps u) = False" for u
      by (simp_all add: run_process_def base_process_def Let_def env)
    show ?thesis
      using st Some restored lookup pid spec unfolding name
      by (cases lr) (auto simp: res process_Task_def process_ID_def process_Spec_def NewProcess_def
          intro!: exI [of _ st] split: if_splits)
  qed
qed

definition sample_ops :: "(nat, string, string, string) container_ops" where
  "sample_ops = \<lparr>co_Pid = (\<lambda>t. 4711),
     co_Lookup = (\<lambda>rootfs user w. if user = ''vcap'' then (Ok \<lparr>eu_Uid = 2000, eu_Gid = 2000, eu_Home = ''/home/vcap''\<rparr>, w)
        else (Err (ExtErr ''unknown user''), w)),
     co_UnixEnvFor = (\<lambda>base spec uid. oci_Env base @ [''USER=vcap'']),
     co_NewUUID = (\<lambda>w. (dec w, Suc w)),
     co_StreamIn = (\<lambda>pid path user tar w. (None, w)), co_StreamOut = (\<lambda>pid path user. return_ok path)\<rparr>"

definition sample_ps :: process_spec where
  "sample_ps = \<lparr>ps_ID = ''p1'', ps_Path = ''/bin/sh'', ps_Args = [''-c'', ''true''], ps_Dir = [],
     ps_User = ''vcap'', ps_Env = [''A=1''], ps_ImageURI = []\<rparr>"

lemma foldl_put:
  "dom (map_of (foldl (\<lambda>m x. gm_put (k x) (v x) m) m xs)) = dom (map_of m) \<union> k ` set xs"
  "gm_wf m \<Longrightarrow> gm_wf (foldl (\<lambda>m x. gm_put (k x) (v x) m) m xs)"
  by (induction xs arbitrary: m) (auto simp: dom_gm_put simp del: map_of_gm_put)

lemma sample_task_loader: "task_loader (ctrd_LoadTasks (d_ctrd sample_deps))"
proof unfold_locales
  fix sts m and w w' :: world
  assume "ctrd_LoadTasks (d_ctrd sample_deps) sts w = (Ok m, w')"
  then have "m = foldl (\<lambda>m st. gm_put (cs_Name st) (cs_ContainerID st) m) [] sts"
    by (simp add: sample_deps_def sample_ctrd_def return_ok_def)
  then show "dom (map_of m) = cs_Name ` set sts" "gm_wf m"
    by (simp_all add: foldl_put)
qed

lemma sample_launched:
  assumes "launch sample_deps h p ct c w = Some (Ok x, c', w')"
  shows "pod_ContainerStatuses (ct_pod x) = [\<lparr>cs_Name = ''app'', cs_ContainerID = ''containerd://c1''\<rparr>]"
proof -
  have new: "ObjectKey p \<notin> set (wd_pods w)"
    using assms by (auto simp: launch_def sample_deps_def sample_k8s_def)
  let ?w = "w\<lparr>wd_pods := ObjectKey p # wd_pods w\<rparr>"
  let ?p = "p\<lparr>pod_Phase := ''Running'', pod_HostIP := ''10.0.0.1'', pod_PodIP := ''172.16.0.1'',
     pod_ContainerStatuses := [\<lparr>cs_Name = ''app'', cs_ContainerID = ''containerd://c1''\<rparr>]\<rparr>"
  have "k8s_Create (d_k8s sample_deps) p w = ((None, p), ?w)"
    using new by (simp add: sample_deps_def sample_k8s_def)
  moreover have "wait_running (d_k8s sample_deps) clk dl p ?w = Some (Ok (), ?p, ?w)" for clk dl
    by (subst wait_running.simps) (simp add: sample_deps_def sample_k8s_def IgnoreNotFound_def)
  ultimately have "finish_start sample_deps h ct ?p (set_pod h ?p c) ?w = (Ok x, c', w')"
    using assms by (simp add: launch_def)
  from finish_start_Ok [OF this] obtain m where "x = ct\<lparr>ct_pod := ?p, ct_taskMap := m\<rparr>" by blast
  then show ?thesis by simp
qed

lemma sample_created:
  assumes "client_Create sample_deps c spec w = Some (Ok ct, nis, c', w')"
  shows "pod_ContainerStatuses (ct_pod ct) = [\<lparr>cs_Name = ''app'', cs_ContainerID = ''containerd://c1''\<rparr>]"
  using assms sample_launched
  by (auto simp: client_Create_def split: prod.splits res.splits option.splits)

theorem who_can_run_witness:
  "\<exists>ct c w p. client_Create sample_deps sample_client (sample_spec ''h1'' [auto_rule]) sample_world =
       Some (Ok ct, [auto_rule\<lparr>ni_HostPort := 62000\<rparr>], c, w) \<and>
     container_Run sample_ops ct sample_ps 7 = (Ok (p :: (string, unit) process), 7) \<and> process_ID p = ''p1'' \<and>
     oci_Args (process_Spec p) = [''/bin/sh'', ''-c'', ''true''] \<and> oci_Cwd (process_Spec p) = ''/home/vcap'' \<and>
     (\<exists>env. oci_Env (process_Spec p) = env @ [''USER=vcap'', ''A=1''])"
proof (rule sample_first)
  fix ct c
  assume 1: "client_Create sample_deps sample_client (sample_spec ''h1'' [auto_rule]) sample_world =
     Some (Ok ct, [auto_rule\<lparr>ni_HostPort := 62000\<rparr>], c, \<lparr>wd_now = 0, wd_pods = [(''cf-workloads'', ''h1'')]\<rparr>)"
  have ps: "ps_ImageURI sample_ps = []" "ps_User sample_ps = ''vcap''" "ps_ID sample_ps = ''p1''"
    "ps_Path sample_ps = ''/bin/sh''" "ps_Args sample_ps = [''-c'', ''true'']" "ps_Dir sample_ps = []"
    "ps_Env sample_ps = [''A=1'']"
    by (simp_all add: sample_ps_def)
  have ops: "co_Lookup sample_ops rootfs ''vcap'' w = (Ok \<lparr>eu_Uid = 2000, eu_Gid = 2000, eu_Home = ''/home/vcap''\<rparr>, w)"
    "co_UnixEnvFor sample_ops base spec uid = oci_Env base @ [''USER=vcap'']" for rootfs w base spec uid
    by (simp_all add: sample_ops_def)
  from who_can_run [where 'proc = unit, OF 1 sample_task_loader, of sample_ps sample_ops 7, THEN conjunct1]
  obtain p :: "(string, unit) process" where "container_Run sample_ops ct sample_ps 7 = (Ok p, 7)"
    "process_ID p = ''p1''" "oci_Args (process_Spec p) = [''/bin/sh'', ''-c'', ''true'']"
    "oci_Cwd (process_Spec p) = ''/home/vcap''" "\<exists>env. oci_Env (process_Spec p) = env @ [''USER=vcap'', ''A=1'']"
    by (auto simp: sample_created [OF 1] ps ops)
  with 1 show ?thesis by blast
qed

end
