(* ===== verification/Doubles.thy ===== *)
theory Doubles
  imports Prelude
begin

section \<open>Test doubles of an interface (the shape of the fakes packages)\<close>

text \<open>
  The generated fakes under \<open>containerd/containerdfakes\<close> and \<open>kubelet/kubeletfakes\<close> are one
  shape, repeated for each method of an interface: a stub, the arguments of the calls so far,
  the values to return, and one log of all calls. \<open>double\<close> is the part a method owns,
  \<open>fake_method\<close> its six functions on the struct that holds it; the struct is reached through
  the selector and the update function of its field, which is what the locale
  \<open>double_field\<close> asks for. The mutexes make each function one step. A stub that calls the
  double it belongs to is left out.
\<close>

text \<open>
  A method of argument type \<open>'a\<close> and result type \<open>'r\<close>. A nil map of results has no entry.
\<close>

record ('a, 'r, 'w) double =
  db_Stub :: "('a \<Rightarrow> 'w \<Rightarrow> 'r \<times> 'w) option"
  db_ArgsForCall :: "'a list"
  db_Returns :: 'r
  db_ReturnsOnCall :: "(int, 'r) gomap"

definition new_double :: "'r \<Rightarrow> ('a, 'r, 'w) double" where
  "new_double zero = \<lparr>db_Stub = None, db_ArgsForCall = [], db_Returns = zero, db_ReturnsOnCall = []\<rparr>"

text \<open>The log: the arguments of every call, boxed, under the name of the method.\<close>

type_synonym 'v invocations = "(string, 'v list list) gomap"

definition recordInvocation :: "string \<Rightarrow> 'v list \<Rightarrow> 'v invocations \<Rightarrow> 'v invocations" where
  "recordInvocation key args invocations =
     gm_put key ((case map_of invocations key of Some calls \<Rightarrow> calls | None \<Rightarrow> []) @ [args]) invocations"

text \<open>
  \<open>Invocations\<close> copies the map entry by entry; the order of a range over it is open.
\<close>

definition Invocations :: "'v invocations \<Rightarrow> 'v invocations" where
  "Invocations invocations = foldl (\<lambda>copied (key, value). gm_put key value copied) [] invocations"

definition double_call ::
  "'a \<Rightarrow> ('a, 'r, 'w) double \<Rightarrow> 'w \<Rightarrow> 'r \<times> ('a, 'r, 'w) double \<times> 'w" where
  "double_call args m w =
     (let ret = map_of (db_ReturnsOnCall m) (int (length (db_ArgsForCall m)));
          m' = m\<lparr>db_ArgsForCall := db_ArgsForCall m @ [args]\<rparr>
      in case db_Stub m of
           Some stub \<Rightarrow> (case stub args w of (r, w') \<Rightarrow> (r, m', w'))
         | None \<Rightarrow>
             (case ret of
                Some r \<Rightarrow> (r, m', w)
              | None \<Rightarrow> (db_Returns m, m', w)))"

text \<open>The functions a fake has for one method.\<close>

record ('f, 'a, 'r, 'w) fake_ops =
  op_call :: "'a \<Rightarrow> 'f \<Rightarrow> 'w \<Rightarrow> 'r \<times> 'f \<times> 'w"
  op_CallCount :: "'f \<Rightarrow> nat"
  op_Calls :: "('a \<Rightarrow> 'w \<Rightarrow> 'r \<times> 'w) option \<Rightarrow> 'f \<Rightarrow> 'f"
  op_ArgsForCall :: "int \<Rightarrow> 'f \<Rightarrow> 'a res"
  op_Returns :: "'r \<Rightarrow> 'f \<Rightarrow> 'f"
  op_ReturnsOnCall :: "int \<Rightarrow> 'r \<Rightarrow> 'f \<Rightarrow> 'f"

definition fake_method ::
  "('f \<Rightarrow> ('a, 'r, 'w) double) \<Rightarrow> ((('a, 'r, 'w) double \<Rightarrow> ('a, 'r, 'w) double) \<Rightarrow> 'f \<Rightarrow> 'f) \<Rightarrow>
   (('v invocations \<Rightarrow> 'v invocations) \<Rightarrow> 'f \<Rightarrow> 'f) \<Rightarrow> string \<Rightarrow> ('a \<Rightarrow> 'v list) \<Rightarrow> ('f, 'a, 'r, 'w) fake_ops" where
  "fake_method get upd log_upd name box =
     \<lparr>op_call = (\<lambda>args f w.
        (case double_call args (get f) w of
           (r, m, w') \<Rightarrow> (r, log_upd (recordInvocation name (box args)) (upd (\<lambda>_. m) f), w'))),
      op_CallCount = (\<lambda>f. length (db_ArgsForCall (get f))),
      op_Calls = (\<lambda>stub. upd (\<lambda>m. m\<lparr>db_Stub := stub\<rparr>)),
      op_ArgsForCall = (\<lambda>i f.
        if 0 \<le> i \<and> nat i < length (db_ArgsForCall (get f)) then Ok (db_ArgsForCall (get f) ! nat i)
        else Panic index_out_of_range),
      op_Returns = (\<lambda>r. upd (\<lambda>m. m\<lparr>db_Stub := None, db_Returns := r\<rparr>)),
      op_ReturnsOnCall = (\<lambda>i r. upd (\<lambda>m. m\<lparr>db_Stub := None, db_ReturnsOnCall := gm_put i r (db_ReturnsOnCall m)\<rparr>))\<rparr>"

lemmas fake_method_sel =
  fake_method_def [THEN arg_cong [where f = op_call], simplified]
  fake_method_def [THEN arg_cong [where f = op_CallCount], simplified]
  fake_method_def [THEN arg_cong [where f = op_Calls], simplified]
  fake_method_def [THEN arg_cong [where f = op_ArgsForCall], simplified]
  fake_method_def [THEN arg_cong [where f = op_Returns], simplified]
  fake_method_def [THEN arg_cong [where f = op_ReturnsOnCall], simplified]

lemma copy_entries:
  "distinct (map fst kvs) \<Longrightarrow>
   map_of (foldl (\<lambda>copied (key, value). gm_put key value copied) m kvs) = map_of m ++ map_of kvs"
proof (induction kvs arbitrary: m)
  case (Cons kv kvs)
  obtain k v where kv: "kv = (k, v)" by (cases kv)
  with Cons.prems have "k \<notin> dom (map_of kvs)" by (simp add: dom_map_of_conv_image_fst)
  with Cons kv show ?case by (auto simp: fun_eq_iff map_add_def split: option.split)
qed simp

lemma Invocations_eq: "gm_wf invocations \<Longrightarrow> map_of (Invocations invocations) = map_of invocations"
  by (simp add: Invocations_def gm_wf_def copy_entries)

subsection \<open>What one call does\<close>

lemma double_call_records:
  "double_call args m w = (r, m', w') \<Longrightarrow>
     db_ArgsForCall m' = db_ArgsForCall m @ [args] \<and> db_Stub m' = db_Stub m \<and>
     db_Returns m' = db_Returns m \<and> db_ReturnsOnCall m' = db_ReturnsOnCall m"
  by (auto simp: double_call_def Let_def split: option.splits prod.splits)

text \<open>The answer: the stub, else the value for this call, else the value for every call.\<close>

definition answer :: "('a, 'r, 'w) double \<Rightarrow> 'r" where
  "answer m = (case map_of (db_ReturnsOnCall m) (int (length (db_ArgsForCall m))) of
     Some r \<Rightarrow> r | None \<Rightarrow> db_Returns m)"

lemma double_call_eq:
  "db_Stub m = None \<Longrightarrow> double_call args m w = (answer m, m\<lparr>db_ArgsForCall := db_ArgsForCall m @ [args]\<rparr>, w)"
  "db_Stub m = Some stub \<Longrightarrow> double_call args m w =
     (fst (stub args w), m\<lparr>db_ArgsForCall := db_ArgsForCall m @ [args]\<rparr>, snd (stub args w))"
  by (simp_all add: double_call_def answer_def split: option.split prod.split)

subsection \<open>A method inside its struct\<close>

text \<open>
  The laws of a field and the log beside it. \<open>logged\<close>: the log has the recorded arguments of
  the method, boxed, in the order of the calls.
\<close>

locale double_field =
  fixes get :: "'f \<Rightarrow> ('a, 'r, 'w) double"
    and upd :: "(('a, 'r, 'w) double \<Rightarrow> ('a, 'r, 'w) double) \<Rightarrow> 'f \<Rightarrow> 'f"
    and log' :: "'f \<Rightarrow> 'v invocations"
    and log_upd :: "('v invocations \<Rightarrow> 'v invocations) \<Rightarrow> 'f \<Rightarrow> 'f"
    and name :: string
    and box :: "'a \<Rightarrow> 'v list"
  assumes get_upd: "get (upd g f) = g (get f)"
    and log_of_upd: "log' (upd g f) = log' f"
    and get_of_log: "get (log_upd h f) = get f"
    and log_upd: "log' (log_upd h f) = h (log' f)"
begin

lemma call_records:
  assumes "op_call (fake_method get upd log_upd name box) args f w = (r, f', w')"
  shows "db_ArgsForCall (get f') = db_ArgsForCall (get f) @ [args] \<and>
     log' f' = recordInvocation name (box args) (log' f)"
  using assms double_call_records [of args "get f" w]
  by (auto simp: fake_method_sel get_upd log_of_upd get_of_log log_upd split: prod.splits)

lemma set_up_records_nothing:
  assumes "f' = op_Calls (fake_method get upd log_upd name box) stub f \<or>
     f' = op_Returns (fake_method get upd log_upd name box) r f \<or>
     f' = op_ReturnsOnCall (fake_method get upd log_upd name box) i r f"
  shows "db_ArgsForCall (get f') = db_ArgsForCall (get f) \<and> log' f' = log' f"
  using assms by (auto simp: fake_method_sel get_upd log_of_upd)

end

end
