(* ===== verification/Fakes.thy ===== *)
theory Fakes
  imports Doubles Garden Kubelet Process
begin

section \<open>The generated fakes (containerdfakes, kubeletfakes)\<close>

text \<open>
  The fakes of the containerd client, an image, a process and a task, and of the kubelet client.
  Each struct holds a double per method of its interface and the log of the calls; the functions
  of a method are the six of \<open>fake_method\<close> on its field. A value of a type of another package
  (a context, an option, a stream, an image) is of the type variable \<open>'x\<close>; a result that is an
  interface, a pointer or a channel and may be nil is an option of it, and the zero value of a struct of
  another package is named by its type. \<open>any_arg\<close> is an argument as the log keeps it.
\<close>

datatype 'x any_arg =
    ArgExt 'x | ArgExts "'x list" | ArgString string | ArgStrings "string list" | ArgUint32 u32
  | ArgSignal nat | ArgStatuses "container_status list" | ArgSpec oci_process

subsection \<open>The kubelet client\<close>

record ('x, 'w) fake_kubelet =
  fk_GetMetrics :: "('x \<times> string list, (string, container_metrics) gomap \<times> goerr option, 'w) double"
  fk_invocations :: "'x any_arg invocations"

definition new_fake_kubelet :: "('x, 'w) fake_kubelet" where
  "new_fake_kubelet =
     \<lparr>fk_GetMetrics = new_double ([], None),
      fk_invocations = []\<rparr>"

definition FakeKubelet_GetMetrics ::
  "(('x, 'w) fake_kubelet, 'x \<times> string list, (string, container_metrics) gomap \<times> goerr option, 'w) fake_ops" where
  "FakeKubelet_GetMetrics = fake_method fk_GetMetrics fk_GetMetrics_update fk_invocations_update ''GetMetrics''
     (\<lambda>(arg1, arg2). [ArgExt arg1, ArgStrings arg2])"

subsection \<open>The containerd client\<close>

record ('x, 'w) fake_client =
  fc_Delete :: "('x \<times> 'x, goerr option, 'w) double"
  fc_IsServing :: "('x, bool \<times> goerr option, 'w) double"
  fc_LoadTasks :: "('x \<times> container_status list, (string, 'x) gomap \<times> goerr option, 'w) double"
  fc_Pull :: "('x \<times> string \<times> string \<times> string, 'x option \<times> i64 \<times> goerr option, 'w) double"
  fc_invocations :: "'x any_arg invocations"

definition new_fake_client :: "('x, 'w) fake_client" where
  "new_fake_client =
     \<lparr>fc_Delete = new_double None,
      fc_IsServing = new_double (False, None),
      fc_LoadTasks = new_double ([], None),
      fc_Pull = new_double (None, 0, None),
      fc_invocations = []\<rparr>"

definition FakeClient_Delete ::
  "(('x, 'w) fake_client, 'x \<times> 'x, goerr option, 'w) fake_ops" where
  "FakeClient_Delete = fake_method fc_Delete fc_Delete_update fc_invocations_update ''Delete''
     (\<lambda>(arg1, arg2). [ArgExt arg1, ArgExt arg2])"

definition FakeClient_IsServing ::
  "(('x, 'w) fake_client, 'x, bool \<times> goerr option, 'w) fake_ops" where
  "FakeClient_IsServing = fake_method fc_IsServing fc_IsServing_update fc_invocations_update ''IsServing''
     (\<lambda>arg1. [ArgExt arg1])"

definition FakeClient_LoadTasks ::
  "(('x, 'w) fake_client, 'x \<times> container_status list, (string, 'x) gomap \<times> goerr option, 'w) fake_ops" where
  "FakeClient_LoadTasks = fake_method fc_LoadTasks fc_LoadTasks_update fc_invocations_update ''LoadTasks''
     (\<lambda>(arg1, arg2). [ArgExt arg1, ArgStatuses arg2])"

definition FakeClient_Pull ::
  "(('x, 'w) fake_client, 'x \<times> string \<times> string \<times> string, 'x option \<times> i64 \<times> goerr option, 'w) fake_ops" where
  "FakeClient_Pull = fake_method fc_Pull fc_Pull_update fc_invocations_update ''Pull''
     (\<lambda>(arg1, arg2, arg3, arg4). [ArgExt arg1, ArgString arg2, ArgString arg3, ArgString arg4])"

subsection \<open>An image\<close>

record ('x, 'w) fake_image =
  fi_Config :: "('x, 'x \<times> goerr option, 'w) double"
  fi_ContentStore :: "(unit, 'x option, 'w) double"
  fi_IsUnpacked :: "('x \<times> string, bool \<times> goerr option, 'w) double"
  fi_Labels :: "(unit, (string, string) gomap, 'w) double"
  fi_Metadata :: "(unit, 'x, 'w) double"
  fi_Name :: "(unit, string, 'w) double"
  fi_Platform :: "(unit, 'x option, 'w) double"
  fi_RootFS :: "('x, string list \<times> goerr option, 'w) double"
  fi_Size :: "('x, i64 \<times> goerr option, 'w) double"
  fi_Spec :: "('x, 'x \<times> goerr option, 'w) double"
  fi_Target :: "(unit, 'x, 'w) double"
  fi_Unpack :: "('x \<times> string \<times> 'x list, goerr option, 'w) double"
  fi_Usage :: "('x \<times> 'x list, i64 \<times> goerr option, 'w) double"
  fi_invocations :: "'x any_arg invocations"

definition new_fake_image :: "(string \<Rightarrow> 'x) \<Rightarrow> ('x, 'w) fake_image" where
  "new_fake_image zero =
     \<lparr>fi_Config = new_double (zero ''v1.Descriptor'', None),
      fi_ContentStore = new_double None,
      fi_IsUnpacked = new_double (False, None),
      fi_Labels = new_double [],
      fi_Metadata = new_double (zero ''images.Image''),
      fi_Name = new_double [],
      fi_Platform = new_double None,
      fi_RootFS = new_double ([], None),
      fi_Size = new_double (0, None),
      fi_Spec = new_double (zero ''v1.Image'', None),
      fi_Target = new_double (zero ''v1.Descriptor''),
      fi_Unpack = new_double None,
      fi_Usage = new_double (0, None),
      fi_invocations = []\<rparr>"

definition FakeImage_Config ::
  "(('x, 'w) fake_image, 'x, 'x \<times> goerr option, 'w) fake_ops" where
  "FakeImage_Config = fake_method fi_Config fi_Config_update fi_invocations_update ''Config''
     (\<lambda>arg1. [ArgExt arg1])"

definition FakeImage_ContentStore ::
  "(('x, 'w) fake_image, unit, 'x option, 'w) fake_ops" where
  "FakeImage_ContentStore = fake_method fi_ContentStore fi_ContentStore_update fi_invocations_update ''ContentStore''
     (\<lambda>_. [])"

definition FakeImage_IsUnpacked ::
  "(('x, 'w) fake_image, 'x \<times> string, bool \<times> goerr option, 'w) fake_ops" where
  "FakeImage_IsUnpacked = fake_method fi_IsUnpacked fi_IsUnpacked_update fi_invocations_update ''IsUnpacked''
     (\<lambda>(arg1, arg2). [ArgExt arg1, ArgString arg2])"

definition FakeImage_Labels ::
  "(('x, 'w) fake_image, unit, (string, string) gomap, 'w) fake_ops" where
  "FakeImage_Labels = fake_method fi_Labels fi_Labels_update fi_invocations_update ''Labels''
     (\<lambda>_. [])"

definition FakeImage_Metadata ::
  "(('x, 'w) fake_image, unit, 'x, 'w) fake_ops" where
  "FakeImage_Metadata = fake_method fi_Metadata fi_Metadata_update fi_invocations_update ''Metadata''
     (\<lambda>_. [])"

definition FakeImage_Name ::
  "(('x, 'w) fake_image, unit, string, 'w) fake_ops" where
  "FakeImage_Name = fake_method fi_Name fi_Name_update fi_invocations_update ''Name''
     (\<lambda>_. [])"

definition FakeImage_Platform ::
  "(('x, 'w) fake_image, unit, 'x option, 'w) fake_ops" where
  "FakeImage_Platform = fake_method fi_Platform fi_Platform_update fi_invocations_update ''Platform''
     (\<lambda>_. [])"

definition FakeImage_RootFS ::
  "(('x, 'w) fake_image, 'x, string list \<times> goerr option, 'w) fake_ops" where
  "FakeImage_RootFS = fake_method fi_RootFS fi_RootFS_update fi_invocations_update ''RootFS''
     (\<lambda>arg1. [ArgExt arg1])"

definition FakeImage_Size ::
  "(('x, 'w) fake_image, 'x, i64 \<times> goerr option, 'w) fake_ops" where
  "FakeImage_Size = fake_method fi_Size fi_Size_update fi_invocations_update ''Size''
     (\<lambda>arg1. [ArgExt arg1])"

definition FakeImage_Spec ::
  "(('x, 'w) fake_image, 'x, 'x \<times> goerr option, 'w) fake_ops" where
  "FakeImage_Spec = fake_method fi_Spec fi_Spec_update fi_invocations_update ''Spec''
     (\<lambda>arg1. [ArgExt arg1])"

definition FakeImage_Target ::
  "(('x, 'w) fake_image, unit, 'x, 'w) fake_ops" where
  "FakeImage_Target = fake_method fi_Target fi_Target_update fi_invocations_update ''Target''
     (\<lambda>_. [])"

definition FakeImage_Unpack ::
  "(('x, 'w) fake_image, 'x \<times> string \<times> 'x list, goerr option, 'w) fake_ops" where
  "FakeImage_Unpack = fake_method fi_Unpack fi_Unpack_update fi_invocations_update ''Unpack''
     (\<lambda>(arg1, arg2, arg3). [ArgExt arg1, ArgString arg2, ArgExts arg3])"

definition FakeImage_Usage ::
  "(('x, 'w) fake_image, 'x \<times> 'x list, i64 \<times> goerr option, 'w) fake_ops" where
  "FakeImage_Usage = fake_method fi_Usage fi_Usage_update fi_invocations_update ''Usage''
     (\<lambda>(arg1, arg2). [ArgExt arg1, ArgExts arg2])"

subsection \<open>A process\<close>

record ('x, 'w) fake_process =
  fp_CloseIO :: "('x \<times> 'x list, goerr option, 'w) double"
  fp_Delete :: "('x \<times> 'x list, 'x option \<times> goerr option, 'w) double"
  fp_ID :: "(unit, string, 'w) double"
  fp_IO :: "(unit, 'x option, 'w) double"
  fp_Kill :: "('x \<times> nat \<times> 'x list, goerr option, 'w) double"
  fp_Pid :: "(unit, u32, 'w) double"
  fp_Resize :: "('x \<times> u32 \<times> u32, goerr option, 'w) double"
  fp_Start :: "('x, goerr option, 'w) double"
  fp_Status :: "('x, 'x \<times> goerr option, 'w) double"
  fp_Wait :: "('x, 'x option \<times> goerr option, 'w) double"
  fp_invocations :: "'x any_arg invocations"

definition new_fake_process :: "(string \<Rightarrow> 'x) \<Rightarrow> ('x, 'w) fake_process" where
  "new_fake_process zero =
     \<lparr>fp_CloseIO = new_double None,
      fp_Delete = new_double (None, None),
      fp_ID = new_double [],
      fp_IO = new_double None,
      fp_Kill = new_double None,
      fp_Pid = new_double 0,
      fp_Resize = new_double None,
      fp_Start = new_double None,
      fp_Status = new_double (zero ''client.Status'', None),
      fp_Wait = new_double (None, None),
      fp_invocations = []\<rparr>"

definition FakeProcess_CloseIO ::
  "(('x, 'w) fake_process, 'x \<times> 'x list, goerr option, 'w) fake_ops" where
  "FakeProcess_CloseIO = fake_method fp_CloseIO fp_CloseIO_update fp_invocations_update ''CloseIO''
     (\<lambda>(arg1, arg2). [ArgExt arg1, ArgExts arg2])"

definition FakeProcess_Delete ::
  "(('x, 'w) fake_process, 'x \<times> 'x list, 'x option \<times> goerr option, 'w) fake_ops" where
  "FakeProcess_Delete = fake_method fp_Delete fp_Delete_update fp_invocations_update ''Delete''
     (\<lambda>(arg1, arg2). [ArgExt arg1, ArgExts arg2])"

definition FakeProcess_ID ::
  "(('x, 'w) fake_process, unit, string, 'w) fake_ops" where
  "FakeProcess_ID = fake_method fp_ID fp_ID_update fp_invocations_update ''ID''
     (\<lambda>_. [])"

definition FakeProcess_IO ::
  "(('x, 'w) fake_process, unit, 'x option, 'w) fake_ops" where
  "FakeProcess_IO = fake_method fp_IO fp_IO_update fp_invocations_update ''IO''
     (\<lambda>_. [])"

definition FakeProcess_Kill ::
  "(('x, 'w) fake_process, 'x \<times> nat \<times> 'x list, goerr option, 'w) fake_ops" where
  "FakeProcess_Kill = fake_method fp_Kill fp_Kill_update fp_invocations_update ''Kill''
     (\<lambda>(arg1, arg2, arg3). [ArgExt arg1, ArgSignal arg2, ArgExts arg3])"

definition FakeProcess_Pid ::
  "(('x, 'w) fake_process, unit, u32, 'w) fake_ops" where
  "FakeProcess_Pid = fake_method fp_Pid fp_Pid_update fp_invocations_update ''Pid''
     (\<lambda>_. [])"

definition FakeProcess_Resize ::
  "(('x, 'w) fake_process, 'x \<times> u32 \<times> u32, goerr option, 'w) fake_ops" where
  "FakeProcess_Resize = fake_method fp_Resize fp_Resize_update fp_invocations_update ''Resize''
     (\<lambda>(arg1, arg2, arg3). [ArgExt arg1, ArgUint32 arg2, ArgUint32 arg3])"

definition FakeProcess_Start ::
  "(('x, 'w) fake_process, 'x, goerr option, 'w) fake_ops" where
  "FakeProcess_Start = fake_method fp_Start fp_Start_update fp_invocations_update ''Start''
     (\<lambda>arg1. [ArgExt arg1])"

definition FakeProcess_Status ::
  "(('x, 'w) fake_process, 'x, 'x \<times> goerr option, 'w) fake_ops" where
  "FakeProcess_Status = fake_method fp_Status fp_Status_update fp_invocations_update ''Status''
     (\<lambda>arg1. [ArgExt arg1])"

definition FakeProcess_Wait ::
  "(('x, 'w) fake_process, 'x, 'x option \<times> goerr option, 'w) fake_ops" where
  "FakeProcess_Wait = fake_method fp_Wait fp_Wait_update fp_invocations_update ''Wait''
     (\<lambda>arg1. [ArgExt arg1])"

subsection \<open>A task\<close>

record ('x, 'w) fake_task =
  ft_Checkpoint :: "('x \<times> 'x list, 'x option \<times> goerr option, 'w) double"
  ft_CloseIO :: "('x \<times> 'x list, goerr option, 'w) double"
  ft_Delete :: "('x \<times> 'x list, 'x option \<times> goerr option, 'w) double"
  ft_Exec :: "('x \<times> string \<times> oci_process \<times> 'x, 'x option \<times> goerr option, 'w) double"
  ft_ID :: "(unit, string, 'w) double"
  ft_IO :: "(unit, 'x option, 'w) double"
  ft_Kill :: "('x \<times> nat \<times> 'x list, goerr option, 'w) double"
  ft_LoadProcess :: "('x \<times> string \<times> 'x, 'x option \<times> goerr option, 'w) double"
  ft_Metrics :: "('x, 'x option \<times> goerr option, 'w) double"
  ft_Pause :: "('x, goerr option, 'w) double"
  ft_Pid :: "(unit, u32, 'w) double"
  ft_Pids :: "('x, 'x list \<times> goerr option, 'w) double"
  ft_Resize :: "('x \<times> u32 \<times> u32, goerr option, 'w) double"
  ft_Resume :: "('x, goerr option, 'w) double"
  ft_Spec :: "('x, 'x option \<times> goerr option, 'w) double"
  ft_Start :: "('x, goerr option, 'w) double"
  ft_Status :: "('x, 'x \<times> goerr option, 'w) double"
  ft_Update :: "('x \<times> 'x list, goerr option, 'w) double"
  ft_Wait :: "('x, 'x option \<times> goerr option, 'w) double"
  ft_invocations :: "'x any_arg invocations"

definition new_fake_task :: "(string \<Rightarrow> 'x) \<Rightarrow> ('x, 'w) fake_task" where
  "new_fake_task zero =
     \<lparr>ft_Checkpoint = new_double (None, None),
      ft_CloseIO = new_double None,
      ft_Delete = new_double (None, None),
      ft_Exec = new_double (None, None),
      ft_ID = new_double [],
      ft_IO = new_double None,
      ft_Kill = new_double None,
      ft_LoadProcess = new_double (None, None),
      ft_Metrics = new_double (None, None),
      ft_Pause = new_double None,
      ft_Pid = new_double 0,
      ft_Pids = new_double ([], None),
      ft_Resize = new_double None,
      ft_Resume = new_double None,
      ft_Spec = new_double (None, None),
      ft_Start = new_double None,
      ft_Status = new_double (zero ''client.Status'', None),
      ft_Update = new_double None,
      ft_Wait = new_double (None, None),
      ft_invocations = []\<rparr>"

definition FakeTask_Checkpoint ::
  "(('x, 'w) fake_task, 'x \<times> 'x list, 'x option \<times> goerr option, 'w) fake_ops" where
  "FakeTask_Checkpoint = fake_method ft_Checkpoint ft_Checkpoint_update ft_invocations_update ''Checkpoint''
     (\<lambda>(arg1, arg2). [ArgExt arg1, ArgExts arg2])"

definition FakeTask_CloseIO ::
  "(('x, 'w) fake_task, 'x \<times> 'x list, goerr option, 'w) fake_ops" where
  "FakeTask_CloseIO = fake_method ft_CloseIO ft_CloseIO_update ft_invocations_update ''CloseIO''
     (\<lambda>(arg1, arg2). [ArgExt arg1, ArgExts arg2])"

definition FakeTask_Delete ::
  "(('x, 'w) fake_task, 'x \<times> 'x list, 'x option \<times> goerr option, 'w) fake_ops" where
  "FakeTask_Delete = fake_method ft_Delete ft_Delete_update ft_invocations_update ''Delete''
     (\<lambda>(arg1, arg2). [ArgExt arg1, ArgExts arg2])"

definition FakeTask_Exec ::
  "(('x, 'w) fake_task, 'x \<times> string \<times> oci_process \<times> 'x, 'x option \<times> goerr option, 'w) fake_ops" where
  "FakeTask_Exec = fake_method ft_Exec ft_Exec_update ft_invocations_update ''Exec''
     (\<lambda>(arg1, arg2, arg3, arg4). [ArgExt arg1, ArgString arg2, ArgSpec arg3, ArgExt arg4])"

definition FakeTask_ID ::
  "(('x, 'w) fake_task, unit, string, 'w) fake_ops" where
  "FakeTask_ID = fake_method ft_ID ft_ID_update ft_invocations_update ''ID''
     (\<lambda>_. [])"

definition FakeTask_IO ::
  "(('x, 'w) fake_task, unit, 'x option, 'w) fake_ops" where
  "FakeTask_IO = fake_method ft_IO ft_IO_update ft_invocations_update ''IO''
     (\<lambda>_. [])"

definition FakeTask_Kill ::
  "(('x, 'w) fake_task, 'x \<times> nat \<times> 'x list, goerr option, 'w) fake_ops" where
  "FakeTask_Kill = fake_method ft_Kill ft_Kill_update ft_invocations_update ''Kill''
     (\<lambda>(arg1, arg2, arg3). [ArgExt arg1, ArgSignal arg2, ArgExts arg3])"

definition FakeTask_LoadProcess ::
  "(('x, 'w) fake_task, 'x \<times> string \<times> 'x, 'x option \<times> goerr option, 'w) fake_ops" where
  "FakeTask_LoadProcess = fake_method ft_LoadProcess ft_LoadProcess_update ft_invocations_update ''LoadProcess''
     (\<lambda>(arg1, arg2, arg3). [ArgExt arg1, ArgString arg2, ArgExt arg3])"

definition FakeTask_Metrics ::
  "(('x, 'w) fake_task, 'x, 'x option \<times> goerr option, 'w) fake_ops" where
  "FakeTask_Metrics = fake_method ft_Metrics ft_Metrics_update ft_invocations_update ''Metrics''
     (\<lambda>arg1. [ArgExt arg1])"

definition FakeTask_Pause ::
  "(('x, 'w) fake_task, 'x, goerr option, 'w) fake_ops" where
  "FakeTask_Pause = fake_method ft_Pause ft_Pause_update ft_invocations_update ''Pause''
     (\<lambda>arg1. [ArgExt arg1])"

definition FakeTask_Pid ::
  "(('x, 'w) fake_task, unit, u32, 'w) fake_ops" where
  "FakeTask_Pid = fake_method ft_Pid ft_Pid_update ft_invocations_update ''Pid''
     (\<lambda>_. [])"

definition FakeTask_Pids ::
  "(('x, 'w) fake_task, 'x, 'x list \<times> goerr option, 'w) fake_ops" where
  "FakeTask_Pids = fake_method ft_Pids ft_Pids_update ft_invocations_update ''Pids''
     (\<lambda>arg1. [ArgExt arg1])"

definition FakeTask_Resize ::
  "(('x, 'w) fake_task, 'x \<times> u32 \<times> u32, goerr option, 'w) fake_ops" where
  "FakeTask_Resize = fake_method ft_Resize ft_Resize_update ft_invocations_update ''Resize''
     (\<lambda>(arg1, arg2, arg3). [ArgExt arg1, ArgUint32 arg2, ArgUint32 arg3])"

definition FakeTask_Resume ::
  "(('x, 'w) fake_task, 'x, goerr option, 'w) fake_ops" where
  "FakeTask_Resume = fake_method ft_Resume ft_Resume_update ft_invocations_update ''Resume''
     (\<lambda>arg1. [ArgExt arg1])"

definition FakeTask_Spec ::
  "(('x, 'w) fake_task, 'x, 'x option \<times> goerr option, 'w) fake_ops" where
  "FakeTask_Spec = fake_method ft_Spec ft_Spec_update ft_invocations_update ''Spec''
     (\<lambda>arg1. [ArgExt arg1])"

definition FakeTask_Start ::
  "(('x, 'w) fake_task, 'x, goerr option, 'w) fake_ops" where
  "FakeTask_Start = fake_method ft_Start ft_Start_update ft_invocations_update ''Start''
     (\<lambda>arg1. [ArgExt arg1])"

definition FakeTask_Status ::
  "(('x, 'w) fake_task, 'x, 'x \<times> goerr option, 'w) fake_ops" where
  "FakeTask_Status = fake_method ft_Status ft_Status_update ft_invocations_update ''Status''
     (\<lambda>arg1. [ArgExt arg1])"

definition FakeTask_Update ::
  "(('x, 'w) fake_task, 'x \<times> 'x list, goerr option, 'w) fake_ops" where
  "FakeTask_Update = fake_method ft_Update ft_Update_update ft_invocations_update ''Update''
     (\<lambda>(arg1, arg2). [ArgExt arg1, ArgExts arg2])"

definition FakeTask_Wait ::
  "(('x, 'w) fake_task, 'x, 'x option \<times> goerr option, 'w) fake_ops" where
  "FakeTask_Wait = fake_method ft_Wait ft_Wait_update ft_invocations_update ''Wait''
     (\<lambda>arg1. [ArgExt arg1])"

lemmas fake_methods =
  FakeKubelet_GetMetrics_def
  FakeClient_Delete_def FakeClient_IsServing_def FakeClient_LoadTasks_def FakeClient_Pull_def
  FakeImage_Config_def FakeImage_ContentStore_def FakeImage_IsUnpacked_def FakeImage_Labels_def FakeImage_Metadata_def FakeImage_Name_def FakeImage_Platform_def FakeImage_RootFS_def FakeImage_Size_def FakeImage_Spec_def FakeImage_Target_def FakeImage_Unpack_def FakeImage_Usage_def
  FakeProcess_CloseIO_def FakeProcess_Delete_def FakeProcess_ID_def FakeProcess_IO_def FakeProcess_Kill_def FakeProcess_Pid_def FakeProcess_Resize_def FakeProcess_Start_def FakeProcess_Status_def FakeProcess_Wait_def
  FakeTask_Checkpoint_def FakeTask_CloseIO_def FakeTask_Delete_def FakeTask_Exec_def FakeTask_ID_def FakeTask_IO_def FakeTask_Kill_def FakeTask_LoadProcess_def FakeTask_Metrics_def FakeTask_Pause_def FakeTask_Pid_def FakeTask_Pids_def FakeTask_Resize_def FakeTask_Resume_def FakeTask_Spec_def FakeTask_Start_def FakeTask_Status_def FakeTask_Update_def FakeTask_Wait_def

end
