(* ===== verification/FakeProps.thy ===== *)
theory FakeProps
  imports Fakes
begin

section \<open>What a test can rely on\<close>

text \<open>
  Every history of a fake keeps its log and the arguments of its methods in step.
\<close>

subsection \<open>One step of a method\<close>

inductive method_step :: "('f, 'a, 'r, 'w) fake_ops \<Rightarrow> 'f \<Rightarrow> 'f \<Rightarrow> bool"
  for ops :: "('f, 'a, 'r, 'w) fake_ops"
where
  called: "op_call ops args f w = (r, f', w') \<Longrightarrow> method_step ops f f'"
| stubbed: "method_step ops f (op_Calls ops stub f)"
| returning: "method_step ops f (op_Returns ops r f)"
| returning_on: "method_step ops f (op_ReturnsOnCall ops i r f)"

lemma method_stepE:
  assumes "method_step (fake_method get upd log_upd name box) f f'"
  obtains (called) args m where "db_ArgsForCall m = db_ArgsForCall (get f) @ [args]"
      "f' = log_upd (recordInvocation name (box args)) (upd (\<lambda>_. m) f)"
  | (set_up) g where "f' = upd g f" "\<And>m. db_ArgsForCall (g m) = db_ArgsForCall m"
  using assms
proof (cases rule: method_step.cases)
  case (called args w r w')
  obtain m where "double_call args (get f) w = (r, m, w')"
    "f' = log_upd (recordInvocation name (box args)) (upd (\<lambda>_. m) f)"
    using called by (auto simp: fake_method_sel split: prod.splits)
  then show thesis using that(1) double_call_records by metis
qed (use that(2) in \<open>auto simp: fake_method_sel\<close>)

text \<open>The log has the arguments of the calls of a method, or no entry for a method never called.\<close>

definition log_matches :: "string \<Rightarrow> ('a \<Rightarrow> 'v list) \<Rightarrow> 'a list \<Rightarrow> 'v invocations \<Rightarrow> bool" where
  "log_matches name box calls invocations \<longleftrightarrow>
     map_of invocations name = (if calls = [] then None else Some (map box calls))"

lemma log_matches_new [simp]: "log_matches name box [] []"
  by (simp add: log_matches_def)

lemma log_matches_call [simp]:
  "log_matches name box calls lg \<Longrightarrow> x = box args \<Longrightarrow>
   log_matches name box (calls @ [args]) (recordInvocation name x lg)"
  by (auto simp: log_matches_def recordInvocation_def)

lemma log_matches_other [simp]:
  "name \<noteq> name' \<Longrightarrow>
   log_matches name' box calls (recordInvocation name x lg) \<longleftrightarrow> log_matches name' box calls lg"
  by (simp add: log_matches_def recordInvocation_def)

lemma recordInvocation_wf [simp]: "gm_wf lg \<Longrightarrow> gm_wf (recordInvocation name x lg)"
  by (simp add: recordInvocation_def)

subsection \<open>The fake of a process\<close>

interpretation kill: double_field fp_Kill fp_Kill_update fp_invocations fp_invocations_update "''Kill''"
    "\<lambda>(arg1, arg2, arg3). [ArgExt arg1, ArgSignal arg2, ArgExts arg3]"
  by unfold_locales simp_all

definition fake_process_step :: "('x, 'w) fake_process \<Rightarrow> ('x, 'w) fake_process \<Rightarrow> bool" where
  "fake_process_step f f' \<longleftrightarrow>
     method_step FakeProcess_CloseIO f f' \<or> method_step FakeProcess_Delete f f' \<or>
     method_step FakeProcess_ID f f' \<or> method_step FakeProcess_IO f f' \<or>
     method_step FakeProcess_Kill f f' \<or> method_step FakeProcess_Pid f f' \<or>
     method_step FakeProcess_Resize f f' \<or> method_step FakeProcess_Start f f' \<or>
     method_step FakeProcess_Status f f' \<or> method_step FakeProcess_Wait f f'"

definition fake_process_logged :: "('x, 'w) fake_process \<Rightarrow> 'x any_arg invocations \<Rightarrow> bool" where
  "fake_process_logged f lg \<longleftrightarrow>
     log_matches ''CloseIO'' (\<lambda>(ctx, opts). [ArgExt ctx, ArgExts opts]) (db_ArgsForCall (fp_CloseIO f)) lg \<and>
     log_matches ''Delete'' (\<lambda>(ctx, opts). [ArgExt ctx, ArgExts opts]) (db_ArgsForCall (fp_Delete f)) lg \<and>
     log_matches ''ID'' (\<lambda>_. []) (db_ArgsForCall (fp_ID f)) lg \<and>
     log_matches ''IO'' (\<lambda>_. []) (db_ArgsForCall (fp_IO f)) lg \<and>
     log_matches ''Kill'' (\<lambda>(ctx, sig, opts). [ArgExt ctx, ArgSignal sig, ArgExts opts])
       (db_ArgsForCall (fp_Kill f)) lg \<and>
     log_matches ''Pid'' (\<lambda>_. []) (db_ArgsForCall (fp_Pid f)) lg \<and>
     log_matches ''Resize'' (\<lambda>(ctx, w, h). [ArgExt ctx, ArgUint32 w, ArgUint32 h]) (db_ArgsForCall (fp_Resize f)) lg \<and>
     log_matches ''Start'' (\<lambda>ctx. [ArgExt ctx]) (db_ArgsForCall (fp_Start f)) lg \<and>
     log_matches ''Status'' (\<lambda>ctx. [ArgExt ctx]) (db_ArgsForCall (fp_Status f)) lg \<and>
     log_matches ''Wait'' (\<lambda>ctx. [ArgExt ctx]) (db_ArgsForCall (fp_Wait f)) lg"

lemma fake_process_step_logged:
  assumes "fake_process_step f f'" "fake_process_logged f (fp_invocations f)" "gm_wf (fp_invocations f)"
  shows "fake_process_logged f' (fp_invocations f') \<and> gm_wf (fp_invocations f')"
  using assms(1) unfolding fake_process_step_def fake_methods
  by (elim disjE method_stepE) (use assms(2,3) in \<open>simp_all add: fake_process_logged_def\<close>)

lemma fake_process_run_logged:
  assumes "fake_process_step\<^sup>*\<^sup>* (new_fake_process zero) f"
  shows "fake_process_logged f (fp_invocations f) \<and> gm_wf (fp_invocations f)"
  using assms
proof (induction rule: rtranclp_induct)
  case base
  show ?case by (simp add: new_fake_process_def new_double_def fake_process_logged_def)
next
  case (step f f')
  then show ?case using fake_process_step_logged by blast
qed

text \<open>Whatever a test does with a fake process, in any order: what \<open>Invocations\<close> returns has for
  each method the arguments of its calls, one entry per call in their order.\<close>

theorem fake_process_log:
  assumes "fake_process_step\<^sup>*\<^sup>* (new_fake_process zero) f"
  shows "fake_process_logged f (Invocations (fp_invocations f))"
  using fake_process_run_logged [OF assms]
  by (simp add: fake_process_logged_def log_matches_def Invocations_eq)

end
