(* ===== verification/Concurrent.thy ===== *)
theory Concurrent
  imports Sample
begin

section \<open>Calls of Create and Destroy side by side\<close>

text \<open>
  The garden server runs every request in a goroutine of its own, so calls of \<open>Create\<close> and
  \<open>Destroy\<close> on one client interleave. Only the methods of the registry, the port allocator and
  the property manager are atomic, each under its own mutex. Here a call is a thread with a
  program counter (\<open>call_pc\<close>), and \<open>conc_step\<close> lets one thread make one such access.
  \<open>exclusive\<close> says that the caller does not destroy a handle while another call destroys it.

  The writes of a starting \<open>Create\<close> to its pod (which the API server fills in) and to its tasks
  go through the pointer in the registry; they are taken as any write that keeps name and ports
  of the pod, at any time.
  These steps are more than the code can do: what they exclude, no interleaving does. What one
  call does exactly, with its polling, the loading of its tasks and its last property, is
  \<open>call_step\<close> in CallSteps.
\<close>

datatype 'task call_pc =
    Choosing container_spec "net_in list" "container_port list"
  | Setting container_spec pod "'task container" garden_properties
  | Starting string
  | Deleting string "'task container"
  | Releasing string "u32 list"
  | Clearing string

type_synonym 'task calls = "nat \<Rightarrow> 'task call_pc option"

type_synonym ('w, 'task, 'pm) conc = "('task, 'pm) client \<times> 'task calls \<times> 'w"

text \<open>The handle a call is destroying.\<close>

fun pc_destroys :: "'task call_pc \<Rightarrow> string option" where
  "pc_destroys (Deleting h ct) = Some h"
| "pc_destroys (Releasing h qs) = Some h"
| "pc_destroys pc = None"

definition destroying :: "'task calls \<Rightarrow> string \<Rightarrow> nat set" where
  "destroying T h = {t. \<exists>pc. T t = Some pc \<and> pc_destroys pc = Some h}"

text \<open>The steps of \<open>Create\<close> come first, from the look-up of the handle to the end of the start.\<close>

inductive conc_step ::
  "('w, 'img, 'task, 'pm) deps \<Rightarrow> (container_spec \<Rightarrow> bool) \<Rightarrow> bool \<Rightarrow>
   ('w, 'task, 'pm) conc \<Rightarrow> ('w, 'task, 'pm) conc \<Rightarrow> bool"
  for d :: "('w, 'img, 'task, 'pm) deps" and ok :: "container_spec \<Rightarrow> bool" and exclusive :: bool
where
  create_begins: "T t = None \<Longrightarrow> ok spec \<Longrightarrow> \<not> cm_Exists (spec_Handle spec) (cl_containers c) \<Longrightarrow>
     conc_step d ok exclusive (c, T, w) (c, T(t \<mapsto> Choosing spec (spec_NetIn spec) []), w)"
| port_named: "T t = Some (Choosing spec (ni # nis) ports) \<Longrightarrow> ni_HostPort ni \<noteq> 0 \<Longrightarrow>
     conc_step d ok exclusive (c, T, w)
       (c, T(t \<mapsto> Choosing spec nis (ports @ [container_port_of ni (ni_HostPort ni)])), w)"
| port_chosen: "T t = Some (Choosing spec (ni # nis) ports) \<Longrightarrow> ni_HostPort ni = 0 \<Longrightarrow>
     pm_Next (cl_ports c) = (Ok port, pm) \<Longrightarrow>
     conc_step d ok exclusive (c, T, w)
       (c\<lparr>cl_ports := pm\<rparr>, T(t \<mapsto> Choosing spec nis (ports @ [container_port_of ni port])), w)"
| no_port: "T t = Some (Choosing spec (ni # nis) ports) \<Longrightarrow> ni_HostPort ni = 0 \<Longrightarrow>
     pm_Next (cl_ports c) = (Err e, pm) \<Longrightarrow>
     conc_step d ok exclusive (c, T, w) (c\<lparr>cl_ports := pm\<rparr>, T(t := None), w)"
| image_failed: "T t = Some (Choosing spec [] ports) \<Longrightarrow> resolve_image d spec w = (r, w') \<Longrightarrow>
     \<forall>x. r \<noteq> Ok x \<Longrightarrow> conc_step d ok exclusive (c, T, w) (c, T(t := None), w')"
| pod_built: "T t = Some (Choosing spec [] ports) \<Longrightarrow>
     resolve_image d spec w = (Ok (img, env, sz), w0) \<Longrightarrow>
     build_pod (cl_config c) (d_OwnerKey d) (d_IntOutOfRange d) (d_IntN d) spec
       (cpu_assignment (cl_config c) spec) ports img sz w0 = (p, w') \<Longrightarrow>
     conc_step d ok exclusive (c, T, w)
       (c, T(t \<mapsto> Setting spec p (NewContainer Impl p (env @ spec_Env spec)
          (cpu_assignment (cl_config c) spec) Impl Impl sz []) (spec_Properties spec)), w')"
| property_set: "T t = Some (Setting spec p ct ((k, v) # ps)) \<Longrightarrow>
     conc_step d ok exclusive (c, T, w)
       (c\<lparr>cl_props := pr_Set (d_props d) (cl_props c) (pod_Name p) k v\<rparr>, T(t \<mapsto> Setting spec p ct ps), w)"
| added: "T t = Some (Setting spec p ct []) \<Longrightarrow>
     cm_Add (spec_Handle spec) ct (cl_containers c) = (None, cm) \<Longrightarrow>
     conc_step d ok exclusive (c, T, w)
       (c\<lparr>cl_containers := cm\<rparr>, T(t \<mapsto> Starting (spec_Handle spec)), w)"
| not_added: "T t = Some (Setting spec p ct []) \<Longrightarrow>
     cm_Add (spec_Handle spec) ct (cl_containers c) = (Some e, cm) \<Longrightarrow>
     conc_step d ok exclusive (c, T, w) (c\<lparr>cl_containers := cm\<rparr>, T(t := None), w)"
| pod_written: "T t = Some (Starting h) \<Longrightarrow> cl_view c h = Some ct \<Longrightarrow> same_claims (ct_pod ct) p \<Longrightarrow>
     conc_step d ok exclusive (c, T, w) (set_pod h p c, T, w)"
| tasks_written: "T t = Some (Starting h) \<Longrightarrow>
     conc_step d ok exclusive (c, T, w) (set_tasks h m c, T, w)"
| create_ends: "T t = Some (Starting h) \<Longrightarrow> conc_step d ok exclusive (c, T, w) (c, T(t := None), w)"
| destroy_begins: "T t = None \<Longrightarrow> cm_Get h (cl_containers c) = Ok ct \<Longrightarrow>
     exclusive \<longrightarrow> destroying T h = {} \<Longrightarrow>
     conc_step d ok exclusive (c, T, w) (c, T(t \<mapsto> Deleting h ct), w)"
| not_deleted: "T t = Some (Deleting h ct) \<Longrightarrow> same_claims (ct_pod ct) p \<Longrightarrow>
     deletePod (d_k8s d) (d_clock d) p w = Some (Some e, w') \<Longrightarrow>
     conc_step d ok exclusive (c, T, w) (c, T(t := None), w')"
| deleted: "T t = Some (Deleting h ct) \<Longrightarrow> same_claims (ct_pod ct) p \<Longrightarrow>
     deletePod (d_k8s d) (d_clock d) p w = Some (None, w') \<Longrightarrow>
     conc_step d ok exclusive (c, T, w) (c, T(t \<mapsto> Releasing h (pod_host_ports p)), w')"
| port_released: "T t = Some (Releasing h (q # qs)) \<Longrightarrow>
     conc_step d ok exclusive (c, T, w)
       (c\<lparr>cl_ports := pm_Release q (cl_ports c)\<rparr>, T(t \<mapsto> Releasing h qs), w)"
| removed: "T t = Some (Releasing h []) \<Longrightarrow>
     conc_step d ok exclusive (c, T, w)
       (c\<lparr>cl_containers := cm_Remove h (cl_containers c)\<rparr>, T(t \<mapsto> Clearing h), w)"
| properties_cleared: "T t = Some (Clearing h) \<Longrightarrow>
     conc_step d ok exclusive (c, T, w)
       (c\<lparr>cl_props := snd (pr_DestroyKeySpace (d_props d) (cl_props c) h)\<rparr>, T(t := None), w)"
| other_properties: "conc_step d ok exclusive (c, T, w) (c\<lparr>cl_props := pm\<rparr>, T, w)"
| other_world: "conc_step d ok exclusive (c, T, w) (c, T, w')"

abbreviation conc_run ::
  "('w, 'img, 'task, 'pm) deps \<Rightarrow> (container_spec \<Rightarrow> bool) \<Rightarrow> bool \<Rightarrow>
   ('w, 'task, 'pm) conc \<Rightarrow> ('w, 'task, 'pm) conc \<Rightarrow> bool" where
  "conc_run d ok exclusive \<equiv> (conc_step d ok exclusive)\<^sup>*\<^sup>*"

text \<open>The client before any call.\<close>

abbreviation idle :: "'task calls" where
  "idle \<equiv> \<lambda>_. None"

subsection \<open>Who holds a port\<close>

text \<open>
  A port that is taken is held by the container registered under a handle or by a call that has
  chosen it and not yet registered its container, or not yet released it. \<open>shares_ok\<close>: no port
  has two holders. Its four laws are what the calls do with ports.
\<close>

datatype holder = Registered string | Call nat

definition shares_ok :: "('h \<Rightarrow> u32 list) \<Rightarrow> u32 set \<Rightarrow> bool" where
  "shares_ok f pool \<longleftrightarrow> (\<forall>x. distinct (f x) \<and> set (f x) \<subseteq> pool) \<and>
     (\<forall>x y. x \<noteq> y \<longrightarrow> set (f x) \<inter> set (f y) = {})"

lemma shares_okD:
  assumes "shares_ok f pool"
  shows "distinct (f x)" "set (f x) \<subseteq> pool" "x \<noteq> y \<Longrightarrow> set (f x) \<inter> set (f y) = {}"
  using assms by (simp_all add: shares_ok_def)

lemma shares_chosen:
  assumes "shares_ok f pool" "q \<notin> pool"
  shows "shares_ok (f(x := f x @ [q])) (insert q pool)"
proof -
  have "q \<notin> set (f y)" for y using shares_okD(2) [OF assms(1), of y] assms(2) by blast
  with assms(1) show ?thesis by (auto simp: shares_ok_def)
qed

lemma shares_moved:
  "shares_ok f pool \<Longrightarrow> x \<noteq> y \<Longrightarrow> f y = [] \<Longrightarrow> shares_ok (f(x := [], y := f x)) pool"
  by (auto simp: shares_ok_def)

lemma shares_released:
  assumes "shares_ok f pool" "f x = q # qs"
  shows "shares_ok (f(x := qs)) (pool - {q})"
proof -
  have q: "q \<notin> set qs" "set (f x) = insert q (set qs)" "distinct qs" "set qs \<subseteq> pool"
    using shares_okD(1,2) [OF assms(1), of x] assms(2) by simp_all
  have y: "q \<notin> set (f y)" "set qs \<inter> set (f y) = {}" if "y \<noteq> x" for y
    using shares_okD(3) [OF assms(1), of x y] that q(2) by auto
  then have "set (f y) \<subseteq> pool - {q}" if "y \<noteq> x" for y
    using that shares_okD(2) [OF assms(1), of y] by blast
  with q y assms(1) show ?thesis
    unfolding shares_ok_def by (auto simp: Int_commute)
qed

lemma shares_dropped: "shares_ok f pool \<Longrightarrow> shares_ok (f(x := [])) pool"
  by (auto simp: shares_ok_def)

fun pc_ports :: "'task call_pc \<Rightarrow> u32 list" where
  "pc_ports (Choosing spec nis ports) = map cp_HostPort ports"
| "pc_ports (Setting spec p ct ps) = pod_host_ports p"
| "pc_ports (Releasing h qs) = qs"
| "pc_ports pc = []"

text \<open>A handle whose pod is gone and whose ports a call is giving back.\<close>

definition being_released :: "'task calls \<Rightarrow> string \<Rightarrow> bool" where
  "being_released T h \<longleftrightarrow> (\<exists>t qs. T t = Some (Releasing h qs))"

definition claim_list :: "('task, 'pm) client \<Rightarrow> string \<Rightarrow> u32 list" where
  "claim_list c h = (case cl_view c h of None \<Rightarrow> [] | Some ct \<Rightarrow> pod_host_ports (ct_pod ct))"

fun holding :: "('task, 'pm) client \<Rightarrow> 'task calls \<Rightarrow> holder \<Rightarrow> u32 list" where
  "holding c T (Registered h) = (if being_released T h then [] else claim_list c h)"
| "holding c T (Call t) = (case T t of None \<Rightarrow> [] | Some pc \<Rightarrow> pc_ports pc)"

text \<open>What each program counter says of the client.\<close>

fun pc_ok :: "('task, 'pm) client \<Rightarrow> 'task call_pc \<Rightarrow> bool" where
  "pc_ok c (Choosing spec nis ports) = list_all (\<lambda>ni. ni_HostPort ni = 0) nis"
| "pc_ok c (Setting spec p ct ps) = (ct_pod ct = p)"
| "pc_ok c (Deleting h ct) = (\<exists>ct'. cl_view c h = Some ct' \<and> same_claims (ct_pod ct) (ct_pod ct'))"
| "pc_ok c (Releasing h qs) = (cl_view c h \<noteq> None)"
| "pc_ok c pc = True"

definition conc_inv :: "('task, 'pm) client \<Rightarrow> 'task calls \<Rightarrow> bool" where
  "conc_inv c T \<longleftrightarrow>
     shares_ok (holding c T) (cl_held c) \<and> cl_held c \<subseteq> port_window \<and>
     (\<forall>t pc. T t = Some pc \<longrightarrow> pc_ok c pc) \<and>
     (\<forall>h t u. t \<in> destroying T h \<longrightarrow> u \<in> destroying T h \<longrightarrow> t = u)"

subsection \<open>The invariant, step by step\<close>

text \<open>What a step of one call may do to the entries that other calls are destroying.\<close>

definition kept_at :: "('task, 'pm) client \<Rightarrow> ('task, 'pm) client \<Rightarrow> string \<Rightarrow> bool" where
  "kept_at c c' h \<longleftrightarrow> (\<forall>ct. cl_view c h = Some ct \<longrightarrow>
     (\<exists>ct'. cl_view c' h = Some ct' \<and> same_claims (ct_pod ct) (ct_pod ct')))"

lemma kept_at_same: "cl_view c' h = cl_view c h \<Longrightarrow> kept_at c c' h"
  by (simp add: kept_at_def)

lemma pc_ok_kept:
  "pc_ok c pc \<Longrightarrow> (\<And>h. pc_destroys pc = Some h \<Longrightarrow> kept_at c c' h) \<Longrightarrow> pc_ok c' pc"
  by (cases pc) (fastforce simp: kept_at_def intro: same_claims_trans)+

lemma same_claims_ports: "same_claims p p' \<Longrightarrow> pod_host_ports p' = pod_host_ports p"
  by (simp add: same_claims_def pod_host_ports_def)

lemma conc_invD:
  assumes "conc_inv c T"
  shows "shares_ok (holding c T) (cl_held c)" "cl_held c \<subseteq> port_window"
    and "T t = Some pc \<Longrightarrow> pc_ok c pc"
    and "t \<in> destroying T h \<Longrightarrow> u \<in> destroying T h \<Longrightarrow> t = u"
  using assms unfolding conc_inv_def by blast+

lemma destroying_upd:
  "destroying (T(t := x)) h = (if \<exists>pc. x = Some pc \<and> pc_destroys pc = Some h
     then insert t (destroying T h) else destroying T h - {t})"
  by (auto simp: destroying_def)

lemma conc_inv_step:
  assumes inv: "conc_inv c T"
    and shares: "shares_ok (holding c' (T(t := x))) (cl_held c')" "cl_held c' \<subseteq> port_window"
    and kept: "\<And>u h. u \<noteq> t \<Longrightarrow> u \<in> destroying T h \<Longrightarrow> kept_at c c' h"
    and here: "\<And>pc. x = Some pc \<Longrightarrow> pc_ok c' pc"
    and alone: "\<And>pc h. x = Some pc \<Longrightarrow> pc_destroys pc = Some h \<Longrightarrow> destroying T h \<subseteq> {t}"
  shows "conc_inv c' (T(t := x))"
  unfolding conc_inv_def
proof (intro conjI allI impI shares)
  fix u pc assume u: "(T(t := x)) u = Some pc"
  show "pc_ok c' pc"
  proof (cases "u = t")
    case False
    with u have "T u = Some pc" by simp
    moreover have "kept_at c c' h" if "pc_destroys pc = Some h" for h
      using kept [OF False, of h] calculation that by (auto simp: destroying_def)
    ultimately show ?thesis using conc_invD(3) [OF inv] pc_ok_kept by blast
  qed (use u here in simp)
next
  fix h u v assume "u \<in> destroying (T(t := x)) h" "v \<in> destroying (T(t := x)) h"
  then show "u = v"
    using conc_invD(4) [OF inv, of u h v] alone [of _ h] by (auto simp: destroying_upd split: if_splits)
qed

text \<open>How a step changes what is held.\<close>

fun pc_releases :: "'task call_pc option \<Rightarrow> string option" where
  "pc_releases (Some (Releasing h qs)) = Some h"
| "pc_releases pc = None"

lemma being_released_iff: "being_released T h \<longleftrightarrow> (\<exists>t. pc_releases (T t) = Some h)"
proof -
  have "pc_releases x = Some h \<longleftrightarrow> (\<exists>qs. x = Some (Releasing h qs))" for x :: "'a call_pc option"
    by (cases x rule: pc_releases.cases) auto
  then show ?thesis by (simp add: being_released_def)
qed

lemma being_released_upd:
  "being_released (T(t := x)) h \<longleftrightarrow> pc_releases x = Some h \<or> (\<exists>u. u \<noteq> t \<and> pc_releases (T u) = Some h)"
  by (auto simp: being_released_iff)

lemma being_released_new:
  assumes "pc_releases (T t) = None"
  shows "being_released (T(t := x)) h \<longleftrightarrow> pc_releases x = Some h \<or> being_released T h"
proof -
  have "(\<exists>u. u \<noteq> t \<and> pc_releases (T u) = Some h) \<longleftrightarrow> being_released T h"
    unfolding being_released_iff using assms by (metis option.distinct(1))
  then show ?thesis by (simp add: being_released_upd)
qed

lemma releases_destroys: "pc_releases (T t) = Some h \<Longrightarrow> t \<in> destroying T h"
  by (cases "T t" rule: pc_releases.cases) (auto simp: destroying_def)

lemma holding_upd:
  assumes "pc_releases x = pc_releases (T t)" "claim_list c' = claim_list c"
  shows "holding c' (T(t := x)) =
     (holding c T)(Call t := (case x of None \<Rightarrow> [] | Some pc \<Rightarrow> pc_ports pc))"
proof
  have "being_released (T(t := x)) h = being_released T h" for h
    using assms(1) by (auto simp: being_released_iff)
  then show "holding c' (T(t := x)) y =
      ((holding c T)(Call t := (case x of None \<Rightarrow> [] | Some pc \<Rightarrow> pc_ports pc))) y" for y
    using assms(2) by (cases y) auto
qed

lemma holding_added:
  assumes "T t = Some (Setting spec p ct [])" "\<not> being_released T h"
    and "cl_view c' = (cl_view c)(h \<mapsto> ct)" "ct_pod ct = p"
  shows "holding c' (T(t \<mapsto> Starting h)) =
     (holding c T)(Call t := [], Registered h := holding c T (Call t))"
proof
  have "being_released (T(t \<mapsto> Starting h)) x = being_released T x" for x
    using assms(1) by (simp add: being_released_new)
  then show "holding c' (T(t \<mapsto> Starting h)) y =
      ((holding c T)(Call t := [], Registered h := holding c T (Call t))) y" for y
    using assms by (cases y) (auto simp: claim_list_def)
qed

lemma holding_deleted:
  assumes "T t = Some (Deleting h ct)" "\<not> being_released T h" "pod_host_ports p = claim_list c h"
  shows "holding c (T(t \<mapsto> Releasing h (pod_host_ports p))) =
     (holding c T)(Registered h := [], Call t := holding c T (Registered h))"
proof
  have "being_released (T(t \<mapsto> Releasing h qs)) x \<longleftrightarrow> x = h \<or> being_released T x" for x qs
    using assms(1) by (auto simp: being_released_new)
  then show "holding c (T(t \<mapsto> Releasing h (pod_host_ports p))) y =
      ((holding c T)(Registered h := [], Call t := holding c T (Registered h))) y" for y
    using assms by (cases y) auto
qed

lemma holding_removed:
  assumes "T t = Some (Releasing h [])" "cl_view c' = (cl_view c)(h := None)"
    and "\<And>u. u \<noteq> t \<Longrightarrow> pc_releases (T u) \<noteq> Some h"
  shows "holding c' (T(t \<mapsto> Clearing h)) = holding c T"
proof
  have "(\<exists>u. u \<noteq> t \<and> pc_releases (T u) = Some x) \<longleftrightarrow> x \<noteq> h \<and> being_released T x" for x
  proof (cases "x = h")
    case False
    then have "pc_releases (T t) \<noteq> Some x" by (simp add: assms(1))
    with False show ?thesis unfolding being_released_iff by metis
  qed (use assms(3) in blast)
  then have "being_released (T(t \<mapsto> Clearing h)) x \<longleftrightarrow> x \<noteq> h \<and> being_released T x" for x
    by (simp add: being_released_upd)
  moreover have "being_released T h" using assms(1) by (auto simp: being_released_iff intro: exI [of _ t])
  ultimately show "holding c' (T(t \<mapsto> Clearing h)) y = holding c T y" for y
    using assms(1,2) by (cases y) (auto simp: claim_list_def)
qed

text \<open>A step that leaves the registry alone.\<close>

lemma inv_same_registry:
  fixes c c' :: "('task, 'pm) client"
  assumes inv: "conc_inv c T" and same: "cl_containers c' = cl_containers c"
    and rel: "pc_releases x = pc_releases (T t)"
    and shares: "shares_ok ((holding c T)(Call t := (case x of None \<Rightarrow> [] | Some pc \<Rightarrow> pc_ports pc))) (cl_held c')"
      "cl_held c' \<subseteq> port_window"
    and here: "\<And>pc. x = Some pc \<Longrightarrow> pc_ok c' pc"
    and alone: "\<And>pc h. x = Some pc \<Longrightarrow> pc_destroys pc = Some h \<Longrightarrow> destroying T h \<subseteq> {t}"
  shows "conc_inv c' (T(t := x))"
proof (rule conc_inv_step [OF inv])
  have "claim_list c' = claim_list c" by (simp add: claim_list_def fun_eq_iff same)
  from holding_upd [of x T t, OF rel this] shares(1) show "shares_ok (holding c' (T(t := x))) (cl_held c')" by simp
  show "kept_at c c' h" for h by (rule kept_at_same) (simp add: same)
qed (use shares(2) here alone in auto)

text \<open>A call that ends, or goes on without a port, and has changed neither registry nor allocator.\<close>

lemma inv_no_ports:
  fixes c c' :: "('task, 'pm) client"
  assumes inv: "conc_inv c T" and same: "cl_containers c' = cl_containers c" "cl_held c' = cl_held c"
    and rel: "pc_releases (T t) = None"
    and x: "x = None \<or> (\<exists>pc. x = Some pc \<and> pc_ports pc = [] \<and> pc_releases x = None \<and> pc_ok c' pc \<and>
      (\<forall>h. pc_destroys pc = Some h \<longrightarrow> destroying T h \<subseteq> {t}))"
  shows "conc_inv c' (T(t := x))"
proof (rule inv_same_registry [OF inv same(1)])
  have "(case x of None \<Rightarrow> [] | Some pc \<Rightarrow> pc_ports pc) = []" using x by auto
  then show "shares_ok ((holding c T)(Call t := (case x of None \<Rightarrow> [] | Some pc \<Rightarrow> pc_ports pc))) (cl_held c')"
    using shares_dropped [OF conc_invD(1) [OF inv], of "Call t"] by (simp add: same(2))
qed (use x rel same(2) conc_invD(2) [OF inv] in auto)

text \<open>A step that only rewrites an entry of the registry, keeping name and ports of its pod.\<close>

lemma inv_entry_written:
  assumes inv: "conc_inv c T" and t: "T t = Some (Starting h)"
    and kept: "\<And>h. kept_at c c' h" "claim_list c' = claim_list c" "cl_ports c' = cl_ports c"
  shows "conc_inv c' T"
proof -
  have "conc_inv c' (T(t := T t))"
  proof (rule conc_inv_step [OF inv _ _ kept(1)])
    show "shares_ok (holding c' (T(t := T t))) (cl_held c')"
      using conc_invD(1) [OF inv] by (subst holding_upd [OF refl kept(2)]) (simp add: t kept(3) shares_dropped)
  qed (use t kept(3) conc_invD(2) [OF inv] in auto)
  then show ?thesis by simp
qed

lemma inv_destroyer:
  assumes "conc_inv c T" "T t = Some pc" "pc_destroys pc = Some h"
  shows "destroying T h \<subseteq> {t}"
proof -
  have "t \<in> destroying T h" using assms(2,3) by (simp add: destroying_def)
  then show ?thesis using conc_invD(4) [OF assms(1)] by blast
qed

subsubsection \<open>The steps that move ports\<close>

lemma inv_port_chosen:
  assumes inv: "conc_inv c T" and t: "T t = Some (Choosing spec (ni # nis) ports)"
    and nxt: "pm_Next (cl_ports c) = (Ok port, pm)"
  shows "conc_inv (c\<lparr>cl_ports := pm\<rparr>) (T(t \<mapsto> Choosing spec nis (ports @ [container_port_of ni port])))"
proof -
  from pm.next_fresh [OF nxt] pm.next_window [OF nxt] have
    q: "port \<notin> cl_held c" "allocated pm = insert port (cl_held c)" "port \<in> port_window" by auto
  from shares_chosen [OF conc_invD(1) [OF inv] q(1), of "Call t"] conc_invD(2) [OF inv] conc_invD(3) [OF inv t]
  show ?thesis
    by (intro inv_same_registry [OF inv]) (auto simp: t q container_port_of_def)
qed

lemma inv_added:
  assumes inv: "conc_inv c T" and t: "T t = Some (Setting spec p ct [])"
    and add: "cm_Add (spec_Handle spec) ct (cl_containers c) = (None, cm)"
  shows "conc_inv (c\<lparr>cl_containers := cm\<rparr>) (T(t \<mapsto> Starting (spec_Handle spec)))"
proof -
  let ?h = "spec_Handle spec" and ?c = "c\<lparr>cl_containers := cm\<rparr>"
  from add have free: "cl_view c ?h = None" and view: "cm_view cm = (cl_view c)(?h \<mapsto> ct)"
    using cm.add_cases [of "cl_containers c" ?h ct] by auto
  have "\<not> being_released T ?h"
    using free conc_invD(3) [OF inv] by (force simp: being_released_def)
  moreover have "ct_pod ct = p" using conc_invD(3) [OF inv t] by simp
  ultimately have hold: "holding ?c (T(t \<mapsto> Starting ?h)) =
      (holding c T)(Call t := [], Registered ?h := holding c T (Call t))"
    by (intro holding_added [of T t, OF t]) (simp_all add: view)
  show ?thesis
  proof (rule conc_inv_step [OF inv])
    have "holding c T (Registered ?h) = []" by (simp add: claim_list_def free)
    from shares_moved [OF conc_invD(1) [OF inv] _ this, of "Call t"]
    show "shares_ok (holding ?c (T(t \<mapsto> Starting ?h))) (cl_held ?c)" unfolding hold by simp
    show "kept_at c ?c h" for h using free by (cases "h = ?h") (auto simp: kept_at_def view)
  qed (use conc_invD(2) [OF inv] in auto)
qed

lemma inv_deleted:
  assumes inv: "conc_inv c T" and t: "T t = Some (Deleting h ct)" and p: "same_claims (ct_pod ct) p"
  shows "conc_inv c (T(t \<mapsto> Releasing h (pod_host_ports p)))"
proof -
  have me: "destroying T h \<subseteq> {t}" using inv_destroyer [OF inv, of t] t by simp
  then have free: "\<not> being_released T h"
    using t releases_destroys [of T _ h] by (force simp: being_released_iff)
  obtain ct' where ct': "cl_view c h = Some ct'" "same_claims (ct_pod ct) (ct_pod ct')"
    using conc_invD(3) [OF inv t] by auto
  then have ports: "pod_host_ports p = claim_list c h"
    using p by (simp add: claim_list_def same_claims_ports)
  show ?thesis
  proof (rule conc_inv_step [OF inv])
    have "holding c T (Call t) = []" by (simp add: t)
    from shares_moved [OF conc_invD(1) [OF inv] _ this, of "Registered h"]
    show "shares_ok (holding c (T(t \<mapsto> Releasing h (pod_host_ports p)))) (cl_held c)"
      unfolding holding_deleted [of T t, OF t free ports] by simp
  qed (use me ct'(1) conc_invD(2) [OF inv] in \<open>auto simp: kept_at_same\<close>)
qed

lemma inv_port_released:
  assumes inv: "conc_inv c T" and t: "T t = Some (Releasing h (q # qs))"
  shows "conc_inv (c\<lparr>cl_ports := pm_Release q (cl_ports c)\<rparr>) (T(t \<mapsto> Releasing h qs))"
proof -
  have "holding c T (Call t) = q # qs" by (simp add: t)
  note shares = shares_released [OF conc_invD(1) [OF inv] this]
  have "cl_view c h \<noteq> None" "destroying T h \<subseteq> {t}"
    using conc_invD(3) [OF inv t] inv_destroyer [OF inv t] by simp_all
  with shares conc_invD(2) [OF inv] t show ?thesis
    by (intro inv_same_registry [OF inv]) (auto simp: pm.held_release)
qed

lemma inv_removed:
  assumes inv: "conc_inv c T" and t: "T t = Some (Releasing h [])"
  shows "conc_inv (c\<lparr>cl_containers := cm_Remove h (cl_containers c)\<rparr>) (T(t \<mapsto> Clearing h))"
proof -
  let ?c = "c\<lparr>cl_containers := cm_Remove h (cl_containers c)\<rparr>"
  have me: "destroying T h \<subseteq> {t}" using inv_destroyer [OF inv, of t] t by simp
  have view: "cl_view ?c = (cl_view c)(h := None)" by (simp add: cm.view_remove)
  from me have "pc_releases (T u) \<noteq> Some h" if "u \<noteq> t" for u using that releases_destroys by blast
  from holding_removed [of T t, OF t view this] have hold: "holding ?c (T(t \<mapsto> Clearing h)) = holding c T" by simp
  show ?thesis
  proof (rule conc_inv_step [OF inv])
    show "kept_at c ?c h'" if "u \<noteq> t" "u \<in> destroying T h'" for u h'
      by (rule kept_at_same) (use that me in \<open>auto simp: cm.view_remove\<close>)
  qed (use conc_invD(1,2) [OF inv] hold in auto)
qed

subsection \<open>Exclusive calls keep the ports apart\<close>

lemma claim_list_modify:
  assumes "cm_view m = (cl_view c)(h := map_option f (cl_view c h))"
    and "\<And>ct. cl_view c h = Some ct \<Longrightarrow> same_claims (ct_pod ct) (ct_pod (f ct))"
  shows "kept_at c (c\<lparr>cl_containers := m\<rparr>) h'" "claim_list (c\<lparr>cl_containers := m\<rparr>) = claim_list c"
  using assms(2)
  by (auto simp: kept_at_def claim_list_def assms(1) fun_eq_iff same_claims_ports split: option.split)

lemma conc_step_inv:
  assumes "conc_step d all_auto True (c, T, w) (c', T', w')" and inv: "conc_inv c T"
  shows "conc_inv c' T'"
  using assms(1)
proof (cases rule: conc_step.cases)
  case (create_begins t spec)
  then have "shares_ok ((holding c T)(Call t := [])) (cl_held c)"
    using shares_dropped [OF conc_invD(1) [OF inv]] by blast
  with create_begins conc_invD(2) [OF inv] show ?thesis
    by (auto simp: all_auto_def intro!: inv_same_registry [OF inv])
next
  case (port_named t spec ni nis ports)
  with conc_invD(3) [OF inv, of t] show ?thesis by auto
next
  case (port_chosen t spec ni nis ports port pm)
  with inv_port_chosen [OF inv] show ?thesis by blast
next
  case (no_port t spec ni nis ports e pm)
  with pm.next_fail show ?thesis by (auto intro!: inv_no_ports [OF inv])
next
  case (image_failed t spec ports r)
  then show ?thesis by (auto intro!: inv_no_ports [OF inv])
next
  case (pod_built t spec ports img env sz w0 p)
  then have "pod_host_ports p = map cp_HostPort ports"
    by (metis fst_conv pod_host_ports_def pod_ports_build)
  with pod_built have "(holding c T)(Call t := pod_host_ports p) = holding c T" by (auto simp: fun_eq_iff)
  with pod_built conc_invD(1,2) [OF inv] show ?thesis
    by (auto simp: NewContainer_def intro!: inv_same_registry [OF inv])
next
  case (property_set t spec p ct k v ps)
  then have "(holding c T)(Call t := pod_host_ports p) = holding c T" by (auto simp: fun_eq_iff)
  with property_set conc_invD(1,2) [OF inv] conc_invD(3) [OF inv, of t] show ?thesis
    by (auto intro!: inv_same_registry [OF inv])
next
  case (added t spec p ct cm)
  with inv_added [OF inv] show ?thesis by blast
next
  case (not_added t spec p ct e cm)
  with cm.add_cases [of "cl_containers c" "spec_Handle spec" ct] have "cm = cl_containers c" by auto
  with not_added show ?thesis by (auto intro!: inv_no_ports [OF inv])
next
  case (pod_written t h ct p)
  with claim_list_modify [OF cm.view_modify, of c h "\<lambda>ct. ct\<lparr>ct_pod := p\<rparr>"] show ?thesis
    by (auto simp: set_pod_def intro!: inv_entry_written [OF inv])
next
  case (tasks_written t h m)
  with claim_list_modify [OF cm.view_modify, of c h "\<lambda>ct. ct\<lparr>ct_taskMap := m\<rparr>"] show ?thesis
    by (auto simp: set_tasks_def intro!: inv_entry_written [OF inv])
next
  case (create_ends t h)
  then show ?thesis by (auto intro!: inv_no_ports [OF inv])
next
  case (destroy_begins t h ct)
  then have "cl_view c h = Some ct" by (simp add: cm.get_Ok_iff)
  with destroy_begins show ?thesis by (auto intro!: inv_no_ports [OF inv])
next
  case (not_deleted t h ct p e)
  then show ?thesis by (auto intro!: inv_no_ports [OF inv])
next
  case (deleted t h ct p)
  with inv_deleted [OF inv] show ?thesis by blast
next
  case (port_released t h q qs)
  with inv_port_released [OF inv] show ?thesis by blast
next
  case (removed t h)
  with inv_removed [OF inv] show ?thesis by blast
next
  case (properties_cleared t h)
  then show ?thesis by (auto intro!: inv_no_ports [OF inv])
next
  case (other_properties pm)
  then have "holding c' T' x = holding c T x" for x by (cases x) (simp_all add: claim_list_def)
  then have "holding c' T' = holding c T" by (rule ext)
  moreover have "pc_ok c' pc" if "pc_ok c pc" for pc
    using that by (rule pc_ok_kept) (simp add: other_properties kept_at_same)
  ultimately show ?thesis using other_properties inv by (simp add: conc_inv_def)
next
  case other_world
  with inv show ?thesis by simp
qed

lemma conc_run_inv:
  assumes "conc_run d all_auto True (c, T, w) (c', T', w')" "conc_inv c T"
  shows "conc_inv c' T'"
  using assms
  by (induction "(c', T', w')" arbitrary: c' T' w' rule: rtranclp_induct)
    (auto intro: conc_step_inv)

lemma fresh_conc_inv: "fresh_client c \<Longrightarrow> conc_inv c idle"
proof -
  assume "fresh_client c"
  then have "cl_view c h = None" "cl_held c = {}" for h
    by (simp_all add: fresh_client_def cm.view_empty newPortManager_def)
  moreover from this have "holding c idle x = []" for x by (cases x) (simp_all add: claim_list_def)
  ultimately show ?thesis by (simp add: conc_inv_def shares_ok_def destroying_def)
qed

end
