(* ===== verification/CallSteps.thy ===== *)
theory CallSteps
  imports Sample
begin

section \<open>Create and Destroy as single steps\<close>

text \<open>
  A call of \<open>Create\<close> or \<open>Destroy\<close> as a small-step program: \<open>call_step\<close> makes the next access to
  the registry, to the port allocator, to the property manager, to the API server, the clock or
  containerd, and \<open>call_at\<close> is where the call is and what its local variables hold. The functions
  \<open>client_Create\<close> and \<open>client_Destroy\<close> are the iteration of these steps, with the polling loops
  ended or not ended in both. A call that has returned stays where it is.
\<close>

datatype 'task call_at =
    LookUp container_spec
  | Choose container_spec "net_in list" "net_in list" "container_port list"
  | SetProps container_spec pod "'task container" "net_in list" garden_properties
  | Submit string pod "'task container" "net_in list"
  | Poll nat string pod "'task container" "net_in list"
  | Pause nat string pod "'task container" "net_in list"
  | Load string pod "'task container" "net_in list"
  | Mark string "'task container" "net_in list"
  | CreateReturned "'task container res" "net_in list"
  | Find string
  | Request string "'task container"
  | Await nat string "'task container"
  | Rest nat string "'task container"
  | GiveBack string "u32 list"
  | Clear string
  | DestroyReturned "unit res"

type_synonym ('w, 'task, 'pm) call_state = "('task, 'pm) client \<times> 'task call_at \<times> 'w"

fun call_returned :: "('w, 'task, 'pm) call_state \<Rightarrow> bool" where
  "call_returned (c, CreateReturned r nis, w) = True"
| "call_returned (c, DestroyReturned r, w) = True"
| "call_returned s = False"

definition fails_delete :: "goerr \<Rightarrow> 'task call_at" where
  "fails_delete e = DestroyReturned (Err (ErrorfW ''failed to delete pod: %w'' [] e))"

fun call_step ::
  "('w, 'img, 'task, 'pm) deps \<Rightarrow> ('w, 'task, 'pm) call_state \<Rightarrow> ('w, 'task, 'pm) call_state" where
  "call_step d (c, LookUp spec, w) =
     (if cm_Exists (spec_Handle spec) (cl_containers c)
      then (c, CreateReturned (Err (handle_in_use (spec_Handle spec))) (spec_NetIn spec), w)
      else (c, Choose spec [] (spec_NetIn spec) [], w))"
| "call_step d (c, Choose spec chosen (ni # nis) ports, w) =
     (if ni_HostPort ni \<noteq> 0
      then (c, Choose spec (chosen @ [ni]) nis (ports @ [container_port_of ni (ni_HostPort ni)]), w)
      else case pm_Next (cl_ports c) of
        (Ok port, pm) \<Rightarrow>
          (c\<lparr>cl_ports := pm\<rparr>,
           Choose spec (chosen @ [ni\<lparr>ni_HostPort := port\<rparr>]) nis (ports @ [container_port_of ni port]), w)
      | (Err e, pm) \<Rightarrow>
          (c\<lparr>cl_ports := pm\<rparr>,
           CreateReturned (Err (ErrorfW ''failed to allocate host port: %w'' [] e)) (chosen @ ni # nis), w)
      | (Panic m, pm) \<Rightarrow> (c\<lparr>cl_ports := pm\<rparr>, CreateReturned (Panic m) (chosen @ ni # nis), w))"
| "call_step d (c, Choose spec chosen [] ports, w) =
     (case resolve_image d spec w of
        (Err e, w1) \<Rightarrow> (c, CreateReturned (Err e) chosen, w1)
      | (Panic m, w1) \<Rightarrow> (c, CreateReturned (Panic m) chosen, w1)
      | (Ok (baseImage, dockerEnv, rootfsSize), w1) \<Rightarrow>
          (case build_pod (cl_config c) (d_OwnerKey d) (d_IntOutOfRange d) (d_IntN d) spec
                  (cpu_assignment (cl_config c) spec) ports baseImage rootfsSize w1 of
             (p, w2) \<Rightarrow>
               (c, SetProps spec p (NewContainer Impl p (dockerEnv @ spec_Env spec)
                   (cpu_assignment (cl_config c) spec) Impl Impl rootfsSize []) chosen (spec_Properties spec), w2)))"
| "call_step d (c, SetProps spec p ct nis ((k, v) # ps), w) =
     (c\<lparr>cl_props := pr_Set (d_props d) (cl_props c) (pod_Name p) k v\<rparr>, SetProps spec p ct nis ps, w)"
| "call_step d (c, SetProps spec p ct nis [], w) =
     (case cm_Add (spec_Handle spec) ct (cl_containers c) of
        (Some e, cm) \<Rightarrow> (c\<lparr>cl_containers := cm\<rparr>, CreateReturned (Err e) nis, w)
      | (None, cm) \<Rightarrow> (c\<lparr>cl_containers := cm\<rparr>, Submit (spec_Handle spec) p ct nis, w))"
| "call_step d (c, Submit h p ct nis, w) =
     (case k8s_Create (d_k8s d) p w of
        ((Some e, p1), w1) \<Rightarrow>
          (set_pod h p1 c, CreateReturned (Err (ErrorfW ''failed to create pod: %w'' [] e)) nis, w1)
      | ((None, p1), w1) \<Rightarrow> (set_pod h p1 c, Poll (clk_now (d_clock d) w1 + start_timeout) h p1 ct nis, w1))"
| "call_step d (c, Poll dl h p ct nis, w) =
     (case k8s_Get (d_k8s d) (Deadline dl) (ObjectKey p) p w of
        ((err, p1), w1) \<Rightarrow>
          (set_pod h p1 c,
           (case IgnoreNotFound (d_k8s d) err of
              Some e \<Rightarrow> CreateReturned (Err (ErrorfW ''failed to get pod after creation: %w'' [] e)) nis
            | None \<Rightarrow> if pod_Phase p1 = ''Running'' then Load h p1 ct nis else Pause dl h p1 ct nis), w1))"
| "call_step d (c, Pause dl h p ct nis, w) =
     (case clk_select (d_clock d) dl poll_interval w of
        (True, w1) \<Rightarrow>
          (c, CreateReturned (Err (Errorf ''timed out waiting for pod to be running'' [])) nis,
           snd (k8s_Delete (d_k8s d) Background (Some 0) p w1))
      | (False, w1) \<Rightarrow> (c, Poll dl h p ct nis, w1))"
| "call_step d (c, Load h p ct nis, w) =
     (case ctrd_LoadTasks (d_ctrd d) (pod_ContainerStatuses p) w of
        (Err e, w1) \<Rightarrow>
          (set_tasks h [] c, CreateReturned (Err (ErrorfW ''failed to load containerD container: %w'' [] e)) nis, w1)
      | (Panic m, w1) \<Rightarrow> (c, CreateReturned (Panic m) nis, w1)
      | (Ok tasks, w1) \<Rightarrow> (set_tasks h tasks c, Mark h (ct\<lparr>ct_pod := p, ct_taskMap := tasks\<rparr>) nis, w1))"
| "call_step d (c, Mark h ct nis, w) =
     (case container_SetProperty (d_props d) ct ''garden.state'' ''created'' (cl_props c) of
        (Some e, pm) \<Rightarrow> (c\<lparr>cl_props := pm\<rparr>, CreateReturned (Err e) nis, w)
      | (None, pm) \<Rightarrow> (c\<lparr>cl_props := pm\<rparr>, CreateReturned (Ok ct) nis, w))"
| "call_step d (c, Find h, w) =
     (case cm_Get h (cl_containers c) of
        Err e \<Rightarrow> (c, DestroyReturned (Err e), w)
      | Panic m \<Rightarrow> (c, DestroyReturned (Panic m), w)
      | Ok ct \<Rightarrow> (c, Request h ct, w))"
| "call_step d (c, Request h ct, w) =
     (let dl = clk_now (d_clock d) w + apiOperationTimeout
      in case k8s_Delete (d_k8s d) (Deadline dl) None (ct_pod ct) w of
           (Some e, w1) \<Rightarrow>
             (c, if IgnoreNotFound (d_k8s d) (Some e) = None then GiveBack h (pod_host_ports (ct_pod ct))
                 else fails_delete e, w1)
         | (None, w1) \<Rightarrow> (c, Await dl h ct, w1))"
| "call_step d (c, Await dl h ct, w) =
     (case k8s_Get (d_k8s d) (Deadline dl) (ObjectKey (ct_pod ct)) empty_pod w of
        ((Some e, p1), w1) \<Rightarrow>
          (c, if IgnoreNotFound (d_k8s d) (Some e) = None then GiveBack h (pod_host_ports (ct_pod ct))
              else fails_delete e, w1)
      | ((None, p1), w1) \<Rightarrow> (c, Rest dl h ct, w1))"
| "call_step d (c, Rest dl h ct, w) =
     (case clk_select (d_clock d) dl poll_interval w of
        (True, w1) \<Rightarrow> (c, fails_delete DeadlineExceeded, w1)
      | (False, w1) \<Rightarrow> (c, Await dl h ct, w1))"
| "call_step d (c, GiveBack h (q # qs), w) = (c\<lparr>cl_ports := pm_Release q (cl_ports c)\<rparr>, GiveBack h qs, w)"
| "call_step d (c, GiveBack h [], w) = (c\<lparr>cl_containers := cm_Remove h (cl_containers c)\<rparr>, Clear h, w)"
| "call_step d (c, Clear h, w) =
     (case pr_DestroyKeySpace (d_props d) (cl_props c) h of
        (Some e, pm) \<Rightarrow> (c\<lparr>cl_props := pm\<rparr>, DestroyReturned (Err e), w)
      | (None, pm) \<Rightarrow> (c\<lparr>cl_props := pm\<rparr>, DestroyReturned (Ok ()), w))"
| "call_step d (c, CreateReturned r nis, w) = (c, CreateReturned r nis, w)"
| "call_step d (c, DestroyReturned r, w) = (c, DestroyReturned r, w)"

subsection \<open>Iterating the steps\<close>

text \<open>The call comes to the state \<open>f\<close> after some number of steps.\<close>

definition comes_to ::
  "('w, 'img, 'task, 'pm) deps \<Rightarrow> ('w, 'task, 'pm) call_state \<Rightarrow> ('w, 'task, 'pm) call_state \<Rightarrow> bool" where
  "comes_to d s f \<longleftrightarrow> (\<exists>n. (call_step d ^^ n) s = f)"

lemma returned_stays: "call_returned s \<Longrightarrow> call_step d s = s"
  by (cases s rule: call_returned.cases) simp_all

lemma iterate_returned: "call_returned s \<Longrightarrow> (call_step d ^^ n) s = s"
  by (induction n) (simp_all add: returned_stays)

text \<open>For a state in which the call has returned, one step less or more does not matter.\<close>

lemma comes_step:
  assumes "call_returned f"
  shows "comes_to d s f \<longleftrightarrow> comes_to d (call_step d s) f"
proof
  assume "comes_to d s f"
  then obtain n where n: "(call_step d ^^ n) s = f" by (auto simp: comes_to_def)
  have "(call_step d ^^ n) (call_step d s) = call_step d ((call_step d ^^ n) s)"
    by (simp add: funpow_swap1)
  with n returned_stays [OF assms, of d] show "comes_to d (call_step d s) f" by (auto simp: comes_to_def)
next
  assume "comes_to d (call_step d s) f"
  then obtain n where "(call_step d ^^ n) (call_step d s) = f" by (auto simp: comes_to_def)
  then have "(call_step d ^^ Suc n) s = f" by (simp add: funpow_swap1)
  then show "comes_to d s f" unfolding comes_to_def by blast
qed

lemma comes_returned: "call_returned s \<Longrightarrow> comes_to d s f \<longleftrightarrow> f = s"
  by (auto simp: comes_to_def iterate_returned)

subsection \<open>The steps of Create\<close>

lemma comes_choose:
  assumes f: "call_returned f"
  shows "comes_to d (c, Choose spec chosen nis ports, w) f \<longleftrightarrow>
     (case alloc_ports pm_Next nis (cl_ports c) of
        (Ok ps, nis', pm) \<Rightarrow> comes_to d (c\<lparr>cl_ports := pm\<rparr>, Choose spec (chosen @ nis') [] (ports @ ps), w) f
      | (Err e, nis', pm) \<Rightarrow> f = (c\<lparr>cl_ports := pm\<rparr>, CreateReturned (Err e) (chosen @ nis'), w)
      | (Panic m, nis', pm) \<Rightarrow> f = (c\<lparr>cl_ports := pm\<rparr>, CreateReturned (Panic m) (chosen @ nis'), w))"
proof (induction nis arbitrary: c chosen ports)
  case (Cons ni nis)
  show ?case
  proof (cases "ni_HostPort ni = 0")
    case False
    then show ?thesis
      by (subst comes_step [OF f]) (simp add: Cons.IH split: prod.split res.split)
  next
    case True
    obtain r pm where "pm_Next (cl_ports c) = (r, pm)" by (metis prod.exhaust)
    with True show ?thesis
      by (subst comes_step [OF f], cases r)
        (simp_all add: Cons.IH comes_returned split: prod.split res.split)
  qed
qed simp

lemma comes_set_props:
  assumes f: "call_returned f"
  shows "comes_to d (c, SetProps spec p ct nis ps, w) f \<longleftrightarrow>
     comes_to d (c\<lparr>cl_props := set_properties (d_props d) (pod_Name p) ps (cl_props c)\<rparr>, SetProps spec p ct nis [], w) f"
proof (induction ps arbitrary: c)
  case (Cons kv ps)
  obtain k v where "kv = (k, v)" by (cases kv)
  then show ?case
    by (subst comes_step [OF f]) (simp add: Cons.IH set_properties_def)
qed (simp add: set_properties_def)

lemma comes_register:
  assumes f: "call_returned f"
  shows "comes_to d (c, SetProps spec p (NewContainer Impl p (env @ spec_Env spec) cpu Impl Impl sz [])
      nis (spec_Properties spec), w) f \<longleftrightarrow>
     (case register d spec p env cpu sz c of
        (Ok (p', ct), c1) \<Rightarrow> comes_to d (c1, Submit (spec_Handle spec) p' ct nis, w) f
      | (Err e, c1) \<Rightarrow> f = (c1, CreateReturned (Err e) nis, w)
      | (Panic m, c1) \<Rightarrow> f = (c1, CreateReturned (Panic m) nis, w))"
  by (subst comes_set_props [OF f], subst comes_step [OF f])
    (simp add: register_def Let_def comes_returned split: prod.split option.split)

lemma comes_prepare:
  assumes f: "call_returned f"
  shows "comes_to d (c, LookUp spec, w) f \<longleftrightarrow>
     (case prepare d c spec w of
        (Ok (p, ct), nis, c1, w1) \<Rightarrow> comes_to d (c1, Submit (spec_Handle spec) p ct nis, w1) f
      | (Err e, nis, c1, w1) \<Rightarrow> f = (c1, CreateReturned (Err e) nis, w1)
      | (Panic m, nis, c1, w1) \<Rightarrow> f = (c1, CreateReturned (Panic m) nis, w1))"
proof (cases "cm_Exists (spec_Handle spec) (cl_containers c)")
  case True
  then show ?thesis by (subst comes_step [OF f]) (simp add: prepare_def comes_returned)
next
  case False
  obtain r nis pm where alloc: "alloc_ports pm_Next (spec_NetIn spec) (cl_ports c) = (r, nis, pm)"
    by (metis prod.exhaust)
  have "comes_to d (c, LookUp spec, w) f \<longleftrightarrow> comes_to d (c, Choose spec [] (spec_NetIn spec) [], w) f"
    using False by (subst comes_step [OF f]) simp
  then have start: "comes_to d (c, LookUp spec, w) f \<longleftrightarrow>
     (case r of
        Ok ps \<Rightarrow> comes_to d (c\<lparr>cl_ports := pm\<rparr>, Choose spec nis [] ps, w) f
      | Err e \<Rightarrow> f = (c\<lparr>cl_ports := pm\<rparr>, CreateReturned (Err e) nis, w)
      | Panic m \<Rightarrow> f = (c\<lparr>cl_ports := pm\<rparr>, CreateReturned (Panic m) nis, w))"
    using comes_choose [OF f, of d c spec "[]" "spec_NetIn spec" "[]" w] by (cases r) (simp_all add: alloc)
  show ?thesis
  proof (cases r)
    case (Ok ports)
    obtain ri w1 where image: "resolve_image d spec w = (ri, w1)" by (metis prod.exhaust)
    have step: "comes_to d (c\<lparr>cl_ports := pm\<rparr>, Choose spec nis [] ports, w) f \<longleftrightarrow>
        comes_to d (call_step d (c\<lparr>cl_ports := pm\<rparr>, Choose spec nis [] ports, w)) f"
      by (rule comes_step [OF f])
    show ?thesis
    proof (cases ri)
      case ri: (Ok x)
      obtain img env sz where x: "x = (img, env, sz)" by (metis prod.exhaust)
      obtain p w2 where "build_pod (cl_config c) (d_OwnerKey d) (d_IntOutOfRange d) (d_IntN d) spec
          (cpu_assignment (cl_config c) spec) ports img sz w1 = (p, w2)" by (metis prod.exhaust)
      with False alloc Ok image ri x show ?thesis
        by (simp add: start step prepare_def Let_def comes_register [OF f] split: prod.split res.split)
    qed (use False alloc Ok image start step in \<open>simp_all add: prepare_def Let_def comes_returned\<close>)
  qed (use False alloc start in \<open>simp_all add: prepare_def Let_def\<close>)
qed

text \<open>The later of two writes to the pod of the entry is the one that stays.\<close>

lemma cm_modify_twice: "cm_modify h f (cm_modify h g m) = cm_modify h (f \<circ> g) m"
  by (simp add: cm_modify_def case_prod_beta comp_def)

lemma set_pod_twice [simp]: "set_pod h p (set_pod h p' c) = set_pod h p c"
  by (simp add: set_pod_def cm_modify_twice comp_def)

text \<open>Where the polling of the new pod leads.\<close>

fun after_wait ::
  "('task, 'pm) client \<Rightarrow> string \<Rightarrow> 'task container \<Rightarrow> net_in list \<Rightarrow> unit res \<times> pod \<times> 'w \<Rightarrow> ('w, 'task, 'pm) call_state" where
  "after_wait c h ct nis (Ok u, p, w) = (set_pod h p c, Load h p ct nis, w)"
| "after_wait c h ct nis (Err e, p, w) = (set_pod h p c, CreateReturned (Err e) nis, w)"
| "after_wait c h ct nis (Panic m, p, w) = (set_pod h p c, CreateReturned (Panic m) nis, w)"

lemma after_wait_set_pod [simp]: "after_wait (set_pod h p c) h ct nis x = after_wait c h ct nis x"
  by (cases "(c, h, ct, nis, x)" rule: after_wait.cases) simp_all

lemma poll_step:
  assumes f: "call_returned f"
  shows "comes_to d (c, Poll dl h p ct nis, w) f \<longleftrightarrow>
     (let got = k8s_Get (d_k8s d) (Deadline dl) (ObjectKey p) p w; p1 = snd (fst got); w1 = snd got
      in case IgnoreNotFound (d_k8s d) (fst (fst got)) of
           Some e \<Rightarrow> f = after_wait c h ct nis (Err (ErrorfW ''failed to get pod after creation: %w'' [] e), p1, w1)
         | None \<Rightarrow>
             if pod_Phase p1 = ''Running'' then comes_to d (after_wait c h ct nis (Ok (), p1, w1)) f
             else let sel = clk_select (d_clock d) dl poll_interval w1
                  in if fst sel
                     then f = after_wait c h ct nis (Err (Errorf ''timed out waiting for pod to be running'' []), p1,
                       snd (k8s_Delete (d_k8s d) Background (Some 0) p1 (snd sel)))
                     else comes_to d (set_pod h p1 c, Poll dl h p1 ct nis, snd sel) f)"
proof -
  obtain err p1 w1 where got: "k8s_Get (d_k8s d) (Deadline dl) (ObjectKey p) p w = ((err, p1), w1)"
    by (metis prod.exhaust)
  obtain b w2 where sel: "clk_select (d_clock d) dl poll_interval w1 = (b, w2)" by (metis prod.exhaust)
  have pause: "comes_to d (set_pod h p1 c, Pause dl h p1 ct nis, w1) f \<longleftrightarrow>
      (if b then f = (set_pod h p1 c, CreateReturned (Err (Errorf ''timed out waiting for pod to be running'' [])) nis,
                snd (k8s_Delete (d_k8s d) Background (Some 0) p1 w2))
       else comes_to d (set_pod h p1 c, Poll dl h p1 ct nis, w2) f)"
    by (subst comes_step [OF f]) (simp add: sel comes_returned)
  show ?thesis
    by (subst comes_step [OF f]) (simp add: got sel pause comes_returned Let_def split: option.split)
qed

lemma comes_poll_Some:
  fixes d :: "('w, 'img, 'task, 'pm) deps"
  assumes f: "call_returned f" and x: "wait_running (d_k8s d) (d_clock d) dl p w = Some x"
  shows "comes_to d (c, Poll dl h p ct nis, w) f \<longleftrightarrow> comes_to d (after_wait c h ct nis x) f"
proof -
  have "k = d_k8s d \<and> clk = d_clock d \<longrightarrow>
      (\<forall>c. comes_to d (c, Poll dl h p ct nis, w) f \<longleftrightarrow> comes_to d (after_wait c h ct nis x) f)"
    if "wait_running k clk dl p w = Some x" for k clk dl p w x
  proof (rule wait_running.raw_induct [OF _ that])
    fix g :: "'w k8s_api \<Rightarrow> 'w go_clock \<Rightarrow> nat \<Rightarrow> pod \<Rightarrow> 'w \<Rightarrow> (unit res \<times> pod \<times> 'w) option"
      and k :: "'w k8s_api" and clk :: "'w go_clock" and dl :: nat and p :: pod and w :: 'w
      and x :: "unit res \<times> pod \<times> 'w"
    assume IH: "\<And>k clk dl p w x. g k clk dl p w = Some x \<Longrightarrow> k = d_k8s d \<and> clk = d_clock d \<longrightarrow>
        (\<forall>c. comes_to d (c, Poll dl h p ct nis, w) f \<longleftrightarrow> comes_to d (after_wait c h ct nis x) f)"
    let ?got = "k8s_Get k (Deadline dl) (ObjectKey p) p w"
    let ?p1 = "snd (fst ?got)" let ?sel = "clk_select clk dl poll_interval (snd ?got)"
    assume step: "(let got = ?got; p1 = snd (fst got); w1 = snd got
      in case IgnoreNotFound k (fst (fst got)) of
           Some e \<Rightarrow> Some (Err (ErrorfW ''failed to get pod after creation: %w'' [] e), p1, w1)
         | None \<Rightarrow>
             if pod_Phase p1 = ''Running'' then Some (Ok (), p1, w1)
             else let sel = clk_select clk dl poll_interval w1
                  in if fst sel
                     then Some (Err (Errorf ''timed out waiting for pod to be running'' []), p1,
                                snd (k8s_Delete k Background (Some 0) p1 (snd sel)))
                     else g k clk dl p1 (snd sel)) = Some x"
    show "k = d_k8s d \<and> clk = d_clock d \<longrightarrow>
        (\<forall>c. comes_to d (c, Poll dl h p ct nis, w) f \<longleftrightarrow> comes_to d (after_wait c h ct nis x) f)"
    proof (intro impI allI)
      fix c assume "k = d_k8s d \<and> clk = d_clock d"
      then have k: "k = d_k8s d" "clk = d_clock d" by simp_all
      show "comes_to d (c, Poll dl h p ct nis, w) f \<longleftrightarrow> comes_to d (after_wait c h ct nis x) f"
        using step IH [of k clk dl ?p1 "snd ?sel" x]
        by (subst poll_step [OF f]) (auto simp: Let_def k comes_returned split: option.splits if_splits)
    qed
  qed
  with x show ?thesis by blast
qed

lemma comes_poll_None:
  assumes f: "call_returned f" and none: "wait_running (d_k8s d) (d_clock d) dl p w = None"
  shows "\<not> comes_to d (c, Poll dl h p ct nis, w) f"
proof
  assume "comes_to d (c, Poll dl h p ct nis, w) f"
  then obtain n where "(call_step d ^^ n) (c, Poll dl h p ct nis, w) = f" by (auto simp: comes_to_def)
  with none show False
  proof (induction n arbitrary: c p w rule: less_induct)
    case (less n)
    obtain err p1 w1 where got: "k8s_Get (d_k8s d) (Deadline dl) (ObjectKey p) p w = ((err, p1), w1)"
      by (metis prod.exhaust)
    obtain b w2 where sel: "clk_select (d_clock d) dl poll_interval w1 = (b, w2)" by (metis prod.exhaust)
    from less.prems(1) got sel have go: "IgnoreNotFound (d_k8s d) err = None" "pod_Phase p1 \<noteq> ''Running''" "\<not> b"
      "wait_running (d_k8s d) (d_clock d) dl p1 w2 = None"
      by (subst (asm) wait_running.simps; auto simp: Let_def split: option.splits if_splits)+
    then have one: "call_step d (c, Poll dl h p ct nis, w) = (set_pod h p1 c, Pause dl h p1 ct nis, w1)"
      "call_step d (set_pod h p1 c, Pause dl h p1 ct nis, w1) = (set_pod h p1 c, Poll dl h p1 ct nis, w2)"
      using got sel by simp_all
    consider "n = 0" | "n = Suc 0" | m where "n = Suc (Suc m)" by (metis not0_implies_Suc)
    then show False
    proof cases
      case 3
      with less.prems(2) one have "(call_step d ^^ m) (set_pod h p1 c, Poll dl h p1 ct nis, w2) = f"
        by (simp add: funpow_swap1)
      with less.IH [of m] go(4) 3 show False by simp
    qed (use less.prems(2) one f in auto)
  qed
qed

lemma comes_finish:
  assumes f: "call_returned f"
  shows "comes_to d (c, Load h p ct nis, w) f \<longleftrightarrow>
     (case finish_start d h ct p c w of (r, c1, w1) \<Rightarrow> f = (c1, CreateReturned r nis, w1))"
proof -
  obtain rt w1 where load: "ctrd_LoadTasks (d_ctrd d) (pod_ContainerStatuses p) w = (rt, w1)"
    by (metis prod.exhaust)
  show ?thesis
  proof (cases rt)
    case (Ok tasks)
    obtain e pm where set: "container_SetProperty (d_props d) (ct\<lparr>ct_pod := p, ct_taskMap := tasks\<rparr>)
        ''garden.state'' ''created'' (cl_props c) = (e, pm)" by (metis prod.exhaust)
    have mark: "comes_to d (set_tasks h tasks c, Mark h (ct\<lparr>ct_pod := p, ct_taskMap := tasks\<rparr>) nis, w1) f \<longleftrightarrow>
        f = ((set_tasks h tasks c)\<lparr>cl_props := pm\<rparr>,
          CreateReturned (case e of None \<Rightarrow> Ok (ct\<lparr>ct_pod := p, ct_taskMap := tasks\<rparr>) | Some e \<Rightarrow> Err e) nis, w1)"
      using set by (subst comes_step [OF f], cases e) (simp_all add: set_tasks_def comes_returned)
    have same: "set_tasks h tasks (c\<lparr>cl_props := pm\<rparr>) = (set_tasks h tasks c)\<lparr>cl_props := pm\<rparr>"
      by (simp add: set_tasks_def)
    show ?thesis
      using Ok load set mark same
      by (subst comes_step [OF f], cases e) (simp_all add: finish_start_def Let_def)
  qed (use load in \<open>subst comes_step [OF f], simp add: finish_start_def comes_returned\<close>)+
qed

lemma comes_launch:
  assumes f: "call_returned f"
  shows "comes_to d (c, Submit h p ct nis, w) f \<longleftrightarrow>
     (case launch d h p ct c w of
        None \<Rightarrow> False
      | Some (r, c1, w1) \<Rightarrow> f = (c1, CreateReturned r nis, w1))"
proof -
  obtain e p1 w1 where create: "k8s_Create (d_k8s d) p w = ((e, p1), w1)" by (metis prod.exhaust)
  have step: "comes_to d (c, Submit h p ct nis, w) f \<longleftrightarrow> comes_to d (call_step d (c, Submit h p ct nis, w)) f"
    by (rule comes_step [OF f])
  show ?thesis
  proof (cases e)
    case (Some err)
    with create step show ?thesis by (simp add: launch_def comes_returned)
  next
    case None
    let ?dl = "clk_now (d_clock d) w1 + start_timeout"
    show ?thesis
    proof (cases "wait_running (d_k8s d) (d_clock d) ?dl p1 w1")
      case none: None
      with comes_poll_None [OF f none] create None step show ?thesis by (simp add: launch_def)
    next
      case (Some x)
      obtain r p2 w2 where x: "x = (r, p2, w2)" by (metis prod.exhaust)
      from comes_poll_Some [OF f Some] create None Some step x show ?thesis
        by (cases r) (simp_all add: launch_def comes_finish [OF f] comes_returned)
    qed
  qed
qed

lemma comes_create:
  assumes f: "call_returned f"
  shows "comes_to d (c, LookUp spec, w) f \<longleftrightarrow>
     (case client_Create d c spec w of
        None \<Rightarrow> False
      | Some (r, nis, c1, w1) \<Rightarrow> f = (c1, CreateReturned r nis, w1))"
proof -
  obtain r nis c1 w1 where prep: "prepare d c spec w = (r, nis, c1, w1)" by (metis prod.exhaust)
  show ?thesis
  proof (cases r)
    case (Ok x)
    then show ?thesis
      using comes_prepare [OF f, of d c spec w] prep
      by (cases x) (simp add: comes_launch [OF f] client_Create_def split: option.split)
  qed (use comes_prepare [OF f, of d c spec w] prep in \<open>simp_all add: client_Create_def\<close>)
qed

subsection \<open>The steps of Destroy\<close>

lemma release_ports_fold: "release_ports p pm = fold pm_Release (pod_host_ports p) pm"
  by (rule port_manager.equality) (simp_all add: held_release_ports pm.held_release_fold)

lemma comes_give_back:
  assumes f: "call_returned f"
  shows "comes_to d (c, GiveBack h qs, w) f \<longleftrightarrow>
     comes_to d (c\<lparr>cl_ports := fold pm_Release qs (cl_ports c),
       cl_containers := cm_Remove h (cl_containers c)\<rparr>, Clear h, w) f"
proof (induction qs arbitrary: c)
  case Nil
  then show ?case by (subst comes_step [OF f]) simp
next
  case (Cons q qs)
  then show ?case by (subst comes_step [OF f]) simp
qed

text \<open>Where the end of the pod leads.\<close>

fun after_delete ::
  "('task, 'pm) client \<Rightarrow> string \<Rightarrow> 'task container \<Rightarrow> goerr option \<times> 'w \<Rightarrow> ('w, 'task, 'pm) call_state" where
  "after_delete c h ct (None, w) = (c, GiveBack h (pod_host_ports (ct_pod ct)), w)"
| "after_delete c h ct (Some e, w) = (c, fails_delete e, w)"

lemma await_step:
  assumes f: "call_returned f"
  shows "comes_to d (c, Await dl h ct, w) f \<longleftrightarrow>
     (let got = k8s_Get (d_k8s d) (Deadline dl) (ObjectKey (ct_pod ct)) empty_pod w; w1 = snd got
      in case fst (fst got) of
           Some e \<Rightarrow> comes_to d (after_delete c h ct
             (if IgnoreNotFound (d_k8s d) (Some e) = None then (None, w1) else (Some e, w1))) f
         | None \<Rightarrow>
             let sel = clk_select (d_clock d) dl poll_interval w1
             in if fst sel then comes_to d (after_delete c h ct (Some DeadlineExceeded, snd sel)) f
                else comes_to d (c, Await dl h ct, snd sel) f)"
proof -
  obtain err p1 w1 where got: "k8s_Get (d_k8s d) (Deadline dl) (ObjectKey (ct_pod ct)) empty_pod w = ((err, p1), w1)"
    by (metis prod.exhaust)
  obtain b w2 where sel: "clk_select (d_clock d) dl poll_interval w1 = (b, w2)" by (metis prod.exhaust)
  have rest: "comes_to d (c, Rest dl h ct, w1) f \<longleftrightarrow>
      (if b then comes_to d (c, fails_delete DeadlineExceeded, w2) f else comes_to d (c, Await dl h ct, w2) f)"
    by (subst comes_step [OF f]) (simp add: sel)
  show ?thesis
    by (subst comes_step [OF f], cases err) (simp_all add: got sel rest Let_def)
qed

lemma comes_await_Some:
  fixes d :: "('w, 'img, 'task, 'pm) deps"
  assumes f: "call_returned f" and x: "wait_deleted (d_k8s d) (d_clock d) dl (ct_pod ct) w = Some x"
  shows "comes_to d (c, Await dl h ct, w) f \<longleftrightarrow> comes_to d (after_delete c h ct x) f"
proof -
  have "k = d_k8s d \<and> clk = d_clock d \<and> p = ct_pod ct \<longrightarrow>
      (comes_to d (c, Await dl h ct, w) f \<longleftrightarrow> comes_to d (after_delete c h ct x) f)"
    if "wait_deleted k clk dl p w = Some x" for k clk dl p w x
  proof (rule wait_deleted.raw_induct [OF _ that])
    fix g :: "'w k8s_api \<Rightarrow> 'w go_clock \<Rightarrow> nat \<Rightarrow> pod \<Rightarrow> 'w \<Rightarrow> (goerr option \<times> 'w) option"
      and k :: "'w k8s_api" and clk :: "'w go_clock" and dl :: nat and p :: pod and w :: 'w
      and x :: "goerr option \<times> 'w"
    assume IH: "\<And>k clk dl p w x. g k clk dl p w = Some x \<Longrightarrow> k = d_k8s d \<and> clk = d_clock d \<and> p = ct_pod ct \<longrightarrow>
        (comes_to d (c, Await dl h ct, w) f \<longleftrightarrow> comes_to d (after_delete c h ct x) f)"
    let ?got = "k8s_Get k (Deadline dl) (ObjectKey p) empty_pod w"
    let ?sel = "clk_select clk dl poll_interval (snd ?got)"
    assume step: "(let got = ?got; w1 = snd got
      in case fst (fst got) of
           Some e \<Rightarrow> if IgnoreNotFound k (Some e) = None then Some (None, w1) else Some (Some e, w1)
         | None \<Rightarrow>
             let sel = clk_select clk dl poll_interval w1
             in if fst sel then Some (Some DeadlineExceeded, snd sel)
                else g k clk dl p (snd sel)) = Some x"
    show "k = d_k8s d \<and> clk = d_clock d \<and> p = ct_pod ct \<longrightarrow>
        (comes_to d (c, Await dl h ct, w) f \<longleftrightarrow> comes_to d (after_delete c h ct x) f)"
    proof (intro impI)
      assume "k = d_k8s d \<and> clk = d_clock d \<and> p = ct_pod ct"
      then have k: "k = d_k8s d" "clk = d_clock d" "p = ct_pod ct" by simp_all
      show "comes_to d (c, Await dl h ct, w) f \<longleftrightarrow> comes_to d (after_delete c h ct x) f"
        using step IH [of k clk dl p "snd ?sel" x]
        by (subst await_step [OF f]) (auto simp: Let_def k split: option.splits if_splits)
    qed
  qed
  with x show ?thesis by blast
qed

lemma comes_await_None:
  assumes f: "call_returned f" and none: "wait_deleted (d_k8s d) (d_clock d) dl (ct_pod ct) w = None"
  shows "\<not> comes_to d (c, Await dl h ct, w) f"
proof
  assume "comes_to d (c, Await dl h ct, w) f"
  then obtain n where "(call_step d ^^ n) (c, Await dl h ct, w) = f" by (auto simp: comes_to_def)
  with none show False
  proof (induction n arbitrary: w rule: less_induct)
    case (less n)
    obtain err p1 w1 where got: "k8s_Get (d_k8s d) (Deadline dl) (ObjectKey (ct_pod ct)) empty_pod w = ((err, p1), w1)"
      by (metis prod.exhaust)
    obtain b w2 where sel: "clk_select (d_clock d) dl poll_interval w1 = (b, w2)" by (metis prod.exhaust)
    from less.prems(1) got sel have go: "err = None" "\<not> b" "wait_deleted (d_k8s d) (d_clock d) dl (ct_pod ct) w2 = None"
      by (subst (asm) wait_deleted.simps; auto simp: Let_def split: option.splits if_splits)+
    then have one: "call_step d (c, Await dl h ct, w) = (c, Rest dl h ct, w1)"
      "call_step d (c, Rest dl h ct, w1) = (c, Await dl h ct, w2)"
      using got sel by simp_all
    consider "n = 0" | "n = Suc 0" | m where "n = Suc (Suc m)" by (metis not0_implies_Suc)
    then show False
    proof cases
      case 3
      with less.prems(2) one have "(call_step d ^^ m) (c, Await dl h ct, w2) = f"
        by (simp add: funpow_swap1)
      with less.IH [of m] go(3) 3 show False by simp
    qed (use less.prems(2) one f in auto)
  qed
qed

lemma comes_request:
  assumes f: "call_returned f"
  shows "comes_to d (c, Request h ct, w) f \<longleftrightarrow>
     (case deletePod (d_k8s d) (d_clock d) (ct_pod ct) w of
        None \<Rightarrow> False
      | Some x \<Rightarrow> comes_to d (after_delete c h ct x) f)"
proof -
  let ?dl = "clk_now (d_clock d) w + apiOperationTimeout"
  obtain e w1 where del: "k8s_Delete (d_k8s d) (Deadline ?dl) None (ct_pod ct) w = (e, w1)" by (metis prod.exhaust)
  have step: "comes_to d (c, Request h ct, w) f \<longleftrightarrow> comes_to d (call_step d (c, Request h ct, w)) f"
    by (rule comes_step [OF f])
  show ?thesis
  proof (cases e)
    case (Some err)
    with del step show ?thesis by (simp add: deletePod_def Let_def)
  next
    case None
    show ?thesis
    proof (cases "wait_deleted (d_k8s d) (d_clock d) ?dl (ct_pod ct) w1")
      case none: None
      with comes_await_None [OF f none] del None step show ?thesis by (simp add: deletePod_def Let_def)
    next
      case (Some x)
      with comes_await_Some [OF f Some] del None step show ?thesis by (simp add: deletePod_def Let_def)
    qed
  qed
qed

lemma comes_clear:
  assumes f: "call_returned f"
  shows "comes_to d (c, Clear h, w) f \<longleftrightarrow>
     (case pr_DestroyKeySpace (d_props d) (cl_props c) h of
        (Some e, pm) \<Rightarrow> f = (c\<lparr>cl_props := pm\<rparr>, DestroyReturned (Err e), w)
      | (None, pm) \<Rightarrow> f = (c\<lparr>cl_props := pm\<rparr>, DestroyReturned (Ok ()), w))"
  by (subst comes_step [OF f]) (simp add: comes_returned split: prod.split option.split)

lemma comes_destroy:
  assumes f: "call_returned f"
  shows "comes_to d (c, Find h, w) f \<longleftrightarrow>
     (case client_Destroy d c h w of
        None \<Rightarrow> False
      | Some (r, c1, w1) \<Rightarrow> f = (c1, DestroyReturned r, w1))"
proof -
  have step: "comes_to d (c, Find h, w) f \<longleftrightarrow> comes_to d (call_step d (c, Find h, w)) f"
    by (rule comes_step [OF f])
  show ?thesis
  proof (cases "cm_Get h (cl_containers c)")
    case (Ok ct)
    show ?thesis
    proof (cases "deletePod (d_k8s d) (d_clock d) (ct_pod ct) w")
      case None
      with Ok step comes_request [OF f, of d c h ct w] show ?thesis by (simp add: client_Destroy_def)
    next
      case (Some x)
      obtain e w1 where x: "x = (e, w1)" by (cases x)
      show ?thesis
        using Ok Some x step comes_request [OF f, of d c h ct w]
        by (cases e) (auto simp: client_Destroy_def fails_delete_def comes_returned comes_give_back [OF f]
            comes_clear [OF f] release_ports_fold Let_def split: prod.split option.split)
    qed
  qed (use step in \<open>simp_all add: client_Destroy_def comes_returned\<close>)
qed

subsection \<open>Properties\<close>


end
