(* ===== verification/ConcurrentProps.thy ===== *)
theory ConcurrentProps
  imports Concurrent CallSteps
begin

section \<open>Ports under interleaved calls\<close>

text \<open>
  What the interleaving of \<open>Create\<close> and \<open>Destroy\<close> means for the host ports: every sequential
  history is an interleaved one; with exclusive destroys no two containers share a port; two
  overlapping destroys of one handle give a port to two containers.
\<close>

subsection \<open>A call on its own\<close>

text \<open>A call that no other one interrupts does what the functions \<open>client_Create\<close> and
  \<open>client_Destroy\<close> say: each is a run of the steps of one thread.\<close>

fun chosen_pc :: "container_spec \<Rightarrow> container_port list \<Rightarrow> container_port list res \<Rightarrow> 'task call_pc option" where
  "chosen_pc spec acc (Ok ports) = Some (Choosing spec [] (acc @ ports))"
| "chosen_pc spec acc r = None"

lemma chosen_pc_Cons:
  "chosen_pc spec acc (case r of Ok ports \<Rightarrow> Ok (port # ports) | Err e \<Rightarrow> Err e | Panic m \<Rightarrow> Panic m) =
   chosen_pc spec (acc @ [port]) r"
  by (cases r) auto

lemma alloc_is_run:
  "alloc_ports pm_Next nis (cl_ports c) = (r, nis', pm) \<Longrightarrow> T t = Some (Choosing spec nis acc) \<Longrightarrow>
   conc_run d ok ex (c, T, w) (c\<lparr>cl_ports := pm\<rparr>,
     T(t := chosen_pc spec acc r), w)"
proof (induction nis arbitrary: c T acc r nis' pm)
  case Nil
  then have "r = Ok []" "c\<lparr>cl_ports := pm\<rparr> = c" "T(t \<mapsto> Choosing spec [] acc) = T" by auto
  then show ?case by simp
next
  case (Cons ni nis)
  show ?case
  proof (cases "ni_HostPort ni = 0")
    case False
    let ?T = "T(t \<mapsto> Choosing spec nis (acc @ [container_port_of ni (ni_HostPort ni)]))"
    obtain r1 nis1 pm1 where rest: "alloc_ports pm_Next nis (cl_ports c) = (r1, nis1, pm1)"
      by (metis prod.exhaust)
    have "conc_step d ok ex (c, T, w) (c, ?T, w)" using port_named [where T = T and t = t, OF Cons.prems(2) False] .
    moreover have "conc_run d ok ex (c, ?T, w) (c\<lparr>cl_ports := pm1\<rparr>, ?T(t :=
        chosen_pc spec (acc @ [container_port_of ni (ni_HostPort ni)]) r1), w)"
      by (rule Cons.IH [OF rest]) simp
    ultimately have "conc_run d ok ex (c, T, w) (c\<lparr>cl_ports := pm1\<rparr>,
        T(t := chosen_pc spec (acc @ [container_port_of ni (ni_HostPort ni)]) r1), w)"
      by (simp add: converse_rtranclp_into_rtranclp)
    with Cons.prems(1) False rest show ?thesis by (auto simp: chosen_pc_Cons simp del: fun_upd_apply)
  next
    case True
    obtain rn s1 where nxt: "pm_Next (cl_ports c) = (rn, s1)" by (metis prod.exhaust)
    show ?thesis
    proof (cases rn)
      case (Ok port)
      let ?c = "c\<lparr>cl_ports := s1\<rparr>" and ?T = "T(t \<mapsto> Choosing spec nis (acc @ [container_port_of ni port]))"
      obtain r1 nis1 pm1 where rest: "alloc_ports pm_Next nis (cl_ports ?c) = (r1, nis1, pm1)"
        by (metis prod.exhaust)
      have "conc_step d ok ex (c, T, w) (?c, ?T, w)"
        using port_chosen [where T = T and t = t, OF Cons.prems(2) True nxt [unfolded Ok]] .
      moreover have "conc_run d ok ex (?c, ?T, w) (?c\<lparr>cl_ports := pm1\<rparr>, ?T(t :=
          chosen_pc spec (acc @ [container_port_of ni port]) r1), w)"
        by (rule Cons.IH [OF rest]) simp
      ultimately have "conc_run d ok ex (c, T, w) (c\<lparr>cl_ports := pm1\<rparr>,
          T(t := chosen_pc spec (acc @ [container_port_of ni port]) r1), w)"
        by (simp add: converse_rtranclp_into_rtranclp)
      with Cons.prems(1) True nxt Ok rest show ?thesis by (auto simp: chosen_pc_Cons simp del: fun_upd_apply)
    next
      case (Err e)
      have "conc_step d ok ex (c, T, w) (c\<lparr>cl_ports := s1\<rparr>, T(t := None), w)"
        using no_port [where T = T and t = t, OF Cons.prems(2) True nxt [unfolded Err]] .
      with Cons.prems(1) True nxt Err show ?thesis by (auto simp del: fun_upd_apply)
    qed (use nxt pm.next_no_panic in simp)
  qed
qed

lemma set_is_run:
  "T t = Some (Setting spec p ct ps) \<Longrightarrow>
   conc_run d ok ex (c, T, w)
     (c\<lparr>cl_props := set_properties (d_props d) (pod_Name p) ps (cl_props c)\<rparr>, T(t \<mapsto> Setting spec p ct []), w)"
proof (induction ps arbitrary: c T)
  case Nil
  then have "T(t \<mapsto> Setting spec p ct []) = T" by auto
  then show ?case by (simp add: set_properties_def del: fun_upd_apply)
next
  case (Cons kv ps)
  obtain k v where kv: "kv = (k, v)" by (cases kv)
  let ?c = "c\<lparr>cl_props := pr_Set (d_props d) (cl_props c) (pod_Name p) k v\<rparr>"
  let ?T = "T(t \<mapsto> Setting spec p ct ps)"
  have "conc_step d ok ex (c, T, w) (?c, ?T, w)"
    by (rule property_set [where T = T and t = t]) (use Cons.prems kv in simp)
  moreover have "conc_run d ok ex (?c, ?T, w)
      (?c\<lparr>cl_props := set_properties (d_props d) (pod_Name p) ps (cl_props ?c)\<rparr>, ?T(t \<mapsto> Setting spec p ct []), w)"
    by (rule Cons.IH) simp
  ultimately show ?case
    by (simp add: kv set_properties_def converse_rtranclp_into_rtranclp del: fun_upd_apply)
qed

lemma build_is_run:
  assumes t: "T t = Some (Choosing spec [] ports)"
    and res: "resolve_image d spec w = (Ok (img, env, sz), w0)"
    and bp: "build_pod (cl_config c) (d_OwnerKey d) (d_IntOutOfRange d) (d_IntN d) spec
       (cpu_assignment (cl_config c) spec) ports img sz w0 = (p, w')"
    and reg: "register d spec p env (cpu_assignment (cl_config c) spec) sz c = (Ok (p, ct), c')"
  shows "conc_run d ok ex (c, T, w) (c', T(t \<mapsto> Starting (spec_Handle spec)), w')"
proof -
  let ?T = "T(t \<mapsto> Setting spec p ct (spec_Properties spec))"
  let ?c = "c\<lparr>cl_props := set_properties (d_props d) (pod_Name p) (spec_Properties spec) (cl_props c)\<rparr>"
  from reg obtain cm where ct: "ct = NewContainer Impl p (env @ spec_Env spec)
      (cpu_assignment (cl_config c) spec) Impl Impl sz []"
    and add: "cm_Add (spec_Handle spec) ct (cl_containers ?c) = (None, cm)"
    and c': "c' = ?c\<lparr>cl_containers := cm\<rparr>"
    by (auto simp: register_def Let_def split: prod.splits option.splits)
  have "conc_step d ok ex (c, T, w) (c, ?T, w')"
    unfolding ct using pod_built [where T = T and t = t, OF t res bp] .
  also have "conc_run d ok ex (c, ?T, w') (?c, ?T(t \<mapsto> Setting spec p ct []), w')"
    by (rule set_is_run) simp
  also have "conc_step d ok ex (?c, ?T(t \<mapsto> Setting spec p ct []), w')
      (?c\<lparr>cl_containers := cm\<rparr>, ?T(t \<mapsto> Setting spec p ct [], t \<mapsto> Starting (spec_Handle spec)), w')"
    by (rule added [OF _ add]) simp
  finally show ?thesis by (simp add: c')
qed

lemma prepare_is_run:
  assumes "prepare d c spec w = (r, nis, c', w')" and "ok spec" and t: "T t = None"
  shows "conc_run d ok ex (c, T, w)
     (c', T(t := (if \<exists>x. r = Ok x then Some (Starting (spec_Handle spec)) else None)), w')"
proof (cases "cm_Exists (spec_Handle spec) (cl_containers c)")
  case True
  with assms show ?thesis by (auto simp: prepare_def fun_upd_idem)
next
  case False
  let ?T = "T(t \<mapsto> Choosing spec (spec_NetIn spec) [])"
  obtain ra nis0 pm where alloc: "alloc_ports pm_Next (spec_NetIn spec) (cl_ports c) = (ra, nis0, pm)"
    by (metis prod.exhaust)
  let ?c = "c\<lparr>cl_ports := pm\<rparr>"
  have "conc_step d ok ex (c, T, w) (c, ?T, w)"
    using create_begins [where T = T and t = t and ok = ok and spec = spec, OF t assms(2) False] .
  also have "conc_run d ok ex (c, ?T, w) (?c, ?T(t := chosen_pc spec [] ra), w)"
    by (rule alloc_is_run [OF alloc]) simp
  finally have begun: "conc_run d ok ex (c, T, w) (?c, T(t := chosen_pc spec [] ra), w)" by simp
  show ?thesis
  proof (cases ra)
    case (Ok ports)
    let ?T1 = "T(t \<mapsto> Choosing spec [] ports)"
    obtain ri w0 where res: "resolve_image d spec w = (ri, w0)" by (cases "resolve_image d spec w")
    show ?thesis
    proof (cases "\<exists>x. ri = Ok x")
      case False
      then have "conc_step d ok ex (?c, ?T1, w) (?c, ?T1(t := None), w0)"
        by (intro image_failed [where T = ?T1 and t = t, OF _ res]) auto
      moreover have "c' = ?c" "w' = w0" "\<not> (\<exists>x. r = Ok x)"
        using assms(1) \<open>\<not> cm_Exists _ _\<close> alloc Ok res False by (cases ri; auto simp: prepare_def Let_def)+
      ultimately show ?thesis using begun Ok by (auto intro: rtranclp.rtrancl_into_rtrancl)
    next
      case True
      then obtain img env sz where ri: "ri = Ok (img, env, sz)" by (metis prod.exhaust)
      let ?cpu = "cpu_assignment (cl_config c) spec"
      obtain p w2 where bp: "build_pod (cl_config c) (d_OwnerKey d) (d_IntOutOfRange d) (d_IntN d) spec
          ?cpu ports img sz w0 = (p, w2)" by (metis prod.exhaust)
      have "cl_view ?c (spec_Handle spec) = None" using \<open>\<not> cm_Exists _ _\<close> by (simp add: cm.exists_eq)
      from register_fresh [OF this, of d p env ?cpu sz] obtain ct c2 where
        reg: "register d spec p env ?cpu sz ?c = (Ok (p, ct), c2)" by auto
      have "conc_run d ok ex (?c, ?T1, w) (c2, ?T1(t \<mapsto> Starting (spec_Handle spec)), w2)"
        by (rule build_is_run [OF _ res [unfolded ri]]) (use bp reg in auto)
      moreover have "c' = c2" "w' = w2" "\<exists>x. r = Ok x"
        using assms(1) \<open>\<not> cm_Exists _ _\<close> alloc Ok res ri bp reg by (auto simp: prepare_def Let_def)
      ultimately show ?thesis using begun Ok by auto
    qed
  qed (use assms(1) False alloc begun in \<open>auto simp: prepare_def Let_def\<close>)
qed

lemma launch_is_run:
  assumes "k8s_keeps (d_k8s d)" and lau: "launch d h (ct_pod ct) ct c w = Some (r, c', w')"
    and view: "cl_view c h = Some ct" and t: "T t = Some (Starting h)"
  shows "conc_run d ok ex (c, T, w) (c', T(t := None), w')"
proof -
  have world: "conc_run d ok ex (a, T, v) (a, T, w')" for a v
    by (rule r_into_rtranclp) (rule other_world)
  have ends: "conc_run d ok ex (a, T, w') (a, T(t := None), w')" for a
    by (rule r_into_rtranclp) (rule create_ends [where T = T and t = t, OF t])
  have pod: "conc_run d ok ex (c, T, w) (set_pod h p c, T, w')" if "same_claims (ct_pod ct) p" for p
    using pod_written [where T = T and t = t, OF t view that] world by (meson rtranclp.rtrancl_into_rtrancl)
  have tasks0: "conc_run d ok ex (a, T, w') (set_tasks h m a, T, w')" for a m
    by (rule r_into_rtranclp) (rule tasks_written [where T = T and t = t, OF t])
  have tasks: "conc_run d ok ex (a, T, w') (set_tasks h m (a\<lparr>cl_props := pm\<rparr>), T, w')" for a m pm
    by (rule converse_rtranclp_into_rtranclp [OF other_properties tasks0])
  obtain e1 p1 w1 where create: "k8s_Create (d_k8s d) (ct_pod ct) w = ((e1, p1), w1)" by (metis prod.exhaust)
  with assms(1) have p1: "same_claims (ct_pod ct) p1" unfolding k8s_keeps_def by (metis fst_conv snd_conv)
  show ?thesis
  proof (cases e1)
    case (Some e)
    with lau create have "c' = set_pod h p1 c" by (simp add: launch_def)
    with rtranclp_trans [OF pod [OF p1] ends] show ?thesis by (simp del: fun_upd_apply)
  next
    case None
    with lau create obtain r2 p2 w2 where
      poll: "wait_running (d_k8s d) (d_clock d) (clk_now (d_clock d) w1 + start_timeout) p1 w1 = Some (r2, p2, w2)"
      by (auto simp: launch_def split: option.splits)
    from wait_running_result [OF assms(1) poll] p1 have p2: "same_claims (ct_pod ct) p2"
      by (auto intro: same_claims_trans)
    let ?c = "set_pod h p2 c"
    have "c' = ?c \<or> (\<exists>m. c' = set_tasks h m ?c) \<or> (\<exists>m pm. c' = set_tasks h m (?c\<lparr>cl_props := pm\<rparr>))"
    proof (cases r2)
      case (Ok u)
      with lau create None poll have "finish_start d h ct p2 ?c w2 = (r, c', w')" by (simp add: launch_def)
      then show ?thesis
        by (auto simp: finish_start_def Let_def split: res.splits prod.splits option.splits)
    qed (use lau create None poll in \<open>auto simp: launch_def\<close>)
    then have "conc_run d ok ex (c, T, w) (c', T, w')"
      using pod [OF p2] rtranclp_trans [OF pod [OF p2] tasks0] rtranclp_trans [OF pod [OF p2] tasks]
      by (elim disjE exE) simp_all
    from rtranclp_trans [OF this ends] show ?thesis .
  qed
qed

lemma create_is_run:
  assumes "k8s_keeps (d_k8s d)" and cr: "client_Create d c spec w = Some (r, nis, c', w')"
    and "ok spec" and t: "T t = None"
  shows "conc_run d ok ex (c, T, w) (c', T, w')"
proof -
  obtain r1 nis1 c1 w1 where prep: "prepare d c spec w = (r1, nis1, c1, w1)" by (metis prod.exhaust)
  note run = prepare_is_run [where T = T and t = t and ok = ok and ex = ex, OF prep assms(3) t]
  have idle: "T(t := None) = T" using t by auto
  show ?thesis
  proof (cases "\<exists>x. r1 = Ok x")
    case False
    then have "c' = c1" "w' = w1" using cr prep by (cases r1; auto simp: client_Create_def)+
    with False run idle show ?thesis by (simp del: fun_upd_apply)
  next
    case True
    then obtain p ct where r1: "r1 = Ok (p, ct)" by (metis prod.exhaust)
    with cr prep have lau: "launch d (spec_Handle spec) p ct c1 w1 = Some (r, c', w')"
      by (auto simp: client_Create_def split: option.splits)
    let ?T = "T(t \<mapsto> Starting (spec_Handle spec))"
    have view: "cl_view c1 (spec_Handle spec) = Some ct" and p: "p = ct_pod ct"
      by (rule prepare_Ok [OF prep [unfolded r1]]; simp add: NewContainer_def)+
    have "?T t = Some (Starting (spec_Handle spec))" by simp
    from launch_is_run [where T = ?T and t = t and ok = ok and ex = ex, OF assms(1) lau [unfolded p] view this]
    have "conc_run d ok ex (c1, ?T, w1) (c', T, w')" by (simp add: idle del: fun_upd_apply)
    with run True show ?thesis by (simp del: fun_upd_apply)
  qed
qed

text \<open>The part of \<open>Destroy\<close> after the look-up, on the container it has found then.\<close>

lemma releases_are_run:
  "T t = Some (Releasing h qs) \<Longrightarrow>
   conc_run d ok ex (c, T, w) (c\<lparr>cl_ports := fold pm_Release qs (cl_ports c)\<rparr>, T(t \<mapsto> Releasing h []), w)"
proof (induction qs arbitrary: c T)
  case Nil
  then have "T(t \<mapsto> Releasing h []) = T" by auto
  then show ?case by (simp del: fun_upd_apply)
next
  case (Cons q qs)
  let ?c = "c\<lparr>cl_ports := pm_Release q (cl_ports c)\<rparr>" and ?T = "T(t \<mapsto> Releasing h qs)"
  have "conc_step d ok ex (c, T, w) (?c, ?T, w)"
    by (rule port_released [where T = T and t = t]) (use Cons.prems in simp)
  moreover have "conc_run d ok ex (?c, ?T, w)
      (?c\<lparr>cl_ports := fold pm_Release qs (cl_ports ?c)\<rparr>, ?T(t \<mapsto> Releasing h []), w)"
    by (rule Cons.IH) simp
  ultimately show ?case by (simp add: converse_rtranclp_into_rtranclp del: fun_upd_apply)
qed

lemma rest_of_destroy_is_run:
  assumes t: "T t = Some (Deleting h ct)"
    and del: "deletePod (d_k8s d) (d_clock d) (ct_pod ct) w = Some (None, w')"
  shows "conc_run d ok ex (c, T, w)
     (c\<lparr>cl_ports := fold pm_Release (pod_host_ports (ct_pod ct)) (cl_ports c),
        cl_containers := cm_Remove h (cl_containers c),
        cl_props := snd (pr_DestroyKeySpace (d_props d) (cl_props c) h)\<rparr>, T(t := None), w')"
proof -
  let ?qs = "pod_host_ports (ct_pod ct)"
  let ?T = "T(t \<mapsto> Releasing h ?qs)" and ?T' = "T(t \<mapsto> Releasing h [])" and ?T'' = "T(t \<mapsto> Clearing h)"
  let ?c = "c\<lparr>cl_ports := fold pm_Release ?qs (cl_ports c)\<rparr>"
  let ?c' = "?c\<lparr>cl_containers := cm_Remove h (cl_containers ?c)\<rparr>"
  have "conc_step d ok ex (c, T, w) (c, ?T, w')"
    using deleted [where T = T and t = t, OF t same_claims_refl del] .
  also have "conc_run d ok ex (c, ?T, w') (?c, ?T(t \<mapsto> Releasing h []), w')"
    by (rule releases_are_run) simp
  also have "conc_step d ok ex (?c, ?T(t \<mapsto> Releasing h []), w') (?c', ?T'(t \<mapsto> Clearing h), w')"
    using removed [where T = ?T' and t = t and h = h and c = ?c and d = d and ok = ok] by simp
  also have "conc_step d ok ex (?c', ?T'(t \<mapsto> Clearing h), w')
      (?c'\<lparr>cl_props := snd (pr_DestroyKeySpace (d_props d) (cl_props ?c') h)\<rparr>, ?T''(t := None), w')"
    using properties_cleared [where T = ?T'' and t = t and h = h and c = ?c' and d = d and ok = ok] by simp
  finally show ?thesis by simp
qed

lemma destroy_is_run:
  assumes "client_Destroy d c h w = Some (r, c', w')" and t: "T t = None"
    and ex: "ex \<longrightarrow> destroying T h = {}"
  shows "conc_run d ok ex (c, T, w) (c', T, w')"
proof (cases "cl_view c h")
  case None
  with assms(1) show ?thesis by (simp add: client_Destroy_def cm.get_eq)
next
  case (Some ct)
  let ?T = "T(t \<mapsto> Deleting h ct)"
  have idle: "T(t := None) = T" using t by auto
  have "cm_Get h (cl_containers c) = Ok ct" by (simp add: cm.get_eq Some)
  from destroy_begins [where T = T and t = t and ok = ok and exclusive = ex, OF t this ex]
  have begun: "conc_run d ok ex (c, T, w) (c, ?T, w)" by (rule r_into_rtranclp)
  have here: "?T t = Some (Deleting h ct)" by simp
  from assms(1) Some obtain e w1 where
    del: "deletePod (d_k8s d) (d_clock d) (ct_pod ct) w = Some (e, w1)"
    by (auto simp: client_Destroy_def cm.get_eq split: option.splits)
  show ?thesis
  proof (cases e)
    case (Some e')
    from not_deleted [where T = ?T and t = t, OF here same_claims_refl del [unfolded Some]]
    have "conc_step d ok ex (c, ?T, w) (c, T, w1)" by (simp add: idle del: fun_upd_apply)
    moreover have "c' = c" "w' = w1"
      using assms(1) \<open>cl_view c h = Some ct\<close> del Some by (auto simp: client_Destroy_def cm.get_eq)
    ultimately show ?thesis using begun by (auto intro: rtranclp.rtrancl_into_rtrancl)
  next
    case None
    let ?c = "c\<lparr>cl_ports := fold pm_Release (pod_host_ports (ct_pod ct)) (cl_ports c),
      cl_containers := cm_Remove h (cl_containers c),
      cl_props := snd (pr_DestroyKeySpace (d_props d) (cl_props c) h)\<rparr>"
    from rest_of_destroy_is_run [where T = ?T and t = t and ok = ok and ex = ex, OF here del [unfolded None]]
    have "conc_run d ok ex (c, ?T, w) (?c, T, w1)" by (simp add: idle del: fun_upd_apply)
    moreover have "c' = ?c" "w' = w1"
      using assms(1) Some del None
      by (auto simp: client_Destroy_def cm.get_eq Let_def release_ports_fold split: prod.splits option.splits)
    ultimately show ?thesis using begun by auto
  qed
qed

text \<open>Every history of calls one after the other is among the histories of calls side by side, so
  what holds for these holds for it. The converse is not meant: \<open>conc_step\<close> lets a starting
  \<open>Create\<close> write to its pod and its tasks, and the world and the properties change, at any time;
  what a call does exactly is in CallSteps.\<close>

lemma sequential_is_concurrent:
  assumes "client_run d ok (c, w) (c', w')" and "k8s_keeps (d_k8s d)"
  shows "conc_run d ok ex (c, idle, w) (c', idle, w')"
  using assms(1)
proof (induction "(c, w)" "(c', w')" arbitrary: c' w' rule: client_run.induct)
  case run_refl
  then show ?case by simp
next
  case (run_step t)
  obtain c1 w1 where t: "t = (c1, w1)" by (cases t)
  have "conc_run d ok ex (c1, idle, w1) (c', idle, w')"
    using run_step.hyps(3) [unfolded t]
  proof (cases rule: client_step.cases)
    case (create spec r nis)
    then show ?thesis by (intro create_is_run [OF assms(2)]) auto
  next
    case (destroy h r)
    then show ?thesis by (intro destroy_is_run) (auto simp: destroying_def)
  next
    case (properties pm)
    have "conc_step d ok ex (c1, idle, w1) (c1\<lparr>cl_props := pm\<rparr>, idle, w1)" by (rule other_properties)
    with properties show ?thesis by auto
  next
    case world
    have "conc_step d ok ex (c1, idle, w1) (c1, idle, w')" by (rule other_world)
    with world show ?thesis by auto
  qed
  with run_step.hyps(2) [OF t] show ?case by auto
qed

subsection \<open>Exclusive destroys are enough\<close>

text \<open>C3: However calls of \<open>Create\<close> and \<open>Destroy\<close> interleave, as long as no handle is destroyed twice
  at once and the specs leave the host ports to the client, two containers whose pods are not yet
  gone never claim the same host port; none claims one twice, and all are recorded as allocated.\<close>

theorem concurrent_no_shared_ports:
  assumes "fresh_client c0" and "conc_run d all_auto True (c0, idle, w0) (c, T, w)"
    and "cl_view c h = Some ct" "\<not> being_released T h"
    and "cl_view c h' = Some ct'" "\<not> being_released T h'" and "h \<noteq> h'"
  shows "set (pod_host_ports (ct_pod ct)) \<inter> set (pod_host_ports (ct_pod ct')) = {} \<and>
     distinct (pod_host_ports (ct_pod ct)) \<and>
     set (pod_host_ports (ct_pod ct)) \<subseteq> port_window \<inter> cl_held c"
proof -
  have inv: "conc_inv c T" by (rule conc_run_inv [OF assms(2) fresh_conc_inv [OF assms(1)]])
  note shares = shares_okD [OF conc_invD(1) [OF inv]]
  have hold: "holding c T (Registered h) = pod_host_ports (ct_pod ct)"
    "holding c T (Registered h') = pod_host_ports (ct_pod ct')"
    using assms(3-6) by (simp_all add: claim_list_def)
  have "Registered h \<noteq> Registered h'" using assms(7) by simp
  from shares(3) [OF this] shares(1,2) [of "Registered h"] conc_invD(2) [OF inv] show ?thesis
    unfolding hold by auto
qed

text \<open>The rest of a \<open>Create\<close> whose ports are chosen and whose image is found.\<close>

lemma builds_and_adds:
  assumes t: "T t = Some (Choosing spec [] ports)" and free: "cl_view c (spec_Handle spec) = None"
    and res: "resolve_image d spec w = (Ok x, w0)"
  obtains c' ct w' where "conc_run d ok ex (c, T, w) (c', T(t \<mapsto> Starting (spec_Handle spec)), w')"
    "cl_view c' = (cl_view c)(spec_Handle spec \<mapsto> ct)" "cl_ports c' = cl_ports c"
    "pod_host_ports (ct_pod ct) = map cp_HostPort ports"
proof -
  obtain img env sz where x: "x = (img, env, sz)" by (metis prod.exhaust)
  obtain p w' where bp: "build_pod (cl_config c) (d_OwnerKey d) (d_IntOutOfRange d) (d_IntN d) spec
      (cpu_assignment (cl_config c) spec) ports img sz w0 = (p, w')" by (metis prod.exhaust)
  from register_fresh [OF free, of d p env "cpu_assignment (cl_config c) spec" sz] obtain ct c' where
    reg: "register d spec p env (cpu_assignment (cl_config c) spec) sz c = (Ok (p, ct), c')"
      "cl_view c' = (cl_view c)(spec_Handle spec \<mapsto> ct)" "cl_ports c' = cl_ports c" and ct: "ct_pod ct = p"
    by (auto simp: NewContainer_def)
  from bp have "pod_host_ports (ct_pod ct) = map cp_HostPort ports"
    by (metis fst_conv pod_host_ports_def pod_ports_build ct)
  with build_is_run [where T = T and t = t and ok = ok and ex = ex, OF t res [unfolded x] bp reg(1)] reg(2,3)
  show thesis by (rule that)
qed

text \<open>One rule, to be chosen by the client, and an image that is found in every world.\<close>

definition startable :: "('w, 'img, 'task, 'pm) deps \<Rightarrow> container_spec \<Rightarrow> bool" where
  "startable d spec \<longleftrightarrow> (\<exists>ni. spec_NetIn spec = [ni] \<and> ni_HostPort ni = 0) \<and>
     (\<forall>w. \<exists>x w'. resolve_image d spec w = (Ok x, w'))"

lemma startable_auto: "startable d spec \<Longrightarrow> all_auto spec"
  by (auto simp: startable_def all_auto_def)

lemma choosing_runs:
  assumes "startable d spec" "T t = None" "cl_view c (spec_Handle spec) = None"
    and nxt: "pm_Next (cl_ports c) = (Ok port, pm)"
  obtains ports where "map cp_HostPort ports = [port]"
    "conc_run d all_auto ex (c, T, w) (c\<lparr>cl_ports := pm\<rparr>, T(t \<mapsto> Choosing spec [] ports), w)"
proof -
  obtain ni where ni: "spec_NetIn spec = [ni]" "ni_HostPort ni = 0"
    using assms(1) by (auto simp: startable_def)
  let ?T = "T(t \<mapsto> Choosing spec [ni] [])"
  have "\<not> cm_Exists (spec_Handle spec) (cl_containers c)" using assms(3) by (simp add: cm.exists_eq)
  from create_begins [where T = T and t = t and ok = all_auto and spec = spec, OF assms(2)
      startable_auto [OF assms(1)] this]
  have "conc_step d all_auto ex (c, T, w) (c, ?T, w)" by (simp add: ni(1) del: fun_upd_apply)
  moreover have "conc_step d all_auto ex (c, ?T, w)
      (c\<lparr>cl_ports := pm\<rparr>, ?T(t \<mapsto> Choosing spec [] ([] @ [container_port_of ni port])), w)"
    by (rule port_chosen [where T = ?T and t = t and nis = "[]", OF _ ni(2) nxt]) simp
  then have "conc_step d all_auto ex (c, ?T, w)
      (c\<lparr>cl_ports := pm\<rparr>, T(t \<mapsto> Choosing spec [] [container_port_of ni port]), w)"
    by (simp del: fun_upd_apply)
  ultimately have "conc_run d all_auto ex (c, T, w)
      (c\<lparr>cl_ports := pm\<rparr>, T(t \<mapsto> Choosing spec [] [container_port_of ni port]), w)"
    by (meson rtranclp.rtrancl_into_rtrancl rtranclp.rtrancl_refl)
  then show thesis by (intro that) (simp_all add: container_port_of_def)
qed

lemma creates_alone:
  assumes "startable d spec" and t: "T t = None" and free: "cl_view c (spec_Handle spec) = None"
    and nxt: "pm_Next (cl_ports c) = (Ok port, pm)"
  obtains c' ct w' where "conc_run d all_auto ex (c, T, w) (c', T, w')"
    "cl_view c' = (cl_view c)(spec_Handle spec \<mapsto> ct)" "cl_ports c' = pm"
    "pod_host_ports (ct_pod ct) = [port]"
proof (rule choosing_runs [where T = T and t = t, OF assms(1) t free nxt, of ex w])
  fix ports
  let ?T = "T(t \<mapsto> Choosing spec [] ports)" and ?T' = "T(t \<mapsto> Starting (spec_Handle spec))"
  assume ports: "map cp_HostPort ports = [port]"
    and run: "conc_run d all_auto ex (c, T, w) (c\<lparr>cl_ports := pm\<rparr>, ?T, w)"
  have idle: "T(t := None) = T" using t by auto
  obtain x w0 where res: "resolve_image d spec w = (Ok x, w0)"
    using assms(1) unfolding startable_def by blast
  have here: "?T t = Some (Choosing spec [] ports)" "cl_view (c\<lparr>cl_ports := pm\<rparr>) (spec_Handle spec) = None"
    using free by simp_all
  show thesis
  proof (rule builds_and_adds [where T = ?T and t = t, OF here res, of all_auto ex])
    fix c' ct w'
    assume "conc_run d all_auto ex (c\<lparr>cl_ports := pm\<rparr>, ?T, w) (c', ?T(t \<mapsto> Starting (spec_Handle spec)), w')"
      and c': "cl_view c' = (cl_view (c\<lparr>cl_ports := pm\<rparr>))(spec_Handle spec \<mapsto> ct)"
        "cl_ports c' = cl_ports (c\<lparr>cl_ports := pm\<rparr>)" "pod_host_ports (ct_pod ct) = map cp_HostPort ports"
    then have "conc_run d all_auto ex (c\<lparr>cl_ports := pm\<rparr>, ?T, w) (c', ?T', w')"
      by (simp del: fun_upd_apply)
    moreover have "conc_step d all_auto ex (c', ?T', w') (c', ?T'(t := None), w')"
      by (rule create_ends [where T = ?T' and t = t]) simp
    then have "conc_step d all_auto ex (c', ?T', w') (c', T, w')" by (simp add: idle del: fun_upd_apply)
    ultimately have "conc_run d all_auto ex (c, T, w) (c', T, w')"
      using run by (meson rtranclp.rtrancl_into_rtrancl rtranclp_trans)
    with c' ports show thesis by (intro that) simp_all
  qed
qed

lemma sample_startable [simp]: "startable sample_deps (sample_spec h [auto_rule])"
  by (simp add: startable_def resolve_image_def sample_spec_def auto_rule_def CutPrefix_def return_ok_def)

lemma next_of_empty: "allocated pm = {} \<Longrightarrow> pm_Next pm = (Ok startPort, pm\<lparr>allocated := {startPort}\<rparr>)"
  by (simp add: pm_Next_def first_free_unfold startPort_def MaxUint16_def)

lemma next_of_first:
  "allocated pm = {startPort} \<Longrightarrow> pm_Next pm = (Ok 62001, pm\<lparr>allocated := {62001, startPort}\<rparr>)"
  by (simp add: pm_Next_def first_free_unfold startPort_def MaxUint16_def)

text \<open>Two calls of \<open>Create\<close> that choose their ports in one order and register in the other.\<close>

lemma both_choose:
  assumes "fresh_client c" "startable d s1" "startable d s2"
  obtains ps1 ps2 pm where "map cp_HostPort ps1 = [startPort]" "map cp_HostPort ps2 = [62001]"
    "conc_run d all_auto ex (c, idle, w)
       (c\<lparr>cl_ports := pm\<rparr>, idle(0 \<mapsto> Choosing s1 [] ps1, 1 \<mapsto> Choosing s2 [] ps2), w)"
proof -
  let ?pm1 = "(cl_ports c)\<lparr>allocated := {startPort}\<rparr>"
  let ?pm2 = "?pm1\<lparr>allocated := {62001, startPort}\<rparr>" and ?c1 = "c\<lparr>cl_ports := ?pm1\<rparr>"
  have free: "cl_view c (spec_Handle s1) = None" "cl_view ?c1 (spec_Handle s2) = None"
    and nxt: "pm_Next (cl_ports c) = (Ok startPort, ?pm1)" "pm_Next (cl_ports ?c1) = (Ok 62001, ?pm2)"
    using assms(1) next_of_empty [of "cl_ports c"] next_of_first [of ?pm1]
    by (simp_all add: fresh_client_def cm.view_empty newPortManager_def)
  obtain ps1 where 1: "map cp_HostPort ps1 = [startPort]"
      "conc_run d all_auto ex (c, idle, w) (?c1, idle(0 \<mapsto> Choosing s1 [] ps1), w)"
    by (rule choosing_runs [where T = idle and t = 0, OF assms(2) refl free(1) nxt(1)])
  let ?T1 = "idle(0 \<mapsto> Choosing s1 [] ps1)"
  have "?T1 1 = None" by simp
  then obtain ps2 where 2: "map cp_HostPort ps2 = [62001]"
      "conc_run d all_auto ex (?c1, ?T1, w) (?c1\<lparr>cl_ports := ?pm2\<rparr>, ?T1(1 \<mapsto> Choosing s2 [] ps2), w)"
    by (rule choosing_runs [where T = ?T1 and t = 1, OF assms(3) _ free(2) nxt(2)])
  have "?c1\<lparr>cl_ports := ?pm2\<rparr> = c\<lparr>cl_ports := ?pm2\<rparr>" by simp
  with 1 2 show thesis by (intro that [of ps1 ps2 ?pm2]) (auto simp del: fun_upd_apply)
qed

lemma both_register:
  assumes "fresh_client c" "startable d s1" "startable d s2" and h: "spec_Handle s1 \<noteq> spec_Handle s2"
  obtains c' T ct1 ct2 w' where
    "conc_run d all_auto ex (c, idle, w) (c', T, w')" "\<forall>h. \<not> being_released T h"
    "cl_view c' (spec_Handle s1) = Some ct1" "cl_view c' (spec_Handle s2) = Some ct2"
    "pod_host_ports (ct_pod ct1) = [startPort]"
proof -
  obtain ps1 ps2 pm where ps1: "map cp_HostPort ps1 = [startPort]" and
    1: "conc_run d all_auto ex (c, idle, w)
      (c\<lparr>cl_ports := pm\<rparr>, idle(0 \<mapsto> Choosing s1 [] ps1, 1 \<mapsto> Choosing s2 [] ps2), w)"
    by (rule both_choose [OF assms(1,2,3)])
  let ?c = "c\<lparr>cl_ports := pm\<rparr>" and ?T = "idle(0 \<mapsto> Choosing s1 [] ps1, 1 \<mapsto> Choosing s2 [] ps2)"
  have res: "\<exists>x w'. resolve_image d s1 v = (Ok x, w')" "\<exists>x w'. resolve_image d s2 v = (Ok x, w')" for v
    using assms(2,3) unfolding startable_def by blast+
  obtain x2 v2 where r2: "resolve_image d s2 w = (Ok x2, v2)" using res(2) by blast
  have at2: "?T 1 = Some (Choosing s2 [] ps2)" "cl_view ?c (spec_Handle s2) = None"
    using assms(1) by (simp_all add: fresh_client_def cm.view_empty)
  obtain c2 ct2 w2 where 2: "conc_run d all_auto ex (?c, ?T, w) (c2, ?T(1 \<mapsto> Starting (spec_Handle s2)), w2)"
      "cl_view c2 = (cl_view ?c)(spec_Handle s2 \<mapsto> ct2)"
    by (rule builds_and_adds [where T = ?T and t = 1, OF at2 r2])
  let ?T2 = "?T(1 \<mapsto> Starting (spec_Handle s2))"
  obtain x1 v1 where r1: "resolve_image d s1 w2 = (Ok x1, v1)" using res(1) by blast
  have at1: "?T2 0 = Some (Choosing s1 [] ps1)" "cl_view c2 (spec_Handle s1) = None"
    using 2(2) h assms(1) by (simp_all add: fresh_client_def cm.view_empty)
  obtain c' ct1 w' where 3: "conc_run d all_auto ex (c2, ?T2, w2) (c', ?T2(0 \<mapsto> Starting (spec_Handle s1)), w')"
      "cl_view c' = (cl_view c2)(spec_Handle s1 \<mapsto> ct1)" "pod_host_ports (ct_pod ct1) = map cp_HostPort ps1"
    by (rule builds_and_adds [where T = ?T2 and t = 0, OF at1 r1])
  show thesis
  proof (rule that)
    show "conc_run d all_auto ex (c, idle, w) (c', ?T2(0 \<mapsto> Starting (spec_Handle s1)), w')"
      using 1 2(1) 3(1) by (rule rtranclp_trans [OF rtranclp_trans])
  qed (use 2(2) 3(2,3) ps1 h in \<open>auto simp: being_released_def\<close>)
qed

theorem concurrent_no_shared_ports_witness:
  "\<exists>c T w ct ct'. conc_run sample_deps all_auto True (sample_client, idle, sample_world) (c, T, w) \<and>
     cl_view c ''h1'' = Some ct \<and> cl_view c ''h2'' = Some ct' \<and> pod_host_ports (ct_pod ct) \<noteq> [] \<and>
     set (pod_host_ports (ct_pod ct)) \<inter> set (pod_host_ports (ct_pod ct')) = {}"
proof -
  let ?s1 = "sample_spec ''h1'' [auto_rule]" and ?s2 = "sample_spec ''h2'' [auto_rule]"
  have h: "spec_Handle ?s1 = ''h1''" "spec_Handle ?s2 = ''h2''" by (simp_all add: sample_spec_def)
  then have "spec_Handle ?s1 \<noteq> spec_Handle ?s2" by simp
  then show ?thesis
  proof (rule both_register [OF sample_fresh sample_startable sample_startable, of _ _ True sample_world])
    fix c T ct1 ct2 w
    assume run: "conc_run sample_deps all_auto True (sample_client, idle, sample_world) (c, T, w)"
      and none: "\<forall>h. \<not> being_released T h"
      and v: "cl_view c (spec_Handle ?s1) = Some ct1" "cl_view c (spec_Handle ?s2) = Some ct2"
      and p: "pod_host_ports (ct_pod ct1) = [startPort]"
    from none have "\<not> being_released T ''h1''" "\<not> being_released T ''h2''" by simp_all
    from concurrent_no_shared_ports [OF sample_fresh run v(1) [unfolded h] this(1) v(2) [unfolded h] this(2)]
      run v p show ?thesis unfolding h
      by (intro exI [of _ c] exI [of _ T] exI [of _ w] exI [of _ ct1] exI [of _ ct2] conjI) simp_all
  qed
qed

subsection \<open>Two destroys of one handle\<close>

definition pods_can_go :: "('w, 'img, 'task, 'pm) deps \<Rightarrow> bool" where
  "pods_can_go d \<longleftrightarrow> (\<forall>p w. \<exists>w'. deletePod (d_k8s d) (d_clock d) p w = Some (None, w'))"

lemma destroy_finishes:
  assumes "pods_can_go d" "T t = Some (Deleting h ct)"
  obtains c' w' where "conc_run d ok ex (c, T, w) (c', T(t := None), w')"
    "cl_view c' = (cl_view c)(h := None)" "cl_held c' = cl_held c - set (pod_host_ports (ct_pod ct))"
proof -
  obtain w' where del: "deletePod (d_k8s d) (d_clock d) (ct_pod ct) w = Some (None, w')"
    using assms(1) unfolding pods_can_go_def by blast
  from rest_of_destroy_is_run [where T = T and t = t and ok = ok and ex = ex, OF assms(2) del]
  show thesis by (rule that) (simp_all add: cm.view_remove pm.held_release_fold)
qed

lemma two_destroys_begin:
  fixes c :: "('task, 'pm) client"
  assumes "cl_view c h = Some ct"
  shows "conc_run d ok False (c, idle, w) (c, idle(1 \<mapsto> Deleting h ct, 2 \<mapsto> Deleting h ct), w)"
proof -
  let ?T = "idle(1 \<mapsto> Deleting h ct)"
  have get: "cm_Get h (cl_containers c) = Ok ct" using assms by (simp add: cm.get_Ok_iff)
  have "conc_step d ok False (c, idle, w) (c, ?T, w)"
    by (rule destroy_begins [where T = idle and t = 1, OF refl get]) simp
  moreover have "conc_step d ok False (c, ?T, w) (c, ?T(2 \<mapsto> Deleting h ct), w)"
    by (rule destroy_begins [where T = ?T and t = 2, OF _ get]) simp_all
  ultimately show ?thesis by (meson rtranclp.rtrancl_into_rtrancl rtranclp.rtrancl_refl)
qed

lemma next_first:
  "allocated pm = {} \<Longrightarrow> \<exists>pm'. pm_Next pm = (Ok startPort, pm') \<and> allocated pm' = {startPort}"
  using next_of_empty by force

text \<open>One of two overlapping destroys has returned, and a new container uses the port.\<close>

lemma released_once:
  fixes c0 :: "('task, 'pm) client"
  assumes "fresh_client c0" and "pods_can_go d" and "startable d s1" "startable d s2"
  obtains c w ct1 ct2 where
    "conc_run d all_auto False (c0, idle, w0) (c, idle(2 \<mapsto> Deleting (spec_Handle s1) ct1), w)"
    "cl_view c = [spec_Handle s2 \<mapsto> ct2]" "cl_held c = {startPort}"
    "pod_host_ports (ct_pod ct1) = [startPort]" "pod_host_ports (ct_pod ct2) = [startPort]"
proof -
  let ?run = "conc_run d all_auto False" and ?h = "spec_Handle s1"
  have 0: "cl_view c0 = Map.empty" "cl_held c0 = {}"
    using assms(1) by (simp_all add: fresh_client_def cm.view_empty newPortManager_def)
  obtain pm1 where n1: "pm_Next (cl_ports c0) = (Ok startPort, pm1)" "allocated pm1 = {startPort}"
    using next_first [OF 0(2)] by blast
  have "cl_view c0 ?h = None" by (simp add: 0(1))
  then obtain c1 ct1 w1 where 1: "?run (c0, idle, w0) (c1, idle, w1)" "cl_view c1 = (cl_view c0)(?h \<mapsto> ct1)"
      "cl_ports c1 = pm1" "pod_host_ports (ct_pod ct1) = [startPort]"
    by (rule creates_alone [where T = idle and t = 0, OF assms(3) refl _ n1(1)])
  let ?T = "idle(1 \<mapsto> Deleting ?h ct1, 2 \<mapsto> Deleting ?h ct1)" and ?T2 = "idle(2 \<mapsto> Deleting ?h ct1)"
  have 2: "?run (c1, idle, w1) (c1, ?T, w1)" by (rule two_destroys_begin) (simp add: 1(2))
  have T: "?T(1 := None) = ?T2" by (auto simp: fun_eq_iff)
  have "?T 1 = Some (Deleting ?h ct1)" by simp
  then obtain c2 w2 where 3: "?run (c1, ?T, w1) (c2, ?T2, w2)" "cl_view c2 = (cl_view c1)(?h := None)"
      "cl_held c2 = cl_held c1 - set (pod_host_ports (ct_pod ct1))"
    by (rule destroy_finishes [where T = ?T and t = 1, OF assms(2), unfolded T])
  have held2: "cl_held c2 = {}" and view2: "cl_view c2 = Map.empty"
    using 3(2,3) 1(2,3,4) n1(2) 0(1) by simp_all
  obtain pm2 where n2: "pm_Next (cl_ports c2) = (Ok startPort, pm2)" "allocated pm2 = {startPort}"
    using next_first [OF held2] by blast
  have "?T2 0 = None" "cl_view c2 (spec_Handle s2) = None" by (simp_all add: view2)
  then obtain c3 ct2 w3 where 4: "?run (c2, ?T2, w2) (c3, ?T2, w3)"
      "cl_view c3 = (cl_view c2)(spec_Handle s2 \<mapsto> ct2)" "cl_ports c3 = pm2"
      "pod_host_ports (ct_pod ct2) = [startPort]"
    by (rule creates_alone [where T = ?T2 and t = 0, OF assms(4) _ _ n2(1)])
  have "?run (c0, idle, w0) (c3, ?T2, w3)" using 1(1) 2 3(1) 4(1) by (meson rtranclp_trans)
  then show thesis by (rule that) (use 4(2-4) view2 n2(2) 1(4) in simp_all)
qed

text \<open>C15: Two calls of \<open>Destroy\<close> of one handle that overlap release its ports twice. When a container
  is created between the two releases, a third one gets the port it uses: both stay registered
  with the same host port after every call has returned.\<close>

theorem overlapping_destroys_share_port:
  fixes c0 :: "('task, 'pm) client"
  assumes "fresh_client c0" and "pods_can_go d"
    and "startable d s1" "startable d s2" "startable d s3"
    and "distinct [spec_Handle s1, spec_Handle s2, spec_Handle s3]"
  shows "\<exists>c w ct2 ct3. conc_run d all_auto False (c0, idle, w0) (c, idle, w) \<and>
     cl_view c (spec_Handle s2) = Some ct2 \<and> cl_view c (spec_Handle s3) = Some ct3 \<and>
     pod_host_ports (ct_pod ct2) = [startPort] \<and> pod_host_ports (ct_pod ct3) = [startPort]"
proof (rule released_once [OF assms(1-4), of w0])
  fix c3 w3 and ct1 ct2 :: "'task container"
  let ?run = "conc_run d all_auto False" and ?h = "spec_Handle s1"
  let ?T2 = "idle(2 \<mapsto> Deleting ?h ct1)"
  assume 1: "?run (c0, idle, w0) (c3, ?T2, w3)" "cl_view c3 = [spec_Handle s2 \<mapsto> ct2]"
    "cl_held c3 = {startPort}" "pod_host_ports (ct_pod ct1) = [startPort]"
    "pod_host_ports (ct_pod ct2) = [startPort]"
  have T: "?T2(2 := None) = idle" by (auto simp: fun_eq_iff)
  have "?T2 2 = Some (Deleting ?h ct1)" by simp
  then obtain c4 w4 where 2: "?run (c3, ?T2, w3) (c4, idle, w4)" "cl_view c4 = (cl_view c3)(?h := None)"
      "cl_held c4 = cl_held c3 - set (pod_host_ports (ct_pod ct1))"
    by (rule destroy_finishes [where T = ?T2 and t = 2, OF assms(2), unfolded T])
  have "cl_held c4 = {}" using 2(3) 1(3,4) by simp
  then obtain pm3 where n3: "pm_Next (cl_ports c4) = (Ok startPort, pm3)" using next_first by blast
  have "cl_view c4 (spec_Handle s3) = None" using 2(2) 1(2) assms(6) by auto
  then obtain c5 ct3 w5 where 3: "?run (c4, idle, w4) (c5, idle, w5)"
      "cl_view c5 = (cl_view c4)(spec_Handle s3 \<mapsto> ct3)" "pod_host_ports (ct_pod ct3) = [startPort]"
    by (rule creates_alone [where T = idle and t = 0, OF assms(5) refl _ n3])
  have "?run (c0, idle, w0) (c5, idle, w5)" using 1(1) 2(1) 3(1) by (meson rtranclp_trans)
  moreover have "cl_view c5 (spec_Handle s2) = Some ct2" "cl_view c5 (spec_Handle s3) = Some ct3"
    using 3(2) 2(2) 1(2) assms(6) by simp_all
  ultimately show ?thesis using 1(5) 3(3) by blast
qed

theorem overlapping_destroys_share_port_witness:
  "\<exists>c w ct2 ct3. conc_run sample_deps all_auto False (sample_client, idle, sample_world) (c, idle, w) \<and>
     cl_view c ''h2'' = Some ct2 \<and> cl_view c ''h3'' = Some ct3 \<and>
     pod_host_ports (ct_pod ct2) = [startPort] \<and> pod_host_ports (ct_pod ct3) = [startPort]"
proof -
  have "pods_can_go sample_deps" using sample_deletePod by (simp add: pods_can_go_def)
  moreover have "distinct [spec_Handle (sample_spec ''h1'' [auto_rule]),
      spec_Handle (sample_spec ''h2'' [auto_rule]), spec_Handle (sample_spec ''h3'' [auto_rule])]"
    by (simp add: sample_spec_def)
  ultimately show ?thesis
    using overlapping_destroys_share_port [OF sample_fresh _ sample_startable sample_startable sample_startable,
      of "''h1''" "''h2''" "''h3''" sample_world] by (simp add: sample_spec_def)
qed

end
