(* ===== verification/Spec2Isabelle.thy ===== *)
theory Spec2Isabelle
  imports Prelude PortManager ContainerMap Float64 Garden PodSpec Process Container Kubelet
    Containerd Client Create CreateFacts Lifecycle PortLedger KlogSink Watch WaitGarden GoStd RepMain Executor
    ExecutorInit Sample ClientProps BuildProps InitProps RepStart RunProps Doubles Fakes FakeProps Concurrent
    ConcurrentProps CallSteps InitOrder
begin

text \<open>
  A model of the garden client for Kubernetes (module \<open>k8s-garden-client\<close>): a cell's executor
  asks for containers over the garden interface, and this program answers with pods of the node it
  runs on, the tasks that containerd runs for them, and the figures of the kubelet. The theories
  follow the Go files; every definition that translates code has the name of the function or type
  it translates, with a suffix or prefix only where HOL has the name already.

  \<^bold>\<open>The program and its theories\<close>

  \<^item> \<open>cmd/rep\<close> is the daemon of a cell. \<open>RepMain\<close> has the decisions of its \<open>main.go\<close> (the
    root file systems on offer, addresses, the certificate check, the presence record),
    \<open>RepStart\<close> the \<open>main\<close> function itself: configuration, executor, services, process group
    and the ways it ends. It calls \<open>executor.Initialize\<close>.
  \<^item> \<open>pkg/executor/init.go\<close> builds the executor. \<open>Executor\<close> has its configuration and
    helpers (\<open>Validate\<close>, TLS, credentials, \<open>setupWorkDir\<close>, \<open>destroyContainers\<close>),
    \<open>ExecutorInit\<close> has \<open>Initialize\<close> in the stages of the code and the controller
    manager, \<open>InitOrder\<close> its steps in order, with what it is that each of them succeeds, \<open>WaitGarden\<close> the loop of \<open>waitForGarden\<close> as a state machine, \<open>InitProps\<close>
    what a start guarantees. It creates the garden client and destroys the containers a
    former executor has left.
  \<^item> \<open>pkg/k8sgarden/client.go\<close> is the garden client. Its state is the record \<open>client\<close>: the
    configuration, the registry (\<open>ContainerMap\<close>, \<open>container_map.go\<close>), the host-port
    allocator (\<open>PortManager\<close>, \<open>port_manager.go\<close>) and the property manager. \<open>PodSpec\<close>
    computes the pod of a container spec (with \<open>Float64\<close> for the CPU share), \<open>Client\<close> has
    \<open>NewClient\<close>, the metrics and the queries, \<open>Create\<close> has \<open>Create\<close>, \<open>Destroy\<close> and
    \<open>deletePod\<close>, \<open>CallSteps\<close> the single accesses and calls these two make, \<open>Concurrent\<close> the steps of
    calls that interleave, as far as they matter for the ports. \<open>factory.go\<close> and \<open>mocks/rootfssizer.go\<close> are in \<open>ExecutorInit\<close>, where
    they are used.
  \<^item> \<open>Container\<close> (\<open>container.go\<close>) and \<open>Process\<close> (\<open>process.go\<close>) are what \<open>Create\<close>
    hands out: a pod with its tasks, and a process in one of them.
  \<^item> \<open>Containerd\<close> (\<open>containerd/client.go\<close>) and \<open>Kubelet\<close> (\<open>kubelet/client.go\<close>)
    wrap the two services of the node; \<open>KlogSink\<close> (\<open>log/klog_sink.go\<close>) adapts the log.
  \<^item> \<open>Watch\<close> (\<open>cmd/watch/main.go\<close>) is the side program that makes the rep evacuate when its
    node is cordoned.
  \<^item> \<open>Doubles\<close>, \<open>Fakes\<close> and \<open>FakeProps\<close> are the generated test doubles under
    \<open>containerdfakes\<close> and \<open>kubeletfakes\<close>: the shape of a generated method once
    (\<open>fake_method\<close>), each fake as a struct of such methods.
  \<^item> \<open>Prelude\<close> has Go's errors, outcomes, maps and strings; \<open>GoStd\<close> more of the standard
    library; \<open>Garden\<close> the data of the garden and Kubernetes interfaces and the services
    outside the repository as records of functions; \<open>Sample\<close> a small world of such services
    in which the witnesses run.

  \<^bold>\<open>How code becomes definitions\<close>

  An operation takes its state and the state \<open>'w\<close> of the outside world and returns its outcome
  (\<open>res\<close>: a value, an error, a panic) with both. A mutex makes a method one step. A polling loop
  is a \<open>partial_function\<close> whose \<open>None\<close> is not returning. Integers are words of their width.
  Where the order of calls matters the state carries the list of calls made (\<open>traced\<close>);
  \<open>Initialize\<close> is composed of calls that may not return (\<open>pact\<close>). Goroutines that run
  side by side are inductive step relations (\<open>wait_step\<close>, \<open>watch_step\<close>, \<open>conc_step\<close>), or an
  order of completion as an argument (\<open>destroyContainers\<close>). A pod is shared by pointer between the
  calls to the API server and the registry: \<open>set_pod\<close> writes its changes to the entry.

  \<^bold>\<open>Interfaces\<close>

  What one component relies on is a locale with its lemmas, interpreted on the definitions of the
  component that provides it: \<open>port_source\<close> and \<open>windowed_port_source\<close> (the allocator for
  \<open>Create\<close>), \<open>container_registry\<close> (the map of containers for the client), \<open>task_loader\<close>
  (containerd for \<open>Create\<close>), \<open>metrics_source\<close> (the kubelet for \<open>BulkMetrics\<close>),
  \<open>garden_service\<close> (the client's \<open>Destroy\<close> for \<open>destroyContainers\<close>),
  \<open>recoverable_ping\<close> (the client's \<open>Ping\<close> for \<open>waitForGarden\<close>), \<open>double_field\<close> (a field
  of a fake for the functions of its method).

  \<^bold>\<open>What is proved\<close>

  \<^item> Host ports. \<open>CreateFacts\<close> has what each stage of \<open>Create\<close> and \<open>Destroy\<close> does to
    registry and allocator, \<open>Lifecycle\<close> the histories of the two with the invariant
    \<open>ports_owned\<close>, \<open>PortLedger\<close> an abstract ledger of ports that the client refines. From
    an empty node on, no two containers share a host port, as long as the caller leaves the
    ports to the client; ports named by the caller, and ports of pods that survived a restart,
    can be given out a second time, and a \<open>Create\<close> that fails keeps its ports for good.
  \<^item> Steps and interleaving. \<open>CallSteps\<close> shows that \<open>Create\<close> and \<open>Destroy\<close> are exactly the
    iteration of their single steps, the polling included. \<open>Concurrent\<close> has the invariant that every
    taken port has one holder, a registered container or a call under way; \<open>ConcurrentProps\<close> that
    ports stay apart under every interleaving in which no handle is destroyed twice at once, and
    that two overlapping destroys of a handle break it.
  \<^item> The life of a container: success, every kind of failure, the round trip of creating and
    destroying, and that the polling loops of both end for every answer of the API server.
  \<^item> The client's data: well-formedness of the registry from the start on, what a restart
    restores, which containers a query lists (\<open>ClientProps\<close>), the pod's limits, mounts and ports
    and the metrics (\<open>BuildProps\<close>).
  \<^item> The start: the steps of \<open>Initialize\<close>, at the first of which that does not succeed it stops, the
    removal of stray containers for every order of completion, which pods the cache holds, the
    states of \<open>waitForGarden\<close>, and how the rep ends.
  \<^item> Running processes: which task of a created container a process runs in, with what, and when
    \<open>Run\<close> panics (\<open>RunProps\<close>).
  \<^item> Processes, containerd, kubelet, log, watcher, fakes: the order of the calls on every path,
    with the resources that are released on it or not, and what the results hold.

  \<^bold>\<open>Bounds and termination\<close>

  The window of host ports is 62000 to 65534, so the search of \<open>Next\<close> ends after at most 3535
  rounds; it is total by the distance to 65535. \<open>Create\<close> polls every 500 ms until a deadline of
  two minutes, \<open>deletePod\<close> until one of ten seconds. That these loops return is proved from
  \<open>clock_laws\<close> (a \<open>select\<close> between a deadline and a timer picks the deadline once it has
  passed, and time goes on otherwise) and \<open>time_flows\<close> (a call takes no negative time), with the
  time left as measure; there is no fuel. Every single call of the API server and of containerd is
  taken to return: they are total functions of the model, also those the code makes with
  \<open>context.Background()\<close> and so without a deadline (the creation of the pod, the pull, the
  configuration and the deletion of the image, the loading of the tasks). The loop over the PEM blocks of a certificate returns
  because the decoder shortens its input (\<open>decode_shortens\<close>). \<open>pingForever\<close> may run for
  ever, and does exactly when every ping is answered.

  \<^bold>\<open>What is assumed of code outside the repository\<close>

  Every theorem that needs a law of a service names it as a hypothesis with a witness in the
  world of \<open>Sample\<close>: the API server fills in a pod without changing its name or ports
  (\<open>k8s_keeps\<close>), the clock (above), the property manager of guardian (\<open>property_laws\<close>). That a
  single call returns is assumed throughout by the types of the parameters, except where \<open>None\<close>
  stands for not returning (\<open>waitForGarden\<close> and the deletions in \<open>Initialize\<close>).

  \<^bold>\<open>Not modelled\<close>

  Logging (but for what it dereferences), metrics sent to loggregator, and the names of log
  entries. The evaluation of HTTP, JSON, x509 and PEM is a parameter. The executor's own packages,
  the auction, BBS and locket clients and the runners of the process groups are library code: what
  is modelled is with which arguments and in which order the program makes and starts them. In
  \<open>Initialize\<close> a failure of the manager's goroutine after the cache has synced (an exit of the
  process at any later time) is left out. Go's memory model is taken as sequential consistency
  under the mutexes; what a starting \<open>Create\<close> writes to its container is in \<open>conc_step\<close> any
  write that keeps name and ports of the pod. A stub of a fake that calls its own fake is left out.
\<close>

section \<open>Creating and destroying containers\<close>

text \<open>C1: In every history of a client that starts on a node without pods and is asked for specs
  that leave the host ports to it, two different containers never claim the same host port; a
  container claims none twice, and all its ports are from the window and recorded as
  allocated.\<close>

theorem no_shared_host_ports:
  assumes "fresh_client c0" and "k8s_keeps (d_k8s d)" and "client_run d all_auto (c0, w0) (c, w)"
    and "cl_view c h = Some ct" and "cl_view c h' = Some ct'" and "h \<noteq> h'"
  shows "set (pod_host_ports (ct_pod ct)) \<inter> set (pod_host_ports (ct_pod ct')) = {} \<and>
     distinct (pod_host_ports (ct_pod ct)) \<and>
     set (pod_host_ports (ct_pod ct)) \<subseteq> port_window \<inter> cl_held c"
proof -
  have "ports_owned c"
    using run_keeps_owned [OF assms(3,2)] fresh_client_owned [OF assms(1)] by simp
  note own = ports_ownedD [OF this]
  show ?thesis
    using own(2) own(4) [OF assms(4)] own(5) [of h] own(6) [OF assms(6)] assms(4,5) by auto
qed

lemma sample_two_run:
  obtains ct1 ct2 c w where
    "client_run sample_deps all_auto (sample_client, sample_world) (c, w)"
    "cl_view c ''h1'' = Some ct1" "cl_view c ''h2'' = Some ct2"
    "pod_host_ports (ct_pod ct1) = [62000]" "pod_host_ports (ct_pod ct2) = [62001]"
proof (rule sample_second)
  fix ct1 c1 w1 ct2 c2 w2
  assume 1: "client_Create sample_deps sample_client (sample_spec ''h1'' [auto_rule]) sample_world =
       Some (Ok ct1, [auto_rule\<lparr>ni_HostPort := 62000\<rparr>], c1, w1)"
    and 2: "client_Create sample_deps c1 (sample_spec ''h2'' [auto_rule]) w1 =
       Some (Ok ct2, [auto_rule\<lparr>ni_HostPort := 62001\<rparr>], c2, w2)"
  have "client_step sample_deps all_auto (sample_client, sample_world) (c1, w1)"
    by (rule client_step.create [OF _ 1]) simp
  moreover have "client_step sample_deps all_auto (c1, w1) (c2, w2)"
    by (rule client_step.create [OF _ 2]) simp
  ultimately have "client_run sample_deps all_auto (sample_client, sample_world) (c2, w2)"
    by (meson run_refl run_step)
  moreover note r1 = create_Ok [OF sample_keeps 1, THEN conjunct1]
    and r2 = create_Ok [OF sample_keeps 2, THEN conjunct1]
  have "cl_view c2 ''h1'' = Some ct1" "cl_view c2 ''h2'' = Some ct2"
    using r1 r2 by (simp_all add: create_registered_def sample_spec_def)
  ultimately show thesis
    using registered_host_ports [OF r1] registered_host_ports [OF r2] by (intro that) auto
qed

theorem no_shared_host_ports_witness:
  "\<exists>c w ct ct'. client_run sample_deps all_auto (sample_client, sample_world) (c, w) \<and>
     cl_view c ''h1'' = Some ct \<and> cl_view c ''h2'' = Some ct' \<and>
     set (pod_host_ports (ct_pod ct)) \<inter> set (pod_host_ports (ct_pod ct')) = {} \<and>
     pod_host_ports (ct_pod ct) \<noteq> []"
proof (rule sample_two_run)
  fix ct1 ct2 c w
  assume run: "client_run sample_deps all_auto (sample_client, sample_world) (c, w)"
    and v: "cl_view c ''h1'' = Some ct1" "cl_view c ''h2'' = Some ct2"
    and ports: "pod_host_ports (ct_pod ct1) = [62000]" "pod_host_ports (ct_pod ct2) = [62001]"
  from no_shared_host_ports [OF sample_fresh sample_keeps run v] run v ports show ?thesis by auto
qed

text \<open>C4: A successful \<open>Create\<close> was given a free handle, returns the container it has registered
  under it, in the phase Running and with the handle as its name; \<open>Info\<close> of the container
  lists exactly the rules of the spec with the host ports the caller now finds in them; and the
  ports it has chosen are different from each other, were free, and are now allocated.\<close>

theorem create_success:
  assumes "k8s_keeps (d_k8s d)" and "client_Create d c spec w = Some (Ok ct, nis, c', w')"
  shows "cl_view c (spec_Handle spec) = None \<and>
     cl_view c' = (cl_view c)(spec_Handle spec \<mapsto> ct) \<and>
     pod_Phase (ct_pod ct) = ''Running'' \<and> container_Handle ct = spec_Handle spec \<and>
     info_MappedPorts (container_Info ct) =
       map (\<lambda>ni. \<lparr>pm_HostPort = ni_HostPort ni, pm_ContainerPort = ni_ContainerPort ni\<rparr>) nis \<and>
     map ni_ContainerPort nis = map ni_ContainerPort (spec_NetIn spec) \<and>
     distinct (chosen_ports (spec_NetIn spec) nis) \<and>
     set (chosen_ports (spec_NetIn spec) nis) \<subseteq> port_window - cl_held c \<and>
     cl_held c' = cl_held c \<union> set (chosen_ports (spec_NetIn spec) nis)"
proof -
  have reg: "create_registered spec nis ct c c'" and run: "pod_Phase (ct_pod ct) = ''Running''"
    using create_Ok [OF assms] by auto
  obtain ports where "alloc_ports pm_Next (spec_NetIn spec) (cl_ports c) = (Ok ports, nis, cl_ports c')"
    using reg unfolding create_registered_def by blast
  from alloc_ports_result [OF this]
  have "map ni_ContainerPort nis = map ni_ContainerPort (spec_NetIn spec)" by blast
  moreover have "info_MappedPorts (container_Info ct) =
      map (\<lambda>ni. \<lparr>pm_HostPort = ni_HostPort ni, pm_ContainerPort = ni_ContainerPort ni\<rparr>) nis"
    using reg by (simp add: create_registered_def container_Info_def port_mappings_eq pod_ports_def
        container_port_of_def comp_def)
  ultimately show ?thesis
    using reg run by (simp add: create_registered_def container_Handle_def)
qed

theorem create_success_witness:
  "\<exists>ct c w. client_Create sample_deps sample_client (sample_spec ''h1'' [auto_rule]) sample_world =
       Some (Ok ct, [auto_rule\<lparr>ni_HostPort := 62000\<rparr>], c, w) \<and>
     info_MappedPorts (container_Info ct) = [\<lparr>pm_HostPort = 62000, pm_ContainerPort = 8080\<rparr>]"
proof (rule sample_first)
  fix ct c
  assume 1: "client_Create sample_deps sample_client (sample_spec ''h1'' [auto_rule]) sample_world =
       Some (Ok ct, [auto_rule\<lparr>ni_HostPort := 62000\<rparr>], c, \<lparr>wd_now = 0, wd_pods = [(''cf-workloads'', ''h1'')]\<rparr>)"
  from create_success [OF sample_keeps this] 1 show ?thesis by (auto simp: auto_rule_def)
qed

text \<open>C8: A \<open>Create\<close> that does not succeed either leaves the registry, the configuration and the
  properties as they were and at most keeps ports of the window it has allocated, or leaves its
  container registered; it never touches another handle. A handle in use changes nothing at
  all.\<close>

theorem create_failure:
  assumes "k8s_keeps (d_k8s d)" and "client_Create d c spec w = Some (r, nis, c', w')"
    and "\<forall>ct. r \<noteq> Ok ct"
  shows "(create_rejected c c' \<or> (\<exists>ct. create_registered spec nis ct c c')) \<and>
     (\<forall>h. h \<noteq> spec_Handle spec \<longrightarrow> cl_view c' h = cl_view c h) \<and> cl_held c \<subseteq> cl_held c' \<and>
     (cl_view c (spec_Handle spec) \<noteq> None \<longrightarrow>
        r = Err (handle_in_use (spec_Handle spec)) \<and> nis = spec_NetIn spec \<and> c' = c \<and> w' = w)"
proof -
  have "create_rejected c c' \<or> (\<exists>ct. create_registered spec nis ct c c')"
    using create_cases [OF assms(1,2)] by metis
  moreover have "cl_view c (spec_Handle spec) \<noteq> None \<longrightarrow>
      r = Err (handle_in_use (spec_Handle spec)) \<and> nis = spec_NetIn spec \<and> c' = c \<and> w' = w"
    using create_in_use [of c spec _ d w] assms(2) by auto
  ultimately show ?thesis
    by (auto simp: create_rejected_def create_registered_def)
qed

theorem create_failure_witness:
  "\<exists>e c'. client_Create sample_deps sample_client (missing_image_spec ''h1'' [auto_rule]) sample_world =
       Some (Err e, [auto_rule\<lparr>ni_HostPort := 62000\<rparr>], c', sample_world) \<and>
     (create_rejected sample_client c' \<or>
      (\<exists>ct. create_registered (missing_image_spec ''h1'' [auto_rule]) [auto_rule\<lparr>ni_HostPort := 62000\<rparr>] ct sample_client c'))"
proof -
  obtain e where 1: "client_Create sample_deps sample_client (missing_image_spec ''h1'' [auto_rule]) sample_world =
     Some (Err e, [auto_rule\<lparr>ni_HostPort := 62000\<rparr>],
       sample_client\<lparr>cl_ports := \<lparr>allocated = {62000}\<rparr>\<rparr>, sample_world)" using sample_missing_image ..
  from create_failure [OF sample_keeps this] 1 show ?thesis by blast
qed

text \<open>C9: \<open>Destroy\<close> of an unknown handle reports it and does nothing. Of a known one it either
  reports that its pod could not be deleted, and keeps the container and its ports, or removes
  the container and frees exactly the ports of its pod; when it returns nil it has done so.\<close>

theorem destroy_outcome:
  assumes "client_Destroy d c h w = Some (r, c', w')"
  shows "(cl_view c h = None \<and> r = Err (ContainerNotFoundError h) \<and> c' = c \<and> w' = w) \<or>
     (\<exists>ct e. cl_view c h = Some ct \<and> r = Err (ErrorfW ''failed to delete pod: %w'' [] e) \<and> c' = c) \<or>
     (\<exists>ct. cl_view c h = Some ct \<and> cl_view c' = (cl_view c)(h := None) \<and>
        cl_held c' = cl_held c - set (pod_host_ports (ct_pod ct)) \<and>
        deletePod (d_k8s d) (d_clock d) (ct_pod ct) w = Some (None, w') \<and>
        (r = Ok () \<longleftrightarrow> fst (pr_DestroyKeySpace (d_props d) (cl_props c) h) = None))"
  using assms by (rule destroy_cases) (auto simp: destroyed_def split: option.splits)

theorem destroy_outcome_witness:
  "\<exists>ct c c' w w'. cl_view c ''h1'' = Some ct \<and> client_Destroy sample_deps c ''h1'' w = Some (Ok (), c', w') \<and>
     cl_view c' ''h1'' = None \<and> cl_held c' = cl_held c - {62000} \<and> 62000 \<in> cl_held c"
proof (rule sample_first)
  fix ct c
  let ?w = "\<lparr>wd_now = 0, wd_pods = [(''cf-workloads'', ''h1'')]\<rparr>"
  assume 1: "client_Create sample_deps sample_client (sample_spec ''h1'' [auto_rule]) sample_world =
       Some (Ok ct, [auto_rule\<lparr>ni_HostPort := 62000\<rparr>], c, ?w)"
  note reg = create_Ok [OF sample_keeps 1, THEN conjunct1]
  then have v: "cl_view c ''h1'' = Some ct" by (simp add: create_registered_def sample_spec_def)
  obtain c' w' where d: "client_Destroy sample_deps c ''h1'' ?w = Some (Ok (), c', w')"
    using sample_destroy [OF v] by blast
  from destroy_outcome [OF d] v d registered_host_ports [OF reg] registered_auto [OF reg all_auto_sample]
  show ?thesis by (intro exI [of _ ct] exI [of _ c] exI [of _ c'] exI [of _ ?w] exI [of _ w']) auto
qed

text \<open>C7: Creating a container from a spec that names no host port (the client chooses them all) and
  destroying it again gives back the registry and the set of allocated ports there were before.
  (The named ports of a spec would be freed with the others, whoever else uses them.)\<close>

theorem create_destroy_roundtrip:
  assumes "k8s_keeps (d_k8s d)" and "all_auto spec"
    and "client_Create d c spec w = Some (Ok ct, nis, c1, w1)"
    and "client_Destroy d c1 (spec_Handle spec) w2 = Some (Ok (), c2, w3)"
  shows "cl_view c2 = cl_view c \<and> cl_held c2 = cl_held c \<and> cl_config c2 = cl_config c"
proof -
  have reg: "create_registered spec nis ct c c1" using create_Ok [OF assms(1,3)] ..
  note auto' = registered_auto [OF reg assms(2)] and hp = registered_host_ports [OF reg]
  from assms(4) show ?thesis
  proof (rule destroy_cases)
    fix ct'
    assume "destroyed (spec_Handle spec) ct' c1 c2"
    with reg auto' hp show ?thesis
      by (auto simp: destroyed_def create_registered_def fun_eq_iff)
  qed simp_all
qed

theorem create_destroy_roundtrip_witness:
  "\<exists>ct c1 w1 c2 w2. client_Create sample_deps sample_client (sample_spec ''h1'' [auto_rule]) sample_world =
       Some (Ok ct, [auto_rule\<lparr>ni_HostPort := 62000\<rparr>], c1, w1) \<and>
     client_Destroy sample_deps c1 ''h1'' w1 = Some (Ok (), c2, w2) \<and>
     cl_view c2 = cl_view sample_client \<and> cl_held c2 = cl_held sample_client"
proof (rule sample_first)
  fix ct c
  let ?w = "\<lparr>wd_now = 0, wd_pods = [(''cf-workloads'', ''h1'')]\<rparr>"
  assume 1: "client_Create sample_deps sample_client (sample_spec ''h1'' [auto_rule]) sample_world =
       Some (Ok ct, [auto_rule\<lparr>ni_HostPort := 62000\<rparr>], c, ?w)"
  have h: "spec_Handle (sample_spec ''h1'' [auto_rule]) = ''h1''" by (simp add: sample_spec_def)
  have "cl_view c ''h1'' = Some ct"
    using create_Ok [OF sample_keeps 1] by (simp add: create_registered_def sample_spec_def)
  then obtain c' w' where d: "client_Destroy sample_deps c ''h1'' ?w = Some (Ok (), c', w')"
    using sample_destroy by blast
  from create_destroy_roundtrip [OF sample_keeps all_auto_sample 1, unfolded h, OF d] 1 d
  show ?thesis by blast
qed

text \<open>C10: The polling loops of \<open>Create\<close> and \<open>Destroy\<close> end, so both calls return, whatever the API
  server answers, as long as every single call to it and to containerd returns, the time does not
  run backwards and a \<open>select\<close> honours the deadline of a context. That the single calls return is in
  the type of the parameters, total functions: \<open>Create\<close> makes the creation and the last deletion of
  the pod, the pull of the image, the reading of its configuration, its deletion and the loading of
  the tasks without a deadline, and hangs in the first of them that does.\<close>

theorem create_and_destroy_return:
  assumes "clock_laws (d_clock d)" and "time_flows (d_k8s d) (d_clock d)"
  shows "client_Create d c spec w \<noteq> None \<and> client_Destroy d c h w \<noteq> None"
  using create_returns [OF assms, of c spec w] destroy_returns [OF assms, of c h w] by auto

theorem create_and_destroy_return_witness:
  "client_Create sample_deps sample_client (sample_spec ''h1'' [auto_rule]) sample_world \<noteq> None \<and>
   client_Destroy sample_deps sample_client ''h1'' sample_world \<noteq> None"
  by (rule create_and_destroy_return) simp_all

text \<open>C16: In a client that owns its ports (as every client does that started on an empty node and
  was only asked for specs without named host ports), a port that a failed \<open>Create\<close> has allocated
  without registering a container stays allocated, and no container claims it, as long as all later
  specs leave the host ports to the client.\<close>

theorem leaked_ports_stay:
  assumes "k8s_keeps (d_k8s d)" and "ports_owned c"
    and "client_Create d c spec w = Some (r, nis, c1, w1)" and "cl_view c1 = cl_view c"
    and "p \<in> cl_held c1 - cl_held c" and "client_run d all_auto (c1, w1) (c2, w2)"
  shows "p \<in> cl_held c2 \<and> (\<forall>h ct. cl_view c2 h = Some ct \<longrightarrow> p \<notin> set (pod_host_ports (ct_pod ct)))"
proof -
  have "p \<notin> claims c h" for h using ports_ownedD(5) [OF assms(2), of h] assms(5) by blast
  then have "orphaned p c1" using assms(4,5) by (simp add: orphaned_def)
  with run_keeps_orphaned [OF assms(6,1), of p] have "orphaned p c2" by simp
  then show ?thesis unfolding orphaned_def by (metis option.simps(5))
qed

theorem leaked_ports_stay_witness:
  "\<exists>e c. client_Create sample_deps sample_client (missing_image_spec ''h1'' [auto_rule]) sample_world =
       Some (Err e, [auto_rule\<lparr>ni_HostPort := 62000\<rparr>], c, sample_world) \<and> 62000 \<in> cl_held c \<and>
     (\<forall>h. 62000 \<notin> claims c h)"
proof -
  let ?c = "sample_client\<lparr>cl_ports := \<lparr>allocated = {62000}\<rparr>\<rparr>"
  obtain e where 1: "client_Create sample_deps sample_client (missing_image_spec ''h1'' [auto_rule]) sample_world =
     Some (Err e, [auto_rule\<lparr>ni_HostPort := 62000\<rparr>], ?c, sample_world)" using sample_missing_image ..
  have "ports_owned sample_client" by (rule fresh_client_owned) simp
  moreover have "cl_view ?c = cl_view sample_client" "62000 \<in> cl_held ?c - cl_held sample_client"
    by (simp_all add: sample_client_def newPortManager_def)
  ultimately have "62000 \<in> cl_held ?c \<and>
      (\<forall>h ct. cl_view ?c h = Some ct \<longrightarrow> 62000 \<notin> set (pod_host_ports (ct_pod ct)))"
    using leaked_ports_stay [OF sample_keeps _ 1 _ _ run_refl] by blast
  then have "62000 \<in> cl_held ?c" "\<forall>h. 62000 \<notin> claims ?c h" by (simp_all split: option.split)
  with 1 show ?thesis by blast
qed

end
